theory Spec2Isabelle
  imports Complex_Main "HOL-Library.AList" "HOL-Library.Char_ord" "HOL-Library.List_Lexorder"
begin

section \<open>Data model of \<^verbatim>\<open>tracker.py\<close>\<close>

text \<open>
  \<^verbatim>\<open>DownloadRecord\<close> is a dataclass and becomes a record with the same fields.
  The tracking data is a Python dictionary with a fixed set of keys; it becomes a
  record too. The \<^verbatim>\<open>downloads\<close> dictionary is an association list in insertion
  order (Python dictionaries iterate in insertion order, and the order decides the
  order of the lists \<^verbatim>\<open>verify_files\<close> returns and the ties of the stable sort in
  \<^verbatim>\<open>cleanup_by_storage_limit\<close>). Python floats are idealised as exact rationals.
\<close>

type_synonym path = string

record download_record =
  edicto_id :: string
  filename :: string
  download_date :: string
  file_size :: int
  file_path :: path
  checksum :: "string option"
  compressed :: bool

record statistics =
  total_downloads :: int
  total_size_mb :: rat
  last_cleanup :: "string option"
  last_compression :: "string option"

record tracking_data =
  version :: string
  created :: "string option"
  last_updated :: string
  downloads :: "(string \<times> download_record) list"
  statistics :: statistics

text \<open>
  What \<^verbatim>\<open>json.load\<close> hands to \<^verbatim>\<open>_validate_and_migrate_data\<close>: a dictionary in
  which every top-level key may be missing, and whose \<^verbatim>\<open>downloads\<close> entry is
  either a dictionary of records or the legacy list of ids.
\<close>

datatype downloads_repr =
  AsDict "(string \<times> download_record) list"
| AsList "string list"

record json_doc =
  doc_version :: "string option"
  doc_created :: "string option"
  doc_last_updated :: "string option"
  doc_downloads :: "downloads_repr option"
  doc_statistics :: "statistics option"

record storage_stats =
  total_files :: int
  stats_total_size_mb :: rat
  compressed_files :: int
  compressed_size_mb :: rat
  oldest_file_date :: "string option"
  newest_file_date :: "string option"

text \<open>The tracker object: its three paths and the tracking data it holds in memory.\<close>

record tracker =
  tracking_file :: path
  download_dir :: path
  backup_dir :: path
  tracking_data :: tracking_data

section \<open>The world outside the object\<close>

text \<open>
  The filesystem is an association list from path strings, spelled as the program
  spells them, to nodes; a file carries its bytes and its modification time. The
  logger is the sequence of levels of the records it received.
\<close>

datatype node = File (content: string) (mtime: int) | Dir (mtime: int)

type_synonym filesystem = "(path \<times> node) list"

datatype level = DEBUG | INFO | WARNING | ERROR

record world =
  fs :: filesystem
  log :: "level list"

datatype exn =
  FileNotFoundError | IsADirectoryError | NotADirectoryError | FileExistsError
| JSONDecodeError | TypeError | ValueError | KeyError

text \<open>
  A \<^verbatim>\<open>datetime\<close> is naive (wall-clock microseconds) or aware (microseconds on the
  UTC line). Python orders two values of the same kind and raises \<^verbatim>\<open>TypeError\<close>
  when a naive value is compared with an aware one.
\<close>

datatype datetime = Naive int | Aware int

text \<open>
  The library functions the tracker calls and does not define:
  \<^verbatim>\<open>datetime.fromisoformat\<close> (\<open>None\<close> is its \<^verbatim>\<open>ValueError\<close>),
  \<^verbatim>\<open>hashlib.sha256(...).hexdigest()\<close>, the gzip encoder, \<^verbatim>\<open>json.dump\<close>
  (\<open>None\<close>: the value is not serialisable) and \<^verbatim>\<open>json.load\<close> (\<open>None\<close> is its
  \<^verbatim>\<open>JSONDecodeError\<close>).
\<close>

record lib =
  fromisoformat :: "string \<Rightarrow> datetime option"
  sha256_hexdigest :: "string \<Rightarrow> string"
  gzip_compress :: "string \<Rightarrow> string"
  json_dumps :: "tracking_data \<Rightarrow> string option"
  json_loads :: "string \<Rightarrow> json_doc option"

text \<open>
  The clock, read once per operation: \<^verbatim>\<open>datetime.now()\<close> as a naive value, its
  \<^verbatim>\<open>isoformat()\<close> and its \<^verbatim>\<open>strftime('%Y%m%d_%H%M%S')\<close>.
\<close>

record clock =
  now :: int
  now_isoformat :: string
  now_strftime :: string

definition logmsg :: "level \<Rightarrow> world \<Rightarrow> world" where
  "logmsg l w = w\<lparr>log := log w @ [l]\<rparr>"

subsection \<open>Strings and paths\<close>

definition startswith :: "string \<Rightarrow> string \<Rightarrow> bool" where
  "startswith s pre = (take (length pre) s = pre)"

definition endswith :: "string \<Rightarrow> string \<Rightarrow> bool" where
  "endswith s suf = (length suf \<le> length s \<and> drop (length s - length suf) s = suf)"

text \<open>\<^verbatim>\<open>s.replace('Z', '+00:00')\<close>\<close>

definition replace_Z :: "string \<Rightarrow> string" where
  "replace_Z s = concat (map (\<lambda>c. if c = CHR ''Z'' then ''+00:00'' else [c]) s)"

text \<open>
  \<^verbatim>\<open>posixpath.dirname\<close>: everything up to the last slash, with trailing slashes
  stripped unless the head consists of slashes only.
\<close>

definition rstrip_slash :: "string \<Rightarrow> string" where
  "rstrip_slash s = rev (dropWhile (\<lambda>c. c = CHR ''/'') (rev s))"

definition dirname :: "path \<Rightarrow> path" where
  "dirname p =
     (let head = rev (dropWhile (\<lambda>c. c \<noteq> CHR ''/'') (rev p))
      in if head \<noteq> [] \<and> \<not> list_all (\<lambda>c. c = CHR ''/'') head then rstrip_slash head else head)"

definition basename :: "path \<Rightarrow> string" where
  "basename p = rev (takeWhile (\<lambda>c. c \<noteq> CHR ''/'') (rev p))"

text \<open>\<^verbatim>\<open>posixpath.join\<close> of two components.\<close>

definition join :: "path \<Rightarrow> path \<Rightarrow> path" where
  "join a b =
     (if startswith b ''/'' then b
      else if a = [] \<or> endswith a ''/'' then a @ b
      else a @ ''/'' @ b)"

subsection \<open>Filesystem primitives\<close>

definition os_path_exists :: "filesystem \<Rightarrow> path \<Rightarrow> bool" where
  "os_path_exists f p = (map_of f p \<noteq> None)"

definition os_path_getsize :: "filesystem \<Rightarrow> path \<Rightarrow> exn + nat" where
  "os_path_getsize f p =
     (case map_of f p of
        None \<Rightarrow> Inl FileNotFoundError
      | Some (File c m) \<Rightarrow> Inr (length c)
      | Some (Dir m) \<Rightarrow> Inr 4096)"

definition os_path_getmtime :: "filesystem \<Rightarrow> path \<Rightarrow> exn + int" where
  "os_path_getmtime f p =
     (case map_of f p of
        None \<Rightarrow> Inl FileNotFoundError
      | Some n \<Rightarrow> Inr (mtime n))"

definition os_remove :: "filesystem \<Rightarrow> path \<Rightarrow> exn + filesystem" where
  "os_remove f p =
     (case map_of f p of
        None \<Rightarrow> Inl FileNotFoundError
      | Some (File c m) \<Rightarrow> Inr (AList.delete p f)
      | Some (Dir m) \<Rightarrow> Inl IsADirectoryError)"

text \<open>Opening a file for reading and reading all of it.\<close>

definition read_file :: "filesystem \<Rightarrow> path \<Rightarrow> exn + string" where
  "read_file f p =
     (case map_of f p of
        None \<Rightarrow> Inl FileNotFoundError
      | Some (File c m) \<Rightarrow> Inr c
      | Some (Dir m) \<Rightarrow> Inl IsADirectoryError)"

text \<open>
  Opening a path for writing creates or truncates the file. It fails on a directory,
  and when the parent directory is missing or is a file; the empty parent is the
  current directory, which exists.
\<close>

definition open_w :: "int \<Rightarrow> filesystem \<Rightarrow> path \<Rightarrow> exn + filesystem" where
  "open_w t f p =
     (case map_of f p of
        Some (Dir m) \<Rightarrow> Inl IsADirectoryError
      | _ \<Rightarrow>
        (if dirname p = [] then Inr (AList.update p (File [] t) f)
         else case map_of f (dirname p) of
                None \<Rightarrow> Inl FileNotFoundError
              | Some (File c m) \<Rightarrow> Inl NotADirectoryError
              | Some (Dir m) \<Rightarrow> Inr (AList.update p (File [] t) f)))"

text \<open>Writing into a file opened by \<open>open_w\<close>.\<close>

definition write_content :: "int \<Rightarrow> filesystem \<Rightarrow> path \<Rightarrow> string \<Rightarrow> filesystem" where
  "write_content t f p c = AList.update p (File c t) f"

section \<open>Integrity verifier\<close>

text \<open>
  \<^verbatim>\<open>_calculate_checksum\<close>: the digest of the file's bytes; any exception is logged
  as a warning and the result is the empty string.
\<close>

definition calculate_checksum :: "lib \<Rightarrow> path \<Rightarrow> world \<Rightarrow> string \<times> world" where
  "calculate_checksum L p w =
     (case read_file (fs w) p of
        Inr c \<Rightarrow> (sha256_hexdigest L c, w)
      | Inl e \<Rightarrow> ([], logmsg WARNING w))"

text \<open>Python's truth value of an \<^verbatim>\<open>Optional[str]\<close>: neither \<^verbatim>\<open>None\<close> nor empty.\<close>

definition truthy :: "string option \<Rightarrow> bool" where
  "truthy c = (case c of None \<Rightarrow> False | Some s \<Rightarrow> s \<noteq> [])"

text \<open>
  The loop of \<^verbatim>\<open>verify_files\<close> over \<^verbatim>\<open>downloads.items()\<close>. No statement of its body
  can raise on a record of the declared types, so the enclosing \<^verbatim>\<open>try\<close> has no
  branch here.
\<close>

fun verify_loop ::
  "lib \<Rightarrow> (string \<times> download_record) list \<Rightarrow> string list \<Rightarrow> string list \<Rightarrow> world
   \<Rightarrow> (string list \<times> string list) \<times> world" where
  "verify_loop L [] missing_files corrupted_files w = ((missing_files, corrupted_files), w)"
| "verify_loop L ((eid, r) # rest) missing_files corrupted_files w =
     (if \<not> os_path_exists (fs w) (file_path r) then
        verify_loop L rest (missing_files @ [eid]) corrupted_files (logmsg WARNING w)
      else if truthy (checksum r) then
        (if compressed r \<and> endswith (file_path r) ''.gz'' then
           verify_loop L rest missing_files corrupted_files w
         else
           (let (current_checksum, w1) = calculate_checksum L (file_path r) w
            in if Some current_checksum \<noteq> checksum r then
                 verify_loop L rest missing_files (corrupted_files @ [eid]) (logmsg WARNING w1)
               else verify_loop L rest missing_files corrupted_files w1))
      else verify_loop L rest missing_files corrupted_files w)"

definition verify_files :: "lib \<Rightarrow> tracker \<Rightarrow> world \<Rightarrow> (string list \<times> string list) \<times> tracker \<times> world" where
  "verify_files L t w =
     (let ((missing_files, corrupted_files), w1) =
            verify_loop L (downloads (tracking_data t)) [] [] w;
          w2 = (if missing_files \<noteq> [] \<or> corrupted_files \<noteq> [] then logmsg WARNING w1
                else logmsg INFO w1)
      in ((missing_files, corrupted_files), t, w2))"

section \<open>Live statistics\<close>

text \<open>
  The loop of \<^verbatim>\<open>get_storage_stats\<close> over \<^verbatim>\<open>downloads.values()\<close>: only records
  whose file exists count, with their recorded \<^verbatim>\<open>file_size\<close>.
\<close>

fun stats_loop ::
  "filesystem \<Rightarrow> (string \<times> download_record) list \<Rightarrow> storage_stats \<Rightarrow> string list
   \<Rightarrow> storage_stats \<times> string list" where
  "stats_loop f [] st download_dates = (st, download_dates)"
| "stats_loop f ((eid, r) # rest) st download_dates =
     (if os_path_exists f (file_path r) then
        (let file_size_mb = of_int (file_size r) / 1048576;
             st1 = st\<lparr>total_files := total_files st + 1,
                      stats_total_size_mb := stats_total_size_mb st + file_size_mb\<rparr>;
             st2 = (if compressed r
                    then st1\<lparr>compressed_files := compressed_files st1 + 1,
                             compressed_size_mb := compressed_size_mb st1 + file_size_mb\<rparr>
                    else st1)
         in stats_loop f rest st2 (download_dates @ [download_date r]))
      else stats_loop f rest st download_dates)"

definition empty_stats :: storage_stats where
  "empty_stats =
     \<lparr>total_files = 0, stats_total_size_mb = 0, compressed_files = 0, compressed_size_mb = 0,
      oldest_file_date = None, newest_file_date = None\<rparr>"

definition get_storage_stats :: "tracker \<Rightarrow> world \<Rightarrow> storage_stats" where
  "get_storage_stats t w =
     (let (st, download_dates) = stats_loop (fs w) (downloads (tracking_data t)) empty_stats []
      in if download_dates \<noteq> [] then
           st\<lparr>oldest_file_date := Some (hd (sort download_dates)),
              newest_file_date := Some (last (sort download_dates))\<rparr>
         else st)"

section \<open>Retention engine\<close>

definition timedelta_days :: "int \<Rightarrow> int" where
  "timedelta_days d = d * 86400000000"

text \<open>\<^verbatim>\<open>a < b\<close> on datetimes.\<close>

fun dt_less :: "datetime \<Rightarrow> datetime \<Rightarrow> exn + bool" where
  "dt_less (Naive a) (Naive b) = Inr (a < b)"
| "dt_less (Aware a) (Aware b) = Inr (a < b)"
| "dt_less _ _ = Inl TypeError"

text \<open>\<^verbatim>\<open>datetime.fromisoformat(record.download_date.replace('Z', '+00:00'))\<close>\<close>

definition parse_date :: "lib \<Rightarrow> string \<Rightarrow> exn + datetime" where
  "parse_date L s =
     (case fromisoformat L (replace_Z s) of None \<Rightarrow> Inl ValueError | Some d \<Rightarrow> Inr d)"

text \<open>\<^verbatim>\<open>del self.tracking_data['downloads'][edicto_id]\<close>\<close>

definition untrack :: "string \<Rightarrow> tracker \<Rightarrow> exn + tracker" where
  "untrack eid t =
     (case map_of (downloads (tracking_data t)) eid of
        None \<Rightarrow> Inl KeyError
      | Some r \<Rightarrow>
          Inr (t\<lparr>tracking_data :=
                   (tracking_data t)\<lparr>downloads := AList.delete eid (downloads (tracking_data t))\<rparr>\<rparr>))"

text \<open>
  The block both policies run on a record due for removal: when the file exists,
  take its on-disk size, remove it and log; the result is the new world and the
  size freed in MB.
\<close>

definition remove_tracked_file :: "path \<Rightarrow> world \<Rightarrow> exn + (world \<times> rat)" where
  "remove_tracked_file p w =
     (if os_path_exists (fs w) p then
        (case os_path_getsize (fs w) p of
           Inl e \<Rightarrow> Inl e
         | Inr sz \<Rightarrow>
             (case os_remove (fs w) p of
                Inl e \<Rightarrow> Inl e
              | Inr f1 \<Rightarrow> Inr (logmsg INFO (w\<lparr>fs := f1\<rparr>), of_nat sz / 1048576)))
      else Inr (w, 0))"

subsection \<open>Age policy\<close>

text \<open>First loop of \<^verbatim>\<open>cleanup_old_files\<close>: the records older than the cutoff.\<close>

fun collect_old ::
  "lib \<Rightarrow> datetime \<Rightarrow> (string \<times> download_record) list \<Rightarrow> (string \<times> download_record) list
   \<Rightarrow> exn + (string \<times> download_record) list" where
  "collect_old L cutoff_date [] to_remove = Inr to_remove"
| "collect_old L cutoff_date ((eid, r) # rest) to_remove =
     (case parse_date L (download_date r) of
        Inl e \<Rightarrow> Inl e
      | Inr d \<Rightarrow>
          (case dt_less d cutoff_date of
             Inl e \<Rightarrow> Inl e
           | Inr b \<Rightarrow>
               collect_old L cutoff_date rest (if b then to_remove @ [(eid, r)] else to_remove)))"

text \<open>
  Second loop: an exception leaves the loop with the state reached so far; the
  first component says whether one was raised.
\<close>

fun remove_loop ::
  "(string \<times> download_record) list \<Rightarrow> tracker \<Rightarrow> world \<Rightarrow> int \<Rightarrow> rat
   \<Rightarrow> exn option \<times> tracker \<times> world \<times> int \<times> rat" where
  "remove_loop [] t w removed_count removed_size_mb =
     (None, t, w, removed_count, removed_size_mb)"
| "remove_loop ((eid, r) # rest) t w removed_count removed_size_mb =
     (case remove_tracked_file (file_path r) w of
        Inl e \<Rightarrow> (Some e, t, w, removed_count, removed_size_mb)
      | Inr (w1, freed) \<Rightarrow>
          (case untrack eid t of
             Inl e \<Rightarrow> (Some e, t, w1, removed_count, removed_size_mb + freed)
           | Inr t1 \<Rightarrow> remove_loop rest t1 w1 (removed_count + 1) (removed_size_mb + freed)))"

definition cleanup_old_files ::
  "lib \<Rightarrow> clock \<Rightarrow> int \<Rightarrow> tracker \<Rightarrow> world \<Rightarrow> (int \<times> rat) \<times> tracker \<times> world" where
  "cleanup_old_files L C max_age_days t w =
     (let cutoff_date = Naive (now C - timedelta_days max_age_days)
      in case collect_old L cutoff_date (downloads (tracking_data t)) [] of
           Inl e \<Rightarrow> ((0, 0), t, logmsg ERROR w)
         | Inr to_remove \<Rightarrow>
             (case remove_loop to_remove t w 0 0 of
                (Some e, t1, w1, removed_count, removed_size_mb) \<Rightarrow>
                  ((removed_count, removed_size_mb), t1, logmsg ERROR w1)
              | (None, t1, w1, removed_count, removed_size_mb) \<Rightarrow>
                  (let st = statistics (tracking_data t1);
                       st1 = st\<lparr>last_cleanup := Some (now_isoformat C),
                                total_downloads := total_downloads st - removed_count,
                                total_size_mb := total_size_mb st - removed_size_mb\<rparr>;
                       t2 = t1\<lparr>tracking_data := (tracking_data t1)\<lparr>statistics := st1\<rparr>\<rparr>
                   in ((removed_count, removed_size_mb), t2,
                       if removed_count > 0 then logmsg INFO w1 else w1))))"

subsection \<open>Capacity policy\<close>

text \<open>First loop of \<^verbatim>\<open>cleanup_by_storage_limit\<close>: records whose file exists, with their dates.\<close>

fun collect_existing ::
  "lib \<Rightarrow> filesystem \<Rightarrow> (string \<times> download_record) list
   \<Rightarrow> (datetime \<times> string \<times> download_record) list
   \<Rightarrow> exn + (datetime \<times> string \<times> download_record) list" where
  "collect_existing L f [] acc = Inr acc"
| "collect_existing L f ((eid, r) # rest) acc =
     (if os_path_exists f (file_path r) then
        (case parse_date L (download_date r) of
           Inl e \<Rightarrow> Inl e
         | Inr d \<Rightarrow> collect_existing L f rest (acc @ [(d, eid, r)]))
      else collect_existing L f rest acc)"

fun is_naive :: "datetime \<Rightarrow> bool" where
  "is_naive (Naive a) = True"
| "is_naive (Aware a) = False"

fun dt_key :: "datetime \<Rightarrow> int" where
  "dt_key (Naive a) = a"
| "dt_key (Aware a) = a"

text \<open>
  \<^verbatim>\<open>records_with_dates.sort(key=lambda x: x[0])\<close>: a stable sort; with two or more
  entries a list that mixes naive and aware dates makes a comparison raise.
\<close>

definition sort_by_date ::
  "(datetime \<times> string \<times> download_record) list \<Rightarrow> exn + (datetime \<times> string \<times> download_record) list" where
  "sort_by_date xs =
     (if length xs \<le> 1 then Inr xs
      else if list_all (\<lambda>x. is_naive (fst x)) xs \<or> list_all (\<lambda>x. \<not> is_naive (fst x)) xs
      then Inr (sort_key (\<lambda>x. dt_key (fst x)) xs)
      else Inl TypeError)"

text \<open>The eviction loop, with its \<^verbatim>\<open>break\<close> once the running size is within the limit.\<close>

fun limit_loop ::
  "rat \<Rightarrow> (datetime \<times> string \<times> download_record) list \<Rightarrow> rat \<Rightarrow> tracker \<Rightarrow> world \<Rightarrow> int \<Rightarrow> rat
   \<Rightarrow> exn option \<times> tracker \<times> world \<times> int \<times> rat" where
  "limit_loop max_storage_mb [] current_size t w removed_count removed_size_mb =
     (None, t, w, removed_count, removed_size_mb)"
| "limit_loop max_storage_mb ((d, eid, r) # rest) current_size t w removed_count removed_size_mb =
     (if current_size \<le> max_storage_mb then (None, t, w, removed_count, removed_size_mb)
      else
        (case remove_tracked_file (file_path r) w of
           Inl e \<Rightarrow> (Some e, t, w, removed_count, removed_size_mb)
         | Inr (w1, freed) \<Rightarrow>
             (case untrack eid t of
                Inl e \<Rightarrow> (Some e, t, w1, removed_count, removed_size_mb + freed)
              | Inr t1 \<Rightarrow>
                  limit_loop max_storage_mb rest (current_size - freed) t1 w1
                    (removed_count + 1) (removed_size_mb + freed))))"

definition cleanup_by_storage_limit ::
  "lib \<Rightarrow> rat \<Rightarrow> tracker \<Rightarrow> world \<Rightarrow> (int \<times> rat) \<times> tracker \<times> world" where
  "cleanup_by_storage_limit L max_storage_mb t w =
     (let current_stats = get_storage_stats t w
      in if stats_total_size_mb current_stats \<le> max_storage_mb then ((0, 0), t, logmsg DEBUG w)
         else
           (case collect_existing L (fs w) (downloads (tracking_data t)) [] of
              Inl e \<Rightarrow> ((0, 0), t, logmsg ERROR w)
            | Inr records_with_dates \<Rightarrow>
                (case sort_by_date records_with_dates of
                   Inl e \<Rightarrow> ((0, 0), t, logmsg ERROR w)
                 | Inr sorted_records \<Rightarrow>
                     (case limit_loop max_storage_mb sorted_records
                             (stats_total_size_mb current_stats) t w 0 0 of
                        (Some e, t1, w1, removed_count, removed_size_mb) \<Rightarrow>
                          ((removed_count, removed_size_mb), t1, logmsg ERROR w1)
                      | (None, t1, w1, removed_count, removed_size_mb) \<Rightarrow>
                          (let st = statistics (tracking_data t1);
                               st1 = st\<lparr>total_downloads := total_downloads st - removed_count,
                                        total_size_mb := total_size_mb st - removed_size_mb\<rparr>;
                               t2 = t1\<lparr>tracking_data := (tracking_data t1)\<lparr>statistics := st1\<rparr>\<rparr>
                           in ((removed_count, removed_size_mb), t2,
                               if removed_count > 0 then logmsg INFO w1 else w1))))))"

section \<open>Compression engine\<close>

text \<open>
  The body of the loop of \<^verbatim>\<open>compress_old_files\<close> for a record that is due: read
  the original, write the gzip output beside it, and only when the output exists
  remove the original and rewrite the record. An exception leaves the state reached
  so far.
\<close>

definition compress_record ::
  "lib \<Rightarrow> clock \<Rightarrow> string \<Rightarrow> download_record \<Rightarrow> tracker \<Rightarrow> world \<Rightarrow> int \<Rightarrow> rat
   \<Rightarrow> exn option \<times> tracker \<times> world \<times> int \<times> rat" where
  "compress_record L C eid r t w compressed_count space_saved_mb =
     (let compressed_path = file_path r @ ''.gz''
      in case os_path_getsize (fs w) (file_path r) of
           Inl e \<Rightarrow> (Some e, t, w, compressed_count, space_saved_mb)
         | Inr original_size \<Rightarrow>
         (case read_file (fs w) (file_path r) of
           Inl e \<Rightarrow> (Some e, t, w, compressed_count, space_saved_mb)
         | Inr bytes \<Rightarrow>
         (case open_w (now C) (fs w) compressed_path of
           Inl e \<Rightarrow> (Some e, t, w, compressed_count, space_saved_mb)
         | Inr f1 \<Rightarrow>
         (let f2 = write_content (now C) f1 compressed_path (gzip_compress L bytes);
              w2 = w\<lparr>fs := f2\<rparr>
          in if os_path_exists f2 compressed_path then
               (case os_path_getsize f2 compressed_path of
                  Inl e \<Rightarrow> (Some e, t, w2, compressed_count, space_saved_mb)
                | Inr compressed_size \<Rightarrow>
                (case os_remove f2 (file_path r) of
                  Inl e \<Rightarrow> (Some e, t, w2, compressed_count, space_saved_mb)
                | Inr f3 \<Rightarrow>
                    (let r1 = r\<lparr>file_path := compressed_path, compressed := True,
                                file_size := int compressed_size\<rparr>;
                         t1 = t\<lparr>tracking_data :=
                                  (tracking_data t)\<lparr>downloads :=
                                     AList.update eid r1 (downloads (tracking_data t))\<rparr>\<rparr>
                     in (None, t1, logmsg INFO (w\<lparr>fs := f3\<rparr>), compressed_count + 1,
                         space_saved_mb
                           + (of_nat original_size - of_nat compressed_size) / 1048576))))
             else (None, t, w2, compressed_count, space_saved_mb)))))"

fun compress_loop ::
  "lib \<Rightarrow> clock \<Rightarrow> datetime \<Rightarrow> (string \<times> download_record) list \<Rightarrow> tracker \<Rightarrow> world \<Rightarrow> int \<Rightarrow> rat
   \<Rightarrow> exn option \<times> tracker \<times> world \<times> int \<times> rat" where
  "compress_loop L C cutoff_date [] t w compressed_count space_saved_mb =
     (None, t, w, compressed_count, space_saved_mb)"
| "compress_loop L C cutoff_date ((eid, r) # rest) t w compressed_count space_saved_mb =
     (if compressed r \<or> \<not> os_path_exists (fs w) (file_path r) then
        compress_loop L C cutoff_date rest t w compressed_count space_saved_mb
      else
        (case parse_date L (download_date r) of
           Inl e \<Rightarrow> (Some e, t, w, compressed_count, space_saved_mb)
         | Inr d \<Rightarrow>
         (case dt_less d cutoff_date of
           Inl e \<Rightarrow> (Some e, t, w, compressed_count, space_saved_mb)
         | Inr b \<Rightarrow>
             (if b then
                (case compress_record L C eid r t w compressed_count space_saved_mb of
                   (Some e, st) \<Rightarrow> (Some e, st)
                 | (None, t1, w1, n1, s1) \<Rightarrow> compress_loop L C cutoff_date rest t1 w1 n1 s1)
              else compress_loop L C cutoff_date rest t w compressed_count space_saved_mb))))"

definition compress_old_files ::
  "lib \<Rightarrow> clock \<Rightarrow> int \<Rightarrow> tracker \<Rightarrow> world \<Rightarrow> (int \<times> rat) \<times> tracker \<times> world" where
  "compress_old_files L C compress_age_days t w =
     (let cutoff_date = Naive (now C - timedelta_days compress_age_days)
      in case compress_loop L C cutoff_date (downloads (tracking_data t)) t w 0 0 of
           (Some e, t1, w1, compressed_count, space_saved_mb) \<Rightarrow>
             ((compressed_count, space_saved_mb), t1, logmsg ERROR w1)
         | (None, t1, w1, compressed_count, space_saved_mb) \<Rightarrow>
             (if compressed_count > 0 then
                (let st = statistics (tracking_data t1);
                     st1 = st\<lparr>last_compression := Some (now_isoformat C)\<rparr>;
                     t2 = t1\<lparr>tracking_data := (tracking_data t1)\<lparr>statistics := st1\<rparr>\<rparr>
                 in ((compressed_count, space_saved_mb), t2, logmsg INFO w1))
              else ((compressed_count, space_saved_mb), t1, w1)))"

section \<open>Persistence manager\<close>

subsection \<open>More filesystem primitives\<close>

text \<open>\<^verbatim>\<open>os.listdir\<close>: the names of the entries directly inside a directory.\<close>

definition os_listdir :: "filesystem \<Rightarrow> path \<Rightarrow> exn + string list" where
  "os_listdir f d =
     (case map_of f d of
        None \<Rightarrow> Inl FileNotFoundError
      | Some (File c m) \<Rightarrow> Inl NotADirectoryError
      | Some (Dir m) \<Rightarrow>
          Inr (map basename (filter (\<lambda>p. p \<noteq> d \<and> dirname p = d \<and> basename p \<noteq> []) (map fst f))))"

text \<open>
  \<^verbatim>\<open>shutil.copy2\<close> of a regular file: bytes and modification time are copied; a
  destination that is a directory receives the file under the source's base name.
\<close>

definition shutil_copy2 :: "filesystem \<Rightarrow> path \<Rightarrow> path \<Rightarrow> exn + filesystem" where
  "shutil_copy2 f src dst =
     (let target = (case map_of f dst of Some (Dir m) \<Rightarrow> join dst (basename src) | _ \<Rightarrow> dst)
      in case map_of f src of
           None \<Rightarrow> Inl FileNotFoundError
         | Some (Dir m) \<Rightarrow> Inl IsADirectoryError
         | Some (File c m) \<Rightarrow>
             (if target = src then Inl FileExistsError
              else case open_w m f target of
                     Inl e \<Rightarrow> Inl e
                   | Inr f1 \<Rightarrow> Inr (write_content m f1 target c)))"

text \<open>
  \<^verbatim>\<open>os.rename\<close> of a regular file: the destination is replaced in one step unless it
  is a directory. The tracker only renames the temporary file it has just written, so
  a directory as source is not modelled beyond its failure.
\<close>

definition os_rename :: "filesystem \<Rightarrow> path \<Rightarrow> path \<Rightarrow> exn + filesystem" where
  "os_rename f src dst =
     (case map_of f src of
        None \<Rightarrow> Inl FileNotFoundError
      | Some (Dir m) \<Rightarrow> Inl IsADirectoryError
      | Some (File c m) \<Rightarrow>
          (case map_of f dst of
             Some (Dir m') \<Rightarrow> Inl IsADirectoryError
           | _ \<Rightarrow>
             (if src = dst then Inr f
              else if dirname dst = [] then Inr (AList.update dst (File c m) (AList.delete src f))
              else case map_of f (dirname dst) of
                     None \<Rightarrow> Inl FileNotFoundError
                   | Some (File c' m') \<Rightarrow> Inl NotADirectoryError
                   | Some (Dir m') \<Rightarrow> Inr (AList.update dst (File c m) (AList.delete src f)))))"

text \<open>
  \<^verbatim>\<open>Path(p).mkdir(parents=True, exist_ok=True)\<close> on the path as spelled: an existing
  directory is accepted, an existing file is an error, missing parents are created
  first. A path that is its own parent is a root and exists.
\<close>

function mkdir_parents :: "int \<Rightarrow> filesystem \<Rightarrow> path \<Rightarrow> exn + filesystem" where
  "mkdir_parents tm f p =
     (case map_of f p of
        Some (Dir m) \<Rightarrow> Inr f
      | Some (File c m) \<Rightarrow> Inl FileExistsError
      | None \<Rightarrow>
          (if dirname p = [] \<or> length p \<le> length (dirname p) then Inr (AList.update p (Dir tm) f)
           else case map_of f (dirname p) of
                  Some (Dir m) \<Rightarrow> Inr (AList.update p (Dir tm) f)
                | Some (File c m) \<Rightarrow> Inl NotADirectoryError
                | None \<Rightarrow>
                    (case mkdir_parents tm f (dirname p) of
                       Inl e \<Rightarrow> Inl e
                     | Inr f1 \<Rightarrow> Inr (AList.update p (Dir tm) f1))))"
  by pat_completeness auto
termination
  by (relation "measure (\<lambda>(tm, f, p). length p)") auto

subsection \<open>Backups\<close>

text \<open>First loop of \<^verbatim>\<open>_cleanup_old_backups\<close>: the backup files with their modification times.\<close>

fun backup_candidates ::
  "filesystem \<Rightarrow> path \<Rightarrow> string list \<Rightarrow> (path \<times> int) list \<Rightarrow> exn + (path \<times> int) list" where
  "backup_candidates f bd [] backup_files = Inr backup_files"
| "backup_candidates f bd (name # names) backup_files =
     (if startswith name ''tracking_backup_'' \<and> endswith name ''.json'' then
        (case os_path_getmtime f (join bd name) of
           Inl e \<Rightarrow> Inl e
         | Inr m \<Rightarrow> backup_candidates f bd names (backup_files @ [(join bd name, m)]))
      else backup_candidates f bd names backup_files)"

text \<open>Second loop: remove the backups beyond the newest \<^verbatim>\<open>keep_count\<close>.\<close>

fun remove_backups :: "(path \<times> int) list \<Rightarrow> world \<Rightarrow> exn option \<times> world" where
  "remove_backups [] w = (None, w)"
| "remove_backups ((p, m) # rest) w =
     (case os_remove (fs w) p of
        Inl e \<Rightarrow> (Some e, w)
      | Inr f1 \<Rightarrow> remove_backups rest (logmsg DEBUG (w\<lparr>fs := f1\<rparr>)))"

definition cleanup_old_backups :: "nat \<Rightarrow> tracker \<Rightarrow> world \<Rightarrow> world" where
  "cleanup_old_backups keep_count t w =
     (case os_listdir (fs w) (backup_dir t) of
        Inl e \<Rightarrow> logmsg WARNING w
      | Inr names \<Rightarrow>
          (case backup_candidates (fs w) (backup_dir t) names [] of
             Inl e \<Rightarrow> logmsg WARNING w
           | Inr backup_files \<Rightarrow>
               (case remove_backups (drop keep_count (sort_key (\<lambda>x. - snd x) backup_files)) w of
                  (Some e, w1) \<Rightarrow> logmsg WARNING w1
                | (None, w1) \<Rightarrow> w1)))"

definition create_backup :: "clock \<Rightarrow> tracker \<Rightarrow> world \<Rightarrow> world" where
  "create_backup C t w =
     (if \<not> os_path_exists (fs w) (tracking_file t) then w
      else
        (let backup_name = ''tracking_backup_'' @ now_strftime C @ ''.json'';
             backup_path = join (backup_dir t) backup_name
         in case shutil_copy2 (fs w) (tracking_file t) backup_path of
              Inl e \<Rightarrow> logmsg WARNING w
            | Inr f1 \<Rightarrow> cleanup_old_backups 10 t (logmsg DEBUG (w\<lparr>fs := f1\<rparr>))))"

subsection \<open>Saving\<close>

text \<open>
  The \<^verbatim>\<open>try\<close> block of \<^verbatim>\<open>save_tracking_data\<close> after the backup: write the temporary
  file, then rename it over the tracking file. When \<^verbatim>\<open>json.dump\<close> raises, the
  temporary file stays as it was created.
\<close>

definition write_and_replace :: "lib \<Rightarrow> clock \<Rightarrow> tracker \<Rightarrow> world \<Rightarrow> exn option \<times> world" where
  "write_and_replace L C t w =
     (let temp_file = tracking_file t @ ''.tmp''
      in case open_w (now C) (fs w) temp_file of
           Inl e \<Rightarrow> (Some e, w)
         | Inr f1 \<Rightarrow>
             (case json_dumps L (tracking_data t) of
                None \<Rightarrow> (Some TypeError, w\<lparr>fs := f1\<rparr>)
              | Some text \<Rightarrow>
                  (let f2 = write_content (now C) f1 temp_file text
                   in case os_rename f2 temp_file (tracking_file t) of
                        Inl e \<Rightarrow> (Some e, w\<lparr>fs := f2\<rparr>)
                      | Inr f3 \<Rightarrow> (None, logmsg DEBUG (w\<lparr>fs := f3\<rparr>)))))"

text \<open>
  \<^verbatim>\<open>save_tracking_data\<close>: the first component is the exception that reaches the
  caller, if any.
\<close>

definition save_tracking_data :: "lib \<Rightarrow> clock \<Rightarrow> tracker \<Rightarrow> world \<Rightarrow> exn option \<times> tracker \<times> world" where
  "save_tracking_data L C t w =
     (let t1 = t\<lparr>tracking_data := (tracking_data t)\<lparr>last_updated := now_isoformat C\<rparr>\<rparr>;
          w1 = create_backup C t1 w
      in case write_and_replace L C t1 w1 of
           (None, w2) \<Rightarrow> (None, t1, w2)
         | (Some e, w2) \<Rightarrow>
             (let w3 = logmsg ERROR w2
              in if os_path_exists (fs w3) (tracking_file t1 @ ''.tmp'') then
                   (case os_remove (fs w3) (tracking_file t1 @ ''.tmp'') of
                      Inl e' \<Rightarrow> (Some e', t1, w3)
                    | Inr f4 \<Rightarrow> (Some e, t1, w3\<lparr>fs := f4\<rparr>))
                 else (Some e, t1, w3)))"

subsection \<open>Loading\<close>

definition create_empty_tracking_data :: "clock \<Rightarrow> tracking_data" where
  "create_empty_tracking_data C =
     \<lparr>version = ''1.0'', created = Some (now_isoformat C), last_updated = now_isoformat C,
      downloads = [],
      statistics = \<lparr>total_downloads = 0, total_size_mb = 0, last_cleanup = None,
                    last_compression = None\<rparr>\<rparr>"

text \<open>The record \<^verbatim>\<open>_validate_and_migrate_data\<close> builds for an id of the legacy list.\<close>

definition migrated_record :: "clock \<Rightarrow> path \<Rightarrow> string \<Rightarrow> download_record" where
  "migrated_record C dd eid =
     \<lparr>edicto_id = eid, filename = eid @ ''.pdf'', download_date = now_isoformat C, file_size = 0,
      file_path = join dd (eid @ ''.pdf''), checksum = None, compressed = False\<rparr>"

definition len_downloads :: "downloads_repr \<Rightarrow> int" where
  "len_downloads d = (case d of AsDict m \<Rightarrow> int (length m) | AsList ids \<Rightarrow> int (length ids))"

definition validate_and_migrate_data :: "clock \<Rightarrow> path \<Rightarrow> json_doc \<Rightarrow> tracking_data" where
  "validate_and_migrate_data C dd doc =
     (let v = (case doc_version doc of None \<Rightarrow> ''1.0'' | Some x \<Rightarrow> x);
          d = (case doc_downloads doc of None \<Rightarrow> AsDict [] | Some x \<Rightarrow> x);
          st = (case doc_statistics doc of
                  None \<Rightarrow> \<lparr>total_downloads = len_downloads d, total_size_mb = 0,
                            last_cleanup = None, last_compression = None\<rparr>
                | Some x \<Rightarrow> x);
          m = (case d of
                 AsDict m \<Rightarrow> m
               | AsList old_downloads \<Rightarrow>
                   fold (\<lambda>eid acc. AList.update eid (migrated_record C dd eid) acc) old_downloads [])
      in \<lparr>version = v, created = doc_created doc, last_updated = now_isoformat C,
          downloads = m, statistics = st\<rparr>)"

text \<open>The \<^verbatim>\<open>try\<close> block of \<^verbatim>\<open>load_tracking_data\<close>.\<close>

definition read_and_parse :: "lib \<Rightarrow> clock \<Rightarrow> path \<Rightarrow> path \<Rightarrow> world \<Rightarrow> exn + tracking_data" where
  "read_and_parse L C tf dd w =
     (case read_file (fs w) tf of
        Inl e \<Rightarrow> Inl e
      | Inr text \<Rightarrow>
          (case json_loads L text of
             None \<Rightarrow> Inl JSONDecodeError
           | Some doc \<Rightarrow> Inr (validate_and_migrate_data C dd doc)))"

text \<open>
  \<^verbatim>\<open>load_tracking_data\<close> reads \<^verbatim>\<open>self.tracking_file\<close>, \<^verbatim>\<open>self.download_dir\<close> and
  \<^verbatim>\<open>self.backup_dir\<close>; the constructor calls it before the object holds tracking
  data, so the three paths are its arguments here.
\<close>

definition load_tracking_data ::
  "lib \<Rightarrow> clock \<Rightarrow> path \<Rightarrow> path \<Rightarrow> path \<Rightarrow> world \<Rightarrow> (exn + tracking_data) \<times> world" where
  "load_tracking_data L C tf dd bd w =
     (if \<not> os_path_exists (fs w) tf then (Inr (create_empty_tracking_data C), logmsg INFO w)
      else
        (case read_and_parse L C tf dd w of
           Inr data \<Rightarrow> (Inr data, logmsg INFO w)
         | Inl e \<Rightarrow>
             (if e = JSONDecodeError \<or> e = FileNotFoundError then
                (let w1 = logmsg ERROR w
                 in if os_path_exists (fs w1) tf then
                      (let backup_name = ''corrupted_tracking_'' @ now_strftime C @ ''.json'';
                           backup_path = join bd backup_name
                       in case shutil_copy2 (fs w1) tf backup_path of
                            Inl e' \<Rightarrow> (Inl e', w1)
                          | Inr f1 \<Rightarrow>
                              (Inr (create_empty_tracking_data C),
                               logmsg WARNING (w1\<lparr>fs := f1\<rparr>)))
                    else (Inr (create_empty_tracking_data C), w1))
              else (Inl e, w))))"

subsection \<open>Construction\<close>

text \<open>\<^verbatim>\<open>_ensure_directories\<close>: an exception leaves the directories created so far.\<close>

fun ensure_directories :: "int \<Rightarrow> path list \<Rightarrow> filesystem \<Rightarrow> exn option \<times> filesystem" where
  "ensure_directories tm [] f = (None, f)"
| "ensure_directories tm (d # ds) f =
     (if d \<noteq> [] then
        (case mkdir_parents tm f d of
           Inl e \<Rightarrow> (Some e, f)
         | Inr f1 \<Rightarrow> ensure_directories tm ds f1)
      else ensure_directories tm ds f)"

text \<open>\<^verbatim>\<open>BOPMalagaTracker.__init__\<close>: load first, then create the directories.\<close>

definition init :: "lib \<Rightarrow> clock \<Rightarrow> path \<Rightarrow> path \<Rightarrow> world \<Rightarrow> (exn + tracker) \<times> world" where
  "init L C tf dd w =
     (let bd = join (dirname tf) ''backups''
      in case load_tracking_data L C tf dd bd w of
           (Inl e, w1) \<Rightarrow> (Inl e, w1)
         | (Inr data, w1) \<Rightarrow>
             (case ensure_directories (now C) [dd, bd, dirname tf] (fs w1) of
                (Some e, f1) \<Rightarrow> (Inl e, w1\<lparr>fs := f1\<rparr>)
              | (None, f1) \<Rightarrow>
                  (Inr \<lparr>tracking_file = tf, download_dir = dd, backup_dir = bd,
                        tracking_data = data\<rparr>,
                   w1\<lparr>fs := f1\<rparr>)))"

section \<open>Reference implementations for concrete runs\<close>

text \<open>
  The theorems below hold for every library. Concrete runs need one: a parser for
  the timestamp formats \<^verbatim>\<open>YYYY-MM-DDTHH:MM:SS\<close> and \<^verbatim>\<open>YYYY-MM-DDTHH:MM:SS+HH:MM\<close>
  (naive and aware, as \<^verbatim>\<open>datetime.fromisoformat\<close> reads them), and stand-ins for
  the digest and the gzip encoder.
\<close>

definition digits :: "string \<Rightarrow> int option" where
  "digits s =
     (if s \<noteq> [] \<and> list_all (\<lambda>c. c \<in> set ''0123456789'') s
      then Some (foldl (\<lambda>n c. 10 * n + (int (of_char c) - 48)) 0 s) else None)"

definition days_in_month :: "int \<Rightarrow> int \<Rightarrow> int" where
  "days_in_month y m =
     (if m = 2 then (if y mod 4 = 0 \<and> (y mod 100 \<noteq> 0 \<or> y mod 400 = 0) then 29 else 28)
      else if m \<in> {4, 6, 9, 11} then 30 else 31)"

text \<open>Days since 1970-01-01 of a date of the proleptic Gregorian calendar.\<close>

definition days_from_civil :: "int \<Rightarrow> int \<Rightarrow> int \<Rightarrow> int" where
  "days_from_civil y m d =
     (let y1 = (if m \<le> 2 then y - 1 else y);
          era = y1 div 400;
          yoe = y1 mod 400;
          doy = (153 * (if m > 2 then m - 3 else m + 9) + 2) div 5 + d - 1;
          doe = yoe * 365 + yoe div 4 - yoe div 100 + doy
      in era * 146097 + doe - 719468)"

text \<open>The UTC offset after the seconds: absent, or \<^verbatim>\<open>+HH:MM\<close> / \<^verbatim>\<open>-HH:MM\<close> in microseconds.\<close>

definition iso_offset :: "string \<Rightarrow> int option option" where
  "iso_offset s =
     (if s = [] then Some None
      else if length s = 6 \<and> (s ! 0 = CHR ''+'' \<or> s ! 0 = CHR ''-'') \<and> s ! 3 = CHR '':'' then
        (case (digits (take 2 (drop 1 s)), digits (drop 4 s)) of
           (Some h, Some m) \<Rightarrow>
             (if h < 24 \<and> m < 60
              then Some (Some ((if s ! 0 = CHR ''-'' then -1 else 1) * (h * 60 + m) * 60000000))
              else None)
         | _ \<Rightarrow> None)
      else None)"

definition iso_parse :: "string \<Rightarrow> datetime option" where
  "iso_parse s =
     (if length s \<ge> 19 \<and> s ! 4 = CHR ''-'' \<and> s ! 7 = CHR ''-'' \<and> s ! 13 = CHR '':''
         \<and> s ! 16 = CHR '':'' then
        (case (digits (take 4 s), digits (take 2 (drop 5 s)), digits (take 2 (drop 8 s)),
               digits (take 2 (drop 11 s)), digits (take 2 (drop 14 s)),
               digits (take 2 (drop 17 s)), iso_offset (drop 19 s)) of
           (Some y, Some mo, Some d, Some h, Some mi, Some sec, Some offs) \<Rightarrow>
             (if 1 \<le> y \<and> 1 \<le> mo \<and> mo \<le> 12 \<and> 1 \<le> d \<and> d \<le> days_in_month y mo
                 \<and> h < 24 \<and> mi < 60 \<and> sec < 60 then
                (let local = (((days_from_civil y mo d * 24 + h) * 60 + mi) * 60 + sec) * 1000000
                 in case offs of
                      None \<Rightarrow> Some (Naive local)
                    | Some u \<Rightarrow> Some (Aware (local - u)))
              else None)
         | _ \<Rightarrow> None)
      else None)"

definition ref_lib :: lib where
  "ref_lib =
     \<lparr>fromisoformat = iso_parse,
      sha256_hexdigest = (\<lambda>c. ''sha256:'' @ c),
      gzip_compress = (\<lambda>c. ''gz:'' @ c),
      json_dumps = (\<lambda>d. None),
      json_loads = (\<lambda>s. None)\<rparr>"

text \<open>The clock at 2025-01-01 00:00:00.\<close>

definition ref_clock :: clock where
  "ref_clock =
     \<lparr>now = 1735689600000000, now_isoformat = ''2025-01-01T00:00:00'',
      now_strftime = ''20250101_000000''\<rparr>"

definition mk_record :: "string \<Rightarrow> string \<Rightarrow> int \<Rightarrow> path \<Rightarrow> string option \<Rightarrow> bool \<Rightarrow> download_record" where
  "mk_record eid date sz p c z =
     \<lparr>edicto_id = eid, filename = eid @ ''.pdf'', download_date = date, file_size = sz,
      file_path = p, checksum = c, compressed = z\<rparr>"

definition mk_tracker :: "(string \<times> download_record) list \<Rightarrow> tracker" where
  "mk_tracker ds =
     \<lparr>tracking_file = ''data/tracking.json'', download_dir = ''dl'',
      backup_dir = ''data/backups'',
      tracking_data =
        \<lparr>version = ''1.0'', created = Some ''2024-01-01T00:00:00'',
         last_updated = ''2024-01-01T00:00:00'', downloads = ds,
         statistics = \<lparr>total_downloads = int (length ds), total_size_mb = 0,
                       last_cleanup = None, last_compression = None\<rparr>\<rparr>\<rparr>"

text \<open>
  A store for the verifier: \<^verbatim>\<open>m\<close> has no file, the file of \<^verbatim>\<open>c\<close> has changed,
  \<^verbatim>\<open>g\<close> is compressed under a \<^verbatim>\<open>.gz\<close> path.
\<close>

definition verify_example :: "(string \<times> download_record) list" where
  "verify_example =
     [(''m'', mk_record ''m'' ''2024-06-01T00:00:00'' 4 ''dl/m.pdf'' (Some ''sha256:data'') False),
      (''c'', mk_record ''c'' ''2024-06-01T00:00:00'' 3 ''dl/c.pdf'' (Some ''sha256:old'') False),
      (''g'', mk_record ''g'' ''2024-06-01T00:00:00'' 7 ''dl/g.pdf.gz'' (Some ''sha256:orig'') True)]"

definition verify_world :: world where
  "verify_world =
     \<lparr>fs = [(''dl'', Dir 0), (''dl/c.pdf'', File ''new'' 0), (''dl/g.pdf.gz'', File ''gz:orig'' 0)],
      log = []\<rparr>"

text \<open>
  A store for the age policy at the reference clock: \<^verbatim>\<open>A\<close> is 61 days old and its
  file holds 7 bytes where 5 are recorded, \<^verbatim>\<open>B\<close> is 12 days old.
\<close>

definition age_example :: "(string \<times> download_record) list" where
  "age_example =
     [(''A'', mk_record ''A'' ''2024-11-01T00:00:00'' 5 ''dl/A.pdf'' None False),
      (''B'', mk_record ''B'' ''2024-12-20T00:00:00'' 3 ''dl/B.pdf'' None False)]"

definition age_world :: world where
  "age_world =
     \<lparr>fs = [(''dl'', Dir 0), (''dl/A.pdf'', File ''AAAAAAA'' 0), (''dl/B.pdf'', File ''BBB'' 0)],
      log = []\<rparr>"

text \<open>
  A store for the capacity policy: 6, 3 and 2 bytes, recorded as they are on disk,
  aged 61, 12 and 2 days at the reference clock.
\<close>

definition capacity_example :: "(string \<times> download_record) list" where
  "capacity_example =
     [(''B'', mk_record ''B'' ''2024-12-20T00:00:00'' 3 ''dl/B.pdf'' None False),
      (''A'', mk_record ''A'' ''2024-11-01T00:00:00'' 6 ''dl/A.pdf'' None False),
      (''C'', mk_record ''C'' ''2024-12-30T00:00:00'' 2 ''dl/C.pdf'' None False)]"

definition capacity_world :: world where
  "capacity_world =
     \<lparr>fs = [(''dl'', Dir 0), (''dl/A.pdf'', File ''AAAAAA'' 0), (''dl/B.pdf'', File ''BBB'' 0),
            (''dl/C.pdf'', File ''CC'' 0)],
      log = []\<rparr>"

text \<open>
  A store for the compression pass with a cutoff of 7 days: \<^verbatim>\<open>A\<close> and \<^verbatim>\<open>B\<close> are
  older, \<^verbatim>\<open>C\<close> is 2 days old.
\<close>

definition compress_example :: "(string \<times> download_record) list" where
  "compress_example =
     [(''A'', mk_record ''A'' ''2024-11-01T00:00:00'' 6 ''dl/A.pdf'' (Some ''sha256:AAAAAA'') False),
      (''C'', mk_record ''C'' ''2024-12-30T00:00:00'' 2 ''dl/C.pdf'' None False),
      (''B'', mk_record ''B'' ''2024-12-20T00:00:00'' 3 ''dl/B.pdf'' None False)]"

text \<open>
  A store in which one path is a directory: \<^verbatim>\<open>P\<close>, \<^verbatim>\<open>A\<close> and \<^verbatim>\<open>B\<close> are 92, 61 and
  60 days old at the reference clock, and the path of \<^verbatim>\<open>A\<close> is a directory, so that
  reading or removing it fails.
\<close>

definition failure_example :: "(string \<times> download_record) list" where
  "failure_example =
     [(''P'', mk_record ''P'' ''2024-10-01T00:00:00'' 4 ''dl/P.pdf'' None False),
      (''A'', mk_record ''A'' ''2024-11-01T00:00:00'' 5 ''dl/A'' (Some ''sha256:AAAAA'') False),
      (''B'', mk_record ''B'' ''2024-11-02T00:00:00'' 3 ''dl/B.pdf'' None False)]"

definition failure_world :: world where
  "failure_world =
     \<lparr>fs = [(''dl'', Dir 0), (''dl/P.pdf'', File ''PPPP'' 0), (''dl/A'', Dir 0),
            (''dl/B.pdf'', File ''BBB'' 0)],
      log = []\<rparr>"

section \<open>Predicates used in the statements\<close>

text \<open>
  A record is checked for a checksum mismatch when its file exists, its checksum is
  neither \<^verbatim>\<open>None\<close> nor empty, and it is not a compressed record stored under a
  path ending in \<^verbatim>\<open>.gz\<close>.
\<close>

definition checked :: "world \<Rightarrow> download_record \<Rightarrow> bool" where
  "checked w r =
     (os_path_exists (fs w) (file_path r) \<and> truthy (checksum r)
      \<and> \<not> (compressed r \<and> endswith (file_path r) ''.gz''))"

definition mismatch :: "lib \<Rightarrow> world \<Rightarrow> download_record \<Rightarrow> bool" where
  "mismatch L w r = (Some (fst (calculate_checksum L (file_path r) w)) \<noteq> checksum r)"

text \<open>A path that is a directory, and the on-disk size of a regular file.\<close>

definition is_dir :: "filesystem \<Rightarrow> path \<Rightarrow> bool" where
  "is_dir f p = (case map_of f p of Some (Dir m) \<Rightarrow> True | _ \<Rightarrow> False)"

definition disk_size :: "filesystem \<Rightarrow> path \<Rightarrow> nat" where
  "disk_size f p = (case map_of f p of Some (File c m) \<Rightarrow> length c | _ \<Rightarrow> 0)"

text \<open>The download date of a record when it parses to a naive datetime.\<close>

definition naive_date :: "lib \<Rightarrow> download_record \<Rightarrow> int option" where
  "naive_date L r =
     (case parse_date L (download_date r) of Inr (Naive a) \<Rightarrow> Some a | _ \<Rightarrow> None)"

text \<open>A record whose naive download date is earlier than the cutoff.\<close>

definition due :: "lib \<Rightarrow> int \<Rightarrow> download_record \<Rightarrow> bool" where
  "due L cutoff r = (case naive_date L r of Some a \<Rightarrow> a < cutoff | None \<Rightarrow> False)"

text \<open>The on-disk size in MB of the files at a set of paths.\<close>

definition freed_mb :: "filesystem \<Rightarrow> path list \<Rightarrow> rat" where
  "freed_mb f ps = (\<Sum>p\<in>set ps. of_nat (disk_size f p)) / 1048576"






text \<open>
  A record is eligible for compression when it is not compressed, its file exists
  and its naive download date is earlier than the cutoff.
\<close>

definition eligible :: "lib \<Rightarrow> int \<Rightarrow> filesystem \<Rightarrow> download_record \<Rightarrow> bool" where
  "eligible L cutoff f r =
     (\<not> compressed r \<and> os_path_exists f (file_path r) \<and> due L cutoff r)"

definition is_file :: "filesystem \<Rightarrow> path \<Rightarrow> bool" where
  "is_file f p = (case map_of f p of Some (File c m) \<Rightarrow> True | _ \<Rightarrow> False)"

definition file_content :: "filesystem \<Rightarrow> path \<Rightarrow> string" where
  "file_content f p = (case map_of f p of Some (File c m) \<Rightarrow> c | _ \<Rightarrow> [])"

text \<open>A path that can be opened for writing: not a directory, in an existing directory.\<close>

definition can_create :: "filesystem \<Rightarrow> path \<Rightarrow> bool" where
  "can_create f p = (\<not> is_dir f p \<and> (dirname p = [] \<or> is_dir f (dirname p)))"

text \<open>The record of a compressed file: new path, flag set, size of the gzip output.\<close>

definition compressed_record :: "lib \<Rightarrow> filesystem \<Rightarrow> download_record \<Rightarrow> download_record" where
  "compressed_record L f r =
     r\<lparr>file_path := file_path r @ ''.gz'', compressed := True,
       file_size := int (length (gzip_compress L (file_content f (file_path r))))\<rparr>"

text \<open>
  The dictionary \<^verbatim>\<open>json.load\<close> yields for the text \<^verbatim>\<open>json.dump\<close> wrote from a store
  that is JSON-serialisable: every key is present and the downloads are a dictionary.
\<close>

definition doc_of :: "tracking_data \<Rightarrow> json_doc" where
  "doc_of d =
     \<lparr>doc_version = Some (version d), doc_created = created d,
      doc_last_updated = Some (last_updated d), doc_downloads = Some (AsDict (downloads d)),
      doc_statistics = Some (statistics d)\<rparr>"

text \<open>A JSON library that loads what it dumped.\<close>

definition json_round_trip :: "lib \<Rightarrow> tracking_data \<Rightarrow> bool" where
  "json_round_trip L d =
     (case json_dumps L d of None \<Rightarrow> False | Some text \<Rightarrow> json_loads L text = Some (doc_of d))"

text \<open>
  The reference library with a JSON codec that knows one store \<open>d\<close> and its text \<open>s\<close>.
\<close>

definition table_lib :: "tracking_data \<Rightarrow> string \<Rightarrow> lib" where
  "table_lib d s =
     ref_lib\<lparr>json_dumps := (\<lambda>x. if x = d then Some s else None),
             json_loads := (\<lambda>y. if y = s then Some (doc_of d) else None)\<rparr>"

text \<open>The constructor's choice of the backups directory.\<close>

definition backups_beside :: "tracker \<Rightarrow> bool" where
  "backups_beside t = (backup_dir t = join (dirname (tracking_file t)) ''backups'')"

text \<open>The store as \<^verbatim>\<open>save_tracking_data\<close> stamps it before it writes.\<close>

definition stamped :: "clock \<Rightarrow> tracker \<Rightarrow> tracker" where
  "stamped C t = t\<lparr>tracking_data := (tracking_data t)\<lparr>last_updated := now_isoformat C\<rparr>\<rparr>"

section \<open>Integrity verifier: classification and frame\<close>

lemma fs_logmsg: "fs (logmsg l w) = fs w"
  by (simp add: logmsg_def)

lemma calculate_checksum_fs: "fs (snd (calculate_checksum L p w)) = fs w"
  by (simp add: calculate_checksum_def fs_logmsg split: sum.splits)

lemma calculate_checksum_value:
  "fs w1 = fs w2 \<Longrightarrow> fst (calculate_checksum L p w1) = fst (calculate_checksum L p w2)"
  by (simp add: calculate_checksum_def split: sum.splits)

lemma mismatch_cong: "fs w1 = fs w2 \<Longrightarrow> mismatch L w1 r = mismatch L w2 r"
  using calculate_checksum_value [of w1 w2 L "file_path r"] by (simp add: mismatch_def)

lemma checked_cong: "fs w1 = fs w2 \<Longrightarrow> checked w1 r = checked w2 r"
  by (simp add: checked_def)

lemma verify_loop_fs: "fs (snd (verify_loop L ds ms cs w)) = fs w"
proof (induction ds arbitrary: ms cs w)
  case Nil
  then show ?case by simp
next
  case (Cons x ds)
  obtain eid r where x: "x = (eid, r)" by (cases x)
  obtain c w1 where cc: "calculate_checksum L (file_path r) w = (c, w1)"
    by (cases "calculate_checksum L (file_path r) w")
  have "fs w1 = fs w" using calculate_checksum_fs [of L "file_path r" w] cc by simp
  then show ?case using Cons.IH x cc by (simp add: fs_logmsg)
qed

text \<open>The two lists the loop builds, in the order of the dictionary.\<close>

lemma verify_loop_lists:
  "fst (verify_loop L ds ms cs w) =
     (ms @ map fst (filter (\<lambda>x. \<not> os_path_exists (fs w) (file_path (snd x))) ds),
      cs @ map fst (filter (\<lambda>x. checked w (snd x) \<and> mismatch L w (snd x)) ds))"
proof (induction ds arbitrary: ms cs w)
  case Nil
  then show ?case by simp
next
  case (Cons x ds)
  obtain eid r where x: "x = (eid, r)" by (cases x)
  obtain c w1 where cc: "calculate_checksum L (file_path r) w = (c, w1)"
    by (cases "calculate_checksum L (file_path r) w")
  have w1: "fs w1 = fs w" using calculate_checksum_fs [of L "file_path r" w] cc by simp
  have k1: "\<And>l y. mismatch L (logmsg l w) y = mismatch L w y"
    by (rule mismatch_cong) (simp add: fs_logmsg)
  have k2: "\<And>y. mismatch L w1 y = mismatch L w y"
    by (rule mismatch_cong) (simp add: w1)
  have k3: "\<And>l y. mismatch L (logmsg l w1) y = mismatch L w y"
    by (rule mismatch_cong) (simp add: fs_logmsg w1)
  have c1: "\<And>l y. checked (logmsg l w) y = checked w y"
    by (rule checked_cong) (simp add: fs_logmsg)
  have c2: "\<And>y. checked w1 y = checked w y"
    by (rule checked_cong) (simp add: w1)
  have c3: "\<And>l y. checked (logmsg l w1) y = checked w y"
    by (rule checked_cong) (simp add: fs_logmsg w1)
  show ?case
    using x cc w1
    by (simp add: Cons.IH fs_logmsg k1 k2 k3 c1 c2 c3 mismatch_def [of L w r] checked_def [of w r])
qed

lemma verify_files_lists:
  "fst (verify_files L t w) =
     (map fst (filter (\<lambda>x. \<not> os_path_exists (fs w) (file_path (snd x)))
                 (downloads (tracking_data t))),
      map fst (filter (\<lambda>x. checked w (snd x) \<and> mismatch L w (snd x))
                 (downloads (tracking_data t))))"
proof -
  obtain ms cs w1 where l: "verify_loop L (downloads (tracking_data t)) [] [] w = ((ms, cs), w1)"
    by (metis surj_pair)
  show ?thesis
    using verify_loop_lists [of L "downloads (tracking_data t)" "[]" "[]" w] l
    by (simp add: verify_files_def Let_def)
qed

lemma distinct_fst_member:
  "distinct (map fst ds) \<Longrightarrow> (k, v) \<in> set ds \<Longrightarrow>
   k \<in> fst ` {x \<in> set ds. P x} \<longleftrightarrow> P (k, v)"
  by (force simp: distinct_map inj_on_def)

text \<open>
  C6, as amended. In a dictionary (distinct ids), for every record: the id is in the
  missing list exactly when the file does not exist, and then it is not in the
  corrupted list; when the file exists, the checksum is non-empty and the record is
  not a compressed record stored under a path ending in \<^verbatim>\<open>.gz\<close>, the id is in
  the corrupted list exactly when the recomputed checksum differs from the recorded
  one; a compressed record whose path ends in \<^verbatim>\<open>.gz\<close> is never in the corrupted
  list.
\<close>

theorem verify_files_classification:
  assumes "distinct (map fst (downloads (tracking_data t)))"
    and "(eid, r) \<in> set (downloads (tracking_data t))"
    and "verify_files L t w = ((missing_files, corrupted_files), t', w')"
  shows "(eid \<in> set missing_files \<longleftrightarrow> \<not> os_path_exists (fs w) (file_path r))
       \<and> (\<not> os_path_exists (fs w) (file_path r) \<longrightarrow> eid \<notin> set corrupted_files)
       \<and> (os_path_exists (fs w) (file_path r) \<and> truthy (checksum r)
            \<and> \<not> (compressed r \<and> endswith (file_path r) ''.gz'')
          \<longrightarrow> (eid \<in> set corrupted_files
                \<longleftrightarrow> Some (fst (calculate_checksum L (file_path r) w)) \<noteq> checksum r))
       \<and> (compressed r \<and> endswith (file_path r) ''.gz'' \<longrightarrow> eid \<notin> set corrupted_files)"
proof -
  let ?ds = "downloads (tracking_data t)"
  have m: "missing_files = map fst (filter (\<lambda>x. \<not> os_path_exists (fs w) (file_path (snd x))) ?ds)"
    and c: "corrupted_files = map fst (filter (\<lambda>x. checked w (snd x) \<and> mismatch L w (snd x)) ?ds)"
    using verify_files_lists [of L t w] assms(3) by simp_all
  have "eid \<in> set missing_files \<longleftrightarrow> \<not> os_path_exists (fs w) (file_path r)"
    using distinct_fst_member [OF assms(1,2), of "\<lambda>x. \<not> os_path_exists (fs w) (file_path (snd x))"]
    by (simp add: m)
  moreover have "eid \<in> set corrupted_files \<longleftrightarrow> checked w r \<and> mismatch L w r"
    using distinct_fst_member [OF assms(1,2), of "\<lambda>x. checked w (snd x) \<and> mismatch L w (snd x)"]
    by (simp add: c)
  ultimately show ?thesis
    by (simp add: checked_def mismatch_def)
qed

theorem verify_files_classification_witness:
  "distinct (map fst (downloads (tracking_data (mk_tracker verify_example))))
   \<and> verify_files ref_lib (mk_tracker verify_example) verify_world
       = (([''m''], [''c'']), mk_tracker verify_example,
          verify_world\<lparr>log := [WARNING, WARNING, WARNING]\<rparr>)
   \<and> \<not> os_path_exists (fs verify_world) ''dl/m.pdf''
   \<and> os_path_exists (fs verify_world) ''dl/c.pdf''
   \<and> Some (fst (calculate_checksum ref_lib ''dl/c.pdf'' verify_world)) \<noteq> Some ''sha256:old''
   \<and> os_path_exists (fs verify_world) ''dl/g.pdf.gz''"
proof -
  have d: "distinct (map fst (downloads (tracking_data (mk_tracker verify_example))))"
    by (simp add: mk_tracker_def verify_example_def)
  have v: "verify_files ref_lib (mk_tracker verify_example) verify_world
       = (([''m''], [''c'']), mk_tracker verify_example,
          verify_world\<lparr>log := [WARNING, WARNING, WARNING]\<rparr>)"
    by (simp add: verify_files_def mk_tracker_def verify_example_def verify_world_def
        mk_record_def os_path_exists_def truthy_def endswith_def calculate_checksum_def
        read_file_def ref_lib_def logmsg_def)
  have c: "(''c'', mk_record ''c'' ''2024-06-01T00:00:00'' 3 ''dl/c.pdf'' (Some ''sha256:old'') False)
           \<in> set (downloads (tracking_data (mk_tracker verify_example)))"
    by (simp add: mk_tracker_def verify_example_def)
  show ?thesis
    using d v verify_files_classification [OF d c v]
    by (simp add: mk_record_def verify_world_def os_path_exists_def truthy_def endswith_def)
qed

text \<open>
  C6 as stated fails: a compressed record with a checksum whose path does not end in
  \<^verbatim>\<open>.gz\<close> is checked, and reported as corrupted on a mismatch.
\<close>

theorem verify_files_compressed_counterexample:
  "fst (verify_files ref_lib
          (mk_tracker [(''z'', mk_record ''z'' ''2024-06-01T00:00:00'' 7 ''dl/z.bin''
                                (Some ''sha256:orig'') True)])
          \<lparr>fs = [(''dl'', Dir 0), (''dl/z.bin'', File ''gz:orig'' 0)], log = []\<rparr>)
   = ([], [''z''])"
  by (simp add: verify_files_def mk_tracker_def mk_record_def os_path_exists_def truthy_def
      endswith_def calculate_checksum_def read_file_def ref_lib_def logmsg_def)

text \<open>
  C10. \<^verbatim>\<open>verify_files\<close> returns the tracker it was given and leaves the filesystem
  as it was; only the log grows.
\<close>

theorem verify_files_read_only:
  "fst (snd (verify_files L t w)) = t \<and> fs (snd (snd (verify_files L t w))) = fs w"
proof -
  obtain res w1 where l: "verify_loop L (downloads (tracking_data t)) [] [] w = (res, w1)"
    by (cases "verify_loop L (downloads (tracking_data t)) [] [] w")
  have "fs w1 = fs w"
    using verify_loop_fs [of L "downloads (tracking_data t)" "[]" "[]" w] l by simp
  then show ?thesis
    using l by (simp add: verify_files_def Let_def fs_logmsg split: prod.splits)
qed

theorem verify_files_read_only_witness:
  "fst (snd (verify_files ref_lib (mk_tracker verify_example) verify_world))
     = mk_tracker verify_example
   \<and> fs (snd (snd (verify_files ref_lib (mk_tracker verify_example) verify_world)))
     = [(''dl'', Dir 0), (''dl/c.pdf'', File ''new'' 0), (''dl/g.pdf.gz'', File ''gz:orig'' 0)]
   \<and> fst (fst (verify_files ref_lib (mk_tracker verify_example) verify_world)) = [''m'']"
proof -
  have "fst (fst (verify_files ref_lib (mk_tracker verify_example) verify_world)) = [''m'']"
    by (simp add: verify_files_def mk_tracker_def verify_example_def verify_world_def
        mk_record_def os_path_exists_def truthy_def endswith_def calculate_checksum_def
        read_file_def ref_lib_def logmsg_def)
  then show ?thesis
    using verify_files_read_only [of ref_lib "mk_tracker verify_example" verify_world]
    by (simp add: verify_world_def)
qed

section \<open>Loading a corrupt tracking file\<close>

lemma path_evals:
  "dirname ''data/tracking.json'' = ''data''"
  "join ''data'' ''backups'' = ''data/backups''"
  "join ''data/backups'' ''corrupted_tracking_20250101_000000.json''
     = ''data/backups/corrupted_tracking_20250101_000000.json''"
  "dirname ''data/backups/corrupted_tracking_20250101_000000.json'' = ''data/backups''"
  by (simp_all add: dirname_def join_def rstrip_slash_def startswith_def endswith_def)

text \<open>
  C2 at a first run: the tracking file exists and does not parse, and the backups
  directory does not exist yet, because the constructor loads before it creates the
  directories. The copy into the missing directory raises inside the handler, and
  the constructor raises \<^verbatim>\<open>FileNotFoundError\<close>: no store is returned and no backup
  is written.
\<close>

theorem init_corrupt_first_run:
  "init ref_lib ref_clock ''data/tracking.json'' ''dl''
          \<lparr>fs = [(''data'', Dir 0), (''data/tracking.json'', File ''{not json'' 0)], log = []\<rparr>
   = (Inl FileNotFoundError,
      \<lparr>fs = [(''data'', Dir 0), (''data/tracking.json'', File ''{not json'' 0)], log = [ERROR]\<rparr>)"
  by (simp add: init_def load_tracking_data_def read_and_parse_def read_file_def
      os_path_exists_def shutil_copy2_def open_w_def ref_lib_def ref_clock_def logmsg_def
      path_evals)

text \<open>
  The same file once the backups directory exists: the empty store, and one backup
  of the corrupt file.
\<close>

lemma init_corrupt_later_run:
  "init ref_lib ref_clock ''data/tracking.json'' ''dl''
          \<lparr>fs = [(''data'', Dir 0), (''data/backups'', Dir 0),
                 (''data/tracking.json'', File ''{not json'' 0)], log = []\<rparr>
   = (Inr \<lparr>tracking_file = ''data/tracking.json'', download_dir = ''dl'',
            backup_dir = ''data/backups'',
            tracking_data = create_empty_tracking_data ref_clock\<rparr>,
      \<lparr>fs = [(''data'', Dir 0), (''data/backups'', Dir 0),
             (''data/tracking.json'', File ''{not json'' 0),
             (''data/backups/corrupted_tracking_20250101_000000.json'', File ''{not json'' 0),
             (''dl'', Dir 1735689600000000)],
        log = [ERROR, WARNING]\<rparr>)"
  by (simp add: init_def load_tracking_data_def read_and_parse_def read_file_def
      os_path_exists_def shutil_copy2_def open_w_def write_content_def ref_lib_def
      ref_clock_def logmsg_def path_evals dirname_def [of "''dl''"] Let_def)

section \<open>Retention: the age policy\<close>

lemma map_of_delete: "map_of (AList.delete p f) q = (if q = p then None else map_of f q)"
  by (simp add: delete_conv')

lemma delete_as_filter: "AList.delete k xs = filter (\<lambda>y. fst y \<noteq> k) xs"
  by (induction xs) auto

lemma is_dir_delete: "is_dir (AList.delete p f) q \<Longrightarrow> is_dir f q"
  by (simp add: is_dir_def map_of_delete split: if_splits)

lemma disk_size_delete: "disk_size (AList.delete p f) q = (if q = p then 0 else disk_size f q)"
  by (simp add: disk_size_def map_of_delete)

lemma freed_mb_Cons:
  "freed_mb f (p # ps) = of_nat (disk_size f p) / 1048576 + freed_mb (AList.delete p f) ps"
proof -
  have "(\<Sum>q\<in>set (p # ps). (of_nat (disk_size f q) :: rat))
        = of_nat (disk_size f p) + (\<Sum>q\<in>set ps - {p}. of_nat (disk_size f q))"
    by (simp add: sum.insert_remove)
  moreover have "(\<Sum>q\<in>set ps. (of_nat (disk_size (AList.delete p f) q) :: rat))
        = (\<Sum>q\<in>set ps - {p}. of_nat (disk_size f q))"
    by (rule sum.mono_neutral_cong_right) (auto simp: disk_size_delete)
  ultimately show ?thesis
    by (simp add: freed_mb_def add_divide_distrib)
qed

lemma collect_old_naive:
  "\<forall>x\<in>set ds. naive_date L (snd x) \<noteq> None \<Longrightarrow>
   collect_old L (Naive c) ds acc = Inr (acc @ filter (\<lambda>x. due L c (snd x)) ds)"
proof (induction ds arbitrary: acc)
  case Nil
  then show ?case by simp
next
  case (Cons x ds)
  obtain eid r where x: "x = (eid, r)" by (cases x)
  from Cons.prems x obtain a where a: "parse_date L (download_date r) = Inr (Naive a)"
    by (auto simp: naive_date_def split: sum.splits datetime.splits)
  have "due L c r = (a < c)" using a by (simp add: due_def naive_date_def)
  then show ?case using Cons x a by simp
qed

lemma delete_absent: "map_of f p = None \<Longrightarrow> AList.delete p f = f"
  by (induction f) (auto split: if_splits)

lemma remove_tracked_file_ok:
  "\<not> is_dir (fs w) p \<Longrightarrow>
   \<exists>w'. remove_tracked_file p w = Inr (w', of_nat (disk_size (fs w) p) / 1048576)
        \<and> fs w' = AList.delete p (fs w)"
  by (cases "map_of (fs w) p")
     (auto simp: remove_tracked_file_def os_path_exists_def os_path_getsize_def os_remove_def
        is_dir_def disk_size_def fs_logmsg delete_absent split: node.splits)

lemma untrack_ok:
  "map_of (downloads (tracking_data t)) eid \<noteq> None \<Longrightarrow>
   untrack eid t =
     Inr (t\<lparr>tracking_data :=
              (tracking_data t)\<lparr>downloads := AList.delete eid (downloads (tracking_data t))\<rparr>\<rparr>)"
  by (auto simp: untrack_def)


lemma remove_loop_ok:
  assumes "distinct (map fst xs)"
    and "fst ` set xs \<subseteq> fst ` set (downloads (tracking_data t))"
    and "\<forall>x\<in>set xs. \<not> is_dir (fs w) (file_path (snd x))"
  shows "\<exists>w'. remove_loop xs t w n s =
           (None,
            t\<lparr>tracking_data :=
                (tracking_data t)\<lparr>downloads :=
                   filter (\<lambda>y. fst y \<notin> fst ` set xs) (downloads (tracking_data t))\<rparr>\<rparr>,
            w', n + int (length xs), s + freed_mb (fs w) (map (\<lambda>x. file_path (snd x)) xs))
         \<and> fs w' = filter (\<lambda>y. fst y \<notin> (\<lambda>x. file_path (snd x)) ` set xs) (fs w)"
  using assms
proof (induction xs arbitrary: t w n s)
  case Nil
  then show ?case by (simp add: freed_mb_def)
next
  case (Cons x xs)
  obtain eid r where x: "x = (eid, r)" by (cases x)
  let ?p = "file_path r"
  let ?ds = "downloads (tracking_data t)"
  from Cons.prems(3) x have nd: "\<not> is_dir (fs w) ?p" by simp
  from remove_tracked_file_ok [OF nd] obtain w1 where
    w1: "remove_tracked_file ?p w = Inr (w1, of_nat (disk_size (fs w) ?p) / 1048576)"
    and fw1: "fs w1 = AList.delete ?p (fs w)" by blast
  from Cons.prems(2) x have "eid \<in> fst ` set ?ds" by simp
  then have "map_of ?ds eid \<noteq> None" by (simp add: map_of_eq_None_iff)
  note u = untrack_ok [OF this]
  let ?t1 = "t\<lparr>tracking_data := (tracking_data t)\<lparr>downloads := AList.delete eid ?ds\<rparr>\<rparr>"
  have d: "distinct (map fst xs)" and ne: "eid \<notin> fst ` set xs"
    using Cons.prems(1) x by auto
  have sub: "fst ` set xs \<subseteq> fst ` set (downloads (tracking_data ?t1))"
  proof
    fix k assume k: "k \<in> fst ` set xs"
    then have "k \<noteq> eid" using ne by auto
    moreover from k Cons.prems(2) obtain v where "(k, v) \<in> set ?ds" by force
    ultimately have "(k, v) \<in> set (AList.delete eid ?ds)"
      by (simp add: delete_as_filter)
    then have "k \<in> fst ` set (AList.delete eid ?ds)" by (rule image_eqI [rotated]) simp
    then show "k \<in> fst ` set (downloads (tracking_data ?t1))" by simp
  qed
  have nd1: "\<forall>y\<in>set xs. \<not> is_dir (fs w1) (file_path (snd y))"
  proof
    fix y assume "y \<in> set xs"
    then have "\<not> is_dir (fs w) (file_path (snd y))" using Cons.prems(3) by simp
    then show "\<not> is_dir (fs w1) (file_path (snd y))"
      unfolding fw1 by (blast dest: is_dir_delete)
  qed
  from Cons.IH [OF d sub nd1, of "n + 1" "s + of_nat (disk_size (fs w) ?p) / 1048576"]
  obtain w' where
    r: "remove_loop xs ?t1 w1 (n + 1) (s + of_nat (disk_size (fs w) ?p) / 1048576) =
          (None,
           ?t1\<lparr>tracking_data :=
                (tracking_data ?t1)\<lparr>downloads :=
                   filter (\<lambda>y. fst y \<notin> fst ` set xs) (downloads (tracking_data ?t1))\<rparr>\<rparr>,
           w', n + 1 + int (length xs),
           s + of_nat (disk_size (fs w) ?p) / 1048576
             + freed_mb (fs w1) (map (\<lambda>x. file_path (snd x)) xs))"
    and fw': "fs w' = filter (\<lambda>y. fst y \<notin> (\<lambda>x. file_path (snd x)) ` set xs) (fs w1)"
    by blast
  have step: "remove_loop (x # xs) t w n s = remove_loop xs ?t1 w1 (n + 1) (s + of_nat (disk_size (fs w) ?p) / 1048576)"
    using x w1 u by simp
  have f1: "filter (\<lambda>y. fst y \<notin> fst ` set xs) (downloads (tracking_data ?t1))
        = filter (\<lambda>y. fst y \<notin> fst ` set (x # xs)) ?ds"
    unfolding x by (simp add: delete_as_filter conj_commute)
  have f2: "fs w' = filter (\<lambda>y. fst y \<notin> (\<lambda>x. file_path (snd x)) ` set (x # xs)) (fs w)"
    unfolding x fw' fw1 by (simp add: delete_as_filter conj_commute)
  have f3: "s + of_nat (disk_size (fs w) ?p) / 1048576
             + freed_mb (fs w1) (map (\<lambda>x. file_path (snd x)) xs)
          = s + freed_mb (fs w) (map (\<lambda>x. file_path (snd x)) (x # xs))"
    using x fw1 by (simp add: freed_mb_Cons [of "fs w" ?p])
  have f4: "n + 1 + int (length xs) = n + int (length (x # xs))" by simp
  show ?case
    unfolding step r f3 f4 using f1 f2 by simp
qed

lemma freed_mb_Nil: "freed_mb f [] = 0"
  by (simp add: freed_mb_def)

lemma filter_keys_distinct:
  assumes "distinct (map fst ds)"
  shows "filter (\<lambda>y. fst y \<notin> fst ` set (filter P ds)) ds = filter (\<lambda>y. \<not> P y) ds"
proof (rule filter_cong [OF refl])
  fix y assume y: "y \<in> set ds"
  have "fst y \<in> fst ` set (filter P ds) \<longleftrightarrow> P y"
  proof
    assume "fst y \<in> fst ` set (filter P ds)"
    then obtain z where z: "z \<in> set ds" "P z" "fst z = fst y" by auto
    with assms y have "z = y" by (meson distinct_map inj_on_def)
    with z show "P y" by simp
  next
    assume "P y" with y show "fst y \<in> fst ` set (filter P ds)" by auto
  qed
  then show "(fst y \<notin> fst ` set (filter P ds)) = (\<not> P y)" by simp
qed

text \<open>
  The age policy on a store whose dates are all naive and whose due files can all be
  removed: what it returns and the state it leaves.
\<close>

lemma cleanup_old_files_ok:
  assumes "distinct (map fst (downloads (tracking_data t)))"
    and "\<forall>x\<in>set (downloads (tracking_data t)). naive_date L (snd x) \<noteq> None"
    and "\<forall>x\<in>set (downloads (tracking_data t)).
           due L (now C - timedelta_days d) (snd x) \<longrightarrow> \<not> is_dir (fs w) (file_path (snd x))"
  shows "\<exists>w'. cleanup_old_files L C d t w =
           ((int (length (filter (\<lambda>x. due L (now C - timedelta_days d) (snd x))
                            (downloads (tracking_data t)))),
             freed_mb (fs w) (map (\<lambda>x. file_path (snd x))
                (filter (\<lambda>x. due L (now C - timedelta_days d) (snd x))
                   (downloads (tracking_data t))))),
            t\<lparr>tracking_data := (tracking_data t)
               \<lparr>downloads := filter (\<lambda>x. \<not> due L (now C - timedelta_days d) (snd x))
                               (downloads (tracking_data t)),
                statistics := (statistics (tracking_data t))
                  \<lparr>last_cleanup := Some (now_isoformat C),
                   total_downloads := total_downloads (statistics (tracking_data t))
                     - int (length (filter (\<lambda>x. due L (now C - timedelta_days d) (snd x))
                                      (downloads (tracking_data t)))),
                   total_size_mb := total_size_mb (statistics (tracking_data t))
                     - freed_mb (fs w) (map (\<lambda>x. file_path (snd x))
                         (filter (\<lambda>x. due L (now C - timedelta_days d) (snd x))
                            (downloads (tracking_data t))))\<rparr>\<rparr>\<rparr>,
            w')
         \<and> fs w' = filter (\<lambda>y. fst y \<notin> (\<lambda>x. file_path (snd x)) `
                       set (filter (\<lambda>x. due L (now C - timedelta_days d) (snd x))
                              (downloads (tracking_data t)))) (fs w)"
proof -
  let ?ds = "downloads (tracking_data t)"
  let ?c = "now C - timedelta_days d"
  let ?olds = "filter (\<lambda>x. due L ?c (snd x)) ?ds"
  have co: "collect_old L (Naive ?c) ?ds [] = Inr ?olds"
    using collect_old_naive [OF assms(2), of ?c "[]"] by simp
  have d: "distinct (map fst ?olds)" using assms(1) by (simp add: distinct_map_filter)
  have sub: "fst ` set ?olds \<subseteq> fst ` set ?ds" by auto
  have nd: "\<forall>x\<in>set ?olds. \<not> is_dir (fs w) (file_path (snd x))" using assms(3) by simp
  from remove_loop_ok [OF d sub nd, of 0 0] obtain w1 where
    r: "remove_loop ?olds t w 0 0 =
          (None,
           t\<lparr>tracking_data := (tracking_data t)
              \<lparr>downloads := filter (\<lambda>y. fst y \<notin> fst ` set ?olds) ?ds\<rparr>\<rparr>,
           w1, 0 + int (length ?olds), 0 + freed_mb (fs w) (map (\<lambda>x. file_path (snd x)) ?olds))"
    and f: "fs w1 = filter (\<lambda>y. fst y \<notin> (\<lambda>x. file_path (snd x)) ` set ?olds) (fs w)"
    by blast
  note k = filter_keys_distinct [OF assms(1), of "\<lambda>x. due L ?c (snd x)"]
  show ?thesis
  proof (cases "?olds = []")
    case True
    then show ?thesis
      using co r f k by (simp add: cleanup_old_files_def Let_def freed_mb_Nil)
  next
    case False
    then have "0 < int (length ?olds)" by simp
    then show ?thesis
      using co r f k by (simp add: cleanup_old_files_def Let_def fs_logmsg)
  qed
qed

text \<open>
  C3, as amended. On a store with distinct ids whose download dates all parse to
  naive datetimes, and in which no file due for removal is a directory: after
  \<^verbatim>\<open>cleanup_old_files\<close> no remaining record is older than the cutoff, the file of
  every removed record no longer exists, and the freed size is the on-disk size of
  the files of the removed records.
\<close>

theorem cleanup_old_files_age_policy:
  assumes "distinct (map fst (downloads (tracking_data t)))"
    and "\<forall>x\<in>set (downloads (tracking_data t)). naive_date L (snd x) \<noteq> None"
    and "\<forall>x\<in>set (downloads (tracking_data t)).
           due L (now C - timedelta_days d) (snd x) \<longrightarrow> \<not> is_dir (fs w) (file_path (snd x))"
    and "cleanup_old_files L C d t w = ((removed_count, removed_size_mb), t', w')"
  shows "(\<forall>x\<in>set (downloads (tracking_data t')). \<not> due L (now C - timedelta_days d) (snd x))
       \<and> (\<forall>x\<in>set (downloads (tracking_data t)).
             x \<notin> set (downloads (tracking_data t'))
             \<longrightarrow> \<not> os_path_exists (fs w') (file_path (snd x)))
       \<and> removed_size_mb =
           freed_mb (fs w) (map (\<lambda>x. file_path (snd x))
             (filter (\<lambda>x. x \<notin> set (downloads (tracking_data t'))) (downloads (tracking_data t))))"
proof -
  let ?ds = "downloads (tracking_data t)"
  let ?due = "\<lambda>x. due L (now C - timedelta_days d) (snd x)"
  from cleanup_old_files_ok [OF assms(1-3)] assms(4)
  have ds': "downloads (tracking_data t') = filter (\<lambda>x. \<not> ?due x) ?ds"
    and s: "removed_size_mb = freed_mb (fs w) (map (\<lambda>x. file_path (snd x)) (filter ?due ?ds))"
    and f: "fs w' = filter (\<lambda>y. fst y \<notin> (\<lambda>x. file_path (snd x)) ` set (filter ?due ?ds)) (fs w)"
    by auto
  have removed: "filter (\<lambda>x. x \<notin> set (downloads (tracking_data t'))) ?ds = filter ?due ?ds"
    unfolding ds' by (rule filter_cong) auto
  have gone: "\<not> os_path_exists (fs w') (file_path (snd x))"
    if "x \<in> set ?ds" "?due x" for x
  proof -
    have "file_path (snd x) \<notin> fst ` set (fs w')"
      unfolding f using that by auto
    then show ?thesis by (simp add: os_path_exists_def map_of_eq_None_iff)
  qed
  have c1: "\<forall>x\<in>set (downloads (tracking_data t')). \<not> ?due x"
    by (simp add: ds')
  have c2: "\<forall>x\<in>set ?ds. x \<notin> set (downloads (tracking_data t'))
              \<longrightarrow> \<not> os_path_exists (fs w') (file_path (snd x))"
    using gone by (auto simp: ds')
  have c3: "removed_size_mb =
           freed_mb (fs w) (map (\<lambda>x. file_path (snd x))
             (filter (\<lambda>x. x \<notin> set (downloads (tracking_data t'))) ?ds))"
    unfolding removed by (rule s)
  show ?thesis
    using c1 c2 c3 by blast
qed

theorem cleanup_old_files_age_policy_witness:
  "distinct (map fst (downloads (tracking_data (mk_tracker age_example))))
   \<and> naive_date ref_lib (snd (age_example ! 0)) = Some 1730419200000000
   \<and> naive_date ref_lib (snd (age_example ! 1)) = Some 1734652800000000
   \<and> now ref_clock - timedelta_days 30 = 1733097600000000
   \<and> \<not> is_dir (fs age_world) ''dl/A.pdf''
   \<and> fst (cleanup_old_files ref_lib ref_clock 30 (mk_tracker age_example) age_world)
       = (1, 7 / 1048576)
   \<and> map fst (downloads (tracking_data
        (fst (snd (cleanup_old_files ref_lib ref_clock 30 (mk_tracker age_example) age_world)))))
       = [''B'']
   \<and> \<not> os_path_exists
        (fs (snd (snd (cleanup_old_files ref_lib ref_clock 30 (mk_tracker age_example) age_world))))
        ''dl/A.pdf''
   \<and> freed_mb (fs age_world) [''dl/A.pdf''] = 7 / 1048576"
proof -
  let ?t = "mk_tracker age_example"
  have h1: "distinct (map fst (downloads (tracking_data ?t)))"
    by code_simp
  have h2: "\<forall>x\<in>set (downloads (tracking_data ?t)). naive_date ref_lib (snd x) \<noteq> None"
    by code_simp
  have h3: "\<forall>x\<in>set (downloads (tracking_data ?t)).
           due ref_lib (now ref_clock - timedelta_days 30) (snd x)
           \<longrightarrow> \<not> is_dir (fs age_world) (file_path (snd x))"
    by code_simp
  have ev: "cleanup_old_files ref_lib ref_clock 30 ?t age_world
    = ((1, 7 / 1048576),
       ?t\<lparr>tracking_data := (tracking_data ?t)
          \<lparr>downloads := [(''B'', mk_record ''B'' ''2024-12-20T00:00:00'' 3 ''dl/B.pdf'' None False)],
           statistics := \<lparr>total_downloads = 1, total_size_mb = - (7 / 1048576),
                          last_cleanup = Some ''2025-01-01T00:00:00'',
                          last_compression = None\<rparr>\<rparr>\<rparr>,
       \<lparr>fs = [(''dl'', Dir 0), (''dl/B.pdf'', File ''BBB'' 0)], log = [INFO, INFO]\<rparr>)"
    by code_simp
  have a: "naive_date ref_lib (snd (age_example ! 0)) = Some 1730419200000000"
    "naive_date ref_lib (snd (age_example ! 1)) = Some 1734652800000000"
    "now ref_clock - timedelta_days 30 = 1733097600000000"
    "\<not> is_dir (fs age_world) ''dl/A.pdf''"
    by code_simp+
  have fm: "freed_mb (fs age_world) [''dl/A.pdf''] = 7 / 1048576"
    by (simp add: freed_mb_def disk_size_def age_world_def)
  have r1: "fst (cleanup_old_files ref_lib ref_clock 30 ?t age_world) = (1, 7 / 1048576)"
    using ev by simp
  have r2: "map fst (downloads (tracking_data
        (fst (snd (cleanup_old_files ref_lib ref_clock 30 ?t age_world))))) = [''B'']"
    using ev by simp
  from cleanup_old_files_age_policy [OF h1 h2 h3 ev]
  have "\<forall>x\<in>set (downloads (tracking_data ?t)).
          x \<notin> set [(''B'', mk_record ''B'' ''2024-12-20T00:00:00'' 3 ''dl/B.pdf'' None False)]
          \<longrightarrow> \<not> os_path_exists [(''dl'', Dir 0), (''dl/B.pdf'', File ''BBB'' 0)]
                 (file_path (snd x))"
    by simp
  then have "\<not> os_path_exists [(''dl'', Dir 0), (''dl/B.pdf'', File ''BBB'' 0)] ''dl/A.pdf''"
    by (simp add: mk_tracker_def age_example_def mk_record_def)
  then have r3: "\<not> os_path_exists
        (fs (snd (snd (cleanup_old_files ref_lib ref_clock 30 ?t age_world)))) ''dl/A.pdf''"
    using ev by simp
  show ?thesis
    using h1 a fm r1 r2 r3 by blast
qed

text \<open>
  C3 as stated fails on stores whose timestamps all parse. A record 61 days old whose
  path is a directory makes \<^verbatim>\<open>os.remove\<close> raise, and a record 61 days old whose
  timestamp carries \<^verbatim>\<open>Z\<close> parses to an aware datetime whose comparison with the
  naive cutoff raises: in both runs the pass is abandoned and the old record stays.
\<close>

theorem cleanup_old_files_counterexample:
  "parse_date ref_lib ''2024-11-01T00:00:00'' = Inr (Naive 1730419200000000)
   \<and> parse_date ref_lib ''2024-11-01T00:00:00Z'' = Inr (Aware 1730419200000000)
   \<and> now ref_clock - timedelta_days 30 = 1733097600000000
   \<and> cleanup_old_files ref_lib ref_clock 30
        (mk_tracker [(''A'', mk_record ''A'' ''2024-11-01T00:00:00'' 5 ''dl/A'' None False)])
        \<lparr>fs = [(''dl'', Dir 0), (''dl/A'', Dir 0)], log = []\<rparr>
      = ((0, 0),
         mk_tracker [(''A'', mk_record ''A'' ''2024-11-01T00:00:00'' 5 ''dl/A'' None False)],
         \<lparr>fs = [(''dl'', Dir 0), (''dl/A'', Dir 0)], log = [ERROR]\<rparr>)
   \<and> cleanup_old_files ref_lib ref_clock 30
        (mk_tracker [(''A'', mk_record ''A'' ''2024-11-01T00:00:00Z'' 5 ''dl/A.pdf'' None False)])
        \<lparr>fs = [(''dl'', Dir 0), (''dl/A.pdf'', File ''AAAAA'' 0)], log = []\<rparr>
      = ((0, 0),
         mk_tracker [(''A'', mk_record ''A'' ''2024-11-01T00:00:00Z'' 5 ''dl/A.pdf'' None False)],
         \<lparr>fs = [(''dl'', Dir 0), (''dl/A.pdf'', File ''AAAAA'' 0)], log = [ERROR]\<rparr>)"
  by code_simp

section \<open>Retention: the capacity policy\<close>



















lemma naive_dateD:
  "naive_date L r \<noteq> None \<Longrightarrow> \<exists>a. parse_date L (download_date r) = Inr (Naive a)"
  by (cases "parse_date L (download_date r)")
     (auto simp: naive_date_def split: datetime.splits)







section \<open>Retention: statistics and frame\<close>

lemma log_logmsg: "log (logmsg l w) = log w @ [l]"
  by (simp add: logmsg_def)

lemma remove_tracked_file_frame:
  assumes "remove_tracked_file p w = Inr (w', x)"
  shows "fs w' = AList.delete p (fs w) \<and> (\<exists>ls. log w' = log w @ ls \<and> ERROR \<notin> set ls)"
proof (cases "os_path_exists (fs w) p")
  case True
  then show ?thesis
    using assms
    by (auto simp: remove_tracked_file_def fs_logmsg log_logmsg os_remove_def
        split: sum.splits option.splits node.splits)
next
  case False
  then have "map_of (fs w) p = None" by (simp add: os_path_exists_def)
  then show ?thesis
    using assms False by (auto simp: remove_tracked_file_def delete_absent)
qed

lemma untrack_frame:
  "untrack eid t = Inr t' \<Longrightarrow> statistics (tracking_data t') = statistics (tracking_data t)"
  by (auto simp: untrack_def split: option.splits)

text \<open>What a filesystem keeps of an earlier one when files were only removed.\<close>

lemma kept_delete:
  "map_of (AList.delete p f) q = None \<or> map_of (AList.delete p f) q = map_of f q"
  by (simp add: map_of_delete)

lemma remove_loop_frame:
  "remove_loop xs t w n s = (e, t', w', n', s') \<Longrightarrow>
   statistics (tracking_data t') = statistics (tracking_data t)
   \<and> (\<forall>q. map_of (fs w') q = None \<or> map_of (fs w') q = map_of (fs w) q)
   \<and> (\<exists>ls. log w' = log w @ ls \<and> ERROR \<notin> set ls)"
proof (induction xs arbitrary: t w n s)
  case Nil
  then show ?case by simp
next
  case (Cons x xs)
  obtain eid r where x: "x = (eid, r)" by (cases x)
  show ?case
  proof (cases "remove_tracked_file (file_path r) w")
    case (Inl a)
    then show ?thesis using Cons.prems x by simp
  next
    case (Inr b)
    obtain w1 freed where b: "b = (w1, freed)" by (cases b)
    from remove_tracked_file_frame [of "file_path r" w w1 freed] Inr b
    have f1: "fs w1 = AList.delete (file_path r) (fs w)"
      and l1: "\<exists>ls. log w1 = log w @ ls \<and> ERROR \<notin> set ls" by simp_all
    have k1: "\<forall>q. map_of (fs w1) q = None \<or> map_of (fs w1) q = map_of (fs w) q"
      unfolding f1 by (simp add: map_of_delete)
    show ?thesis
    proof (cases "untrack eid t")
      case (Inl a)
      then show ?thesis using Cons.prems x Inr b k1 l1 by simp
    next
      case u: (Inr t1)
      have "remove_loop xs t1 w1 (n + 1) (s + freed) = (e, t', w', n', s')"
        using Cons.prems x Inr b u by simp
      from Cons.IH [OF this]
      have i1: "statistics (tracking_data t') = statistics (tracking_data t1)"
        and i2: "\<forall>q. map_of (fs w') q = None \<or> map_of (fs w') q = map_of (fs w1) q"
        and i3: "\<exists>ls. log w' = log w1 @ ls \<and> ERROR \<notin> set ls" by simp_all
      have c1: "statistics (tracking_data t') = statistics (tracking_data t)"
        using i1 untrack_frame [OF u] by simp
      have c2: "\<forall>q. map_of (fs w') q = None \<or> map_of (fs w') q = map_of (fs w) q"
        using i2 k1 by metis
      from l1 i3 obtain la lb where "log w1 = log w @ la" "ERROR \<notin> set la"
        "log w' = log w1 @ lb" "ERROR \<notin> set lb" by blast
      then have "log w' = log w @ (la @ lb) \<and> ERROR \<notin> set (la @ lb)" by simp
      then have c3: "\<exists>ls. log w' = log w @ ls \<and> ERROR \<notin> set ls" by blast
      show ?thesis using c1 c2 c3 by blast
    qed
  qed
qed

lemma limit_loop_frame:
  "limit_loop mx xs cur t w n s = (e, t', w', n', s') \<Longrightarrow>
   statistics (tracking_data t') = statistics (tracking_data t)
   \<and> (\<forall>q. map_of (fs w') q = None \<or> map_of (fs w') q = map_of (fs w) q)
   \<and> (\<exists>ls. log w' = log w @ ls \<and> ERROR \<notin> set ls)"
proof (induction xs arbitrary: cur t w n s)
  case Nil
  then show ?case by simp
next
  case (Cons x xs)
  obtain dt eid r where x: "x = (dt, eid, r)" by (cases x)
  show ?case
  proof (cases "cur \<le> mx")
    case True
    then show ?thesis using Cons.prems x by simp
  next
    case over: False
    show ?thesis
    proof (cases "remove_tracked_file (file_path r) w")
      case (Inl a)
      then show ?thesis using Cons.prems x over by simp
    next
      case (Inr b)
      obtain w1 freed where b: "b = (w1, freed)" by (cases b)
      from remove_tracked_file_frame [of "file_path r" w w1 freed] Inr b
      have f1: "fs w1 = AList.delete (file_path r) (fs w)"
        and l1: "\<exists>ls. log w1 = log w @ ls \<and> ERROR \<notin> set ls" by simp_all
      have k1: "\<forall>q. map_of (fs w1) q = None \<or> map_of (fs w1) q = map_of (fs w) q"
        unfolding f1 by (simp add: map_of_delete)
      show ?thesis
      proof (cases "untrack eid t")
        case (Inl a)
        then show ?thesis using Cons.prems x over Inr b k1 l1 by simp
      next
        case u: (Inr t1)
        have "limit_loop mx xs (cur - freed) t1 w1 (n + 1) (s + freed) = (e, t', w', n', s')"
          using Cons.prems x over Inr b u by simp
        from Cons.IH [OF this]
        have i1: "statistics (tracking_data t') = statistics (tracking_data t1)"
          and i2: "\<forall>q. map_of (fs w') q = None \<or> map_of (fs w') q = map_of (fs w1) q"
          and i3: "\<exists>ls. log w' = log w1 @ ls \<and> ERROR \<notin> set ls" by simp_all
        have c1: "statistics (tracking_data t') = statistics (tracking_data t)"
          using i1 untrack_frame [OF u] by simp
        have c2: "\<forall>q. map_of (fs w') q = None \<or> map_of (fs w') q = map_of (fs w) q"
          using i2 k1 by metis
        from l1 i3 obtain la lb where "log w1 = log w @ la" "ERROR \<notin> set la"
          "log w' = log w1 @ lb" "ERROR \<notin> set lb" by blast
        then have "log w' = log w @ (la @ lb) \<and> ERROR \<notin> set (la @ lb)" by simp
        then have c3: "\<exists>ls. log w' = log w @ ls \<and> ERROR \<notin> set ls" by blast
        show ?thesis using c1 c2 c3 by blast
      qed
    qed
  qed
qed

lemma cleanup_old_files_statistics:
  assumes "cleanup_old_files L C d t w = ((n, s), t', w')"
  shows "(\<exists>ls. log w' = log w @ ls \<and>
           (if ERROR \<in> set ls
            then statistics (tracking_data t') = statistics (tracking_data t)
            else statistics (tracking_data t') =
                   (statistics (tracking_data t))
                     \<lparr>last_cleanup := Some (now_isoformat C),
                      total_downloads := total_downloads (statistics (tracking_data t)) - n,
                      total_size_mb := total_size_mb (statistics (tracking_data t)) - s\<rparr>))
       \<and> (\<forall>q. map_of (fs w') q = None \<or> map_of (fs w') q = map_of (fs w) q)"
proof (cases "collect_old L (Naive (now C - timedelta_days d)) (downloads (tracking_data t)) []")
  case (Inl a)
  then have r: "t' = t" "w' = logmsg ERROR w"
    using assms by (simp_all add: cleanup_old_files_def)
  have "log w' = log w @ [ERROR]" using r by (simp add: log_logmsg)
  then show ?thesis using r by (auto simp: fs_logmsg)
next
  case (Inr to_remove)
  obtain e ta wa na sa where l: "remove_loop to_remove t w 0 0 = (e, ta, wa, na, sa)"
    by (metis surj_pair)
  from remove_loop_frame [OF l]
  have st: "statistics (tracking_data ta) = statistics (tracking_data t)"
    and kp: "\<forall>q. map_of (fs wa) q = None \<or> map_of (fs wa) q = map_of (fs w) q"
    and lg: "\<exists>ls. log wa = log w @ ls \<and> ERROR \<notin> set ls" by simp_all
  from lg obtain la where la: "log wa = log w @ la" "ERROR \<notin> set la" by blast
  show ?thesis
  proof (cases e)
    case (Some a)
    then have r: "t' = ta" "w' = logmsg ERROR wa" "n = na" "s = sa"
      using assms Inr l by (simp_all add: cleanup_old_files_def)
    have "log w' = log w @ (la @ [ERROR])" using r la by (simp add: log_logmsg)
    moreover have "ERROR \<in> set (la @ [ERROR])" by simp
    ultimately have "\<exists>ls. log w' = log w @ ls \<and>
           (if ERROR \<in> set ls
            then statistics (tracking_data t') = statistics (tracking_data t)
            else statistics (tracking_data t') =
                   (statistics (tracking_data t))
                     \<lparr>last_cleanup := Some (now_isoformat C),
                      total_downloads := total_downloads (statistics (tracking_data t)) - n,
                      total_size_mb := total_size_mb (statistics (tracking_data t)) - s\<rparr>)"
      using st r by (intro exI [of _ "la @ [ERROR]"]) simp
    then show ?thesis using kp r by (simp add: fs_logmsg)
  next
    case None
    let ?lb = "if 0 < na then la @ [INFO] else la"
    have r: "n = na" "s = sa"
      "statistics (tracking_data t') =
         (statistics (tracking_data ta))
           \<lparr>last_cleanup := Some (now_isoformat C),
            total_downloads := total_downloads (statistics (tracking_data ta)) - na,
            total_size_mb := total_size_mb (statistics (tracking_data ta)) - sa\<rparr>"
      "w' = (if 0 < na then logmsg INFO wa else wa)"
      using assms Inr l None by (auto simp: cleanup_old_files_def Let_def)
    have "log w' = log w @ ?lb" using r la by (simp add: log_logmsg)
    moreover have "ERROR \<notin> set ?lb" using la by simp
    ultimately have "\<exists>ls. log w' = log w @ ls \<and>
           (if ERROR \<in> set ls
            then statistics (tracking_data t') = statistics (tracking_data t)
            else statistics (tracking_data t') =
                   (statistics (tracking_data t))
                     \<lparr>last_cleanup := Some (now_isoformat C),
                      total_downloads := total_downloads (statistics (tracking_data t)) - n,
                      total_size_mb := total_size_mb (statistics (tracking_data t)) - s\<rparr>)"
      using st r by (intro exI [of _ ?lb]) simp
    then show ?thesis using kp r by (simp add: fs_logmsg)
  qed
qed

lemma cleanup_by_storage_limit_statistics:
  assumes "cleanup_by_storage_limit L mx t w = ((n, s), t', w')"
  shows "(\<exists>ls. log w' = log w @ ls \<and>
           (if ERROR \<in> set ls \<or> stats_total_size_mb (get_storage_stats t w) \<le> mx
            then statistics (tracking_data t') = statistics (tracking_data t)
            else total_downloads (statistics (tracking_data t'))
                   = total_downloads (statistics (tracking_data t)) - n
               \<and> total_size_mb (statistics (tracking_data t'))
                   = total_size_mb (statistics (tracking_data t)) - s))
       \<and> (\<forall>q. map_of (fs w') q = None \<or> map_of (fs w') q = map_of (fs w) q)"
proof (cases "stats_total_size_mb (get_storage_stats t w) \<le> mx")
  case True
  then have r: "t' = t" "w' = logmsg DEBUG w"
    using assms by (simp_all add: cleanup_by_storage_limit_def)
  have "log w' = log w @ [DEBUG]" using r by (simp add: log_logmsg)
  then show ?thesis using r True by (auto simp: fs_logmsg)
next
  case over: False
  show ?thesis
  proof (cases "collect_existing L (fs w) (downloads (tracking_data t)) []")
    case (Inl a)
    then have r: "t' = t" "w' = logmsg ERROR w"
      using assms over by (simp_all add: cleanup_by_storage_limit_def)
    have "log w' = log w @ [ERROR]" using r by (simp add: log_logmsg)
    then show ?thesis using r by (auto simp: fs_logmsg)
  next
    case rs: (Inr records_with_dates)
    show ?thesis
    proof (cases "sort_by_date records_with_dates")
      case (Inl a)
      then have r: "t' = t" "w' = logmsg ERROR w"
        using assms over rs by (simp_all add: cleanup_by_storage_limit_def)
      have "log w' = log w @ [ERROR]" using r by (simp add: log_logmsg)
      then show ?thesis using r by (auto simp: fs_logmsg)
    next
      case sr: (Inr sorted_records)
      obtain e ta wa na sa where
        l: "limit_loop mx sorted_records (stats_total_size_mb (get_storage_stats t w)) t w 0 0
            = (e, ta, wa, na, sa)"
        by (metis surj_pair)
      from limit_loop_frame [OF l]
      have st: "statistics (tracking_data ta) = statistics (tracking_data t)"
        and kp: "\<forall>q. map_of (fs wa) q = None \<or> map_of (fs wa) q = map_of (fs w) q"
        and lg: "\<exists>ls. log wa = log w @ ls \<and> ERROR \<notin> set ls" by simp_all
      from lg obtain la where la: "log wa = log w @ la" "ERROR \<notin> set la" by blast
      show ?thesis
      proof (cases e)
        case (Some a)
        then have r: "t' = ta" "w' = logmsg ERROR wa" "n = na" "s = sa"
          using assms over rs sr l by (simp_all add: cleanup_by_storage_limit_def)
        have "log w' = log w @ (la @ [ERROR])" using r la by (simp add: log_logmsg)
        moreover have "ERROR \<in> set (la @ [ERROR])" by simp
        ultimately have "\<exists>ls. log w' = log w @ ls \<and>
           (if ERROR \<in> set ls \<or> stats_total_size_mb (get_storage_stats t w) \<le> mx
            then statistics (tracking_data t') = statistics (tracking_data t)
            else total_downloads (statistics (tracking_data t'))
                   = total_downloads (statistics (tracking_data t)) - n
               \<and> total_size_mb (statistics (tracking_data t'))
                   = total_size_mb (statistics (tracking_data t)) - s)"
          using st r by (intro exI [of _ "la @ [ERROR]"]) simp
        then show ?thesis using kp r by (simp add: fs_logmsg)
      next
        case None
        let ?lb = "if 0 < na then la @ [INFO] else la"
        have r: "n = na" "s = sa"
          "statistics (tracking_data t') =
             (statistics (tracking_data ta))
               \<lparr>total_downloads := total_downloads (statistics (tracking_data ta)) - na,
                total_size_mb := total_size_mb (statistics (tracking_data ta)) - sa\<rparr>"
          "w' = (if 0 < na then logmsg INFO wa else wa)"
          using assms over rs sr l None by (auto simp: cleanup_by_storage_limit_def Let_def)
        have "log w' = log w @ ?lb" using r la by (simp add: log_logmsg)
        moreover have "ERROR \<notin> set ?lb" using la by simp
        ultimately have "\<exists>ls. log w' = log w @ ls \<and>
           (if ERROR \<in> set ls \<or> stats_total_size_mb (get_storage_stats t w) \<le> mx
            then statistics (tracking_data t') = statistics (tracking_data t)
            else total_downloads (statistics (tracking_data t'))
                   = total_downloads (statistics (tracking_data t)) - n
               \<and> total_size_mb (statistics (tracking_data t'))
                   = total_size_mb (statistics (tracking_data t)) - s)"
          using st r over by (intro exI [of _ ?lb]) simp
        then show ?thesis using kp r by (simp add: fs_logmsg)
      qed
    qed
  qed
qed

text \<open>
  C7, as amended. A run of \<^verbatim>\<open>cleanup_old_files\<close> that logs no error sets
  \<^verbatim>\<open>last_cleanup\<close> to the current time and decreases \<^verbatim>\<open>total_downloads\<close> and
  \<^verbatim>\<open>total_size_mb\<close> by the returned count and size; a run that logs an error (the
  pass was abandoned) leaves the statistics as they were. A run of
  \<^verbatim>\<open>cleanup_by_storage_limit\<close> that finds the store over the limit and logs no error
  decreases \<^verbatim>\<open>total_downloads\<close> and \<^verbatim>\<open>total_size_mb\<close> by the returned count and
  size; a run within the limit, or one that logs an error, leaves the statistics as
  they were. Neither policy writes a file: every path that exists afterwards holds
  what it held before.
\<close>

theorem retention_statistics:
  assumes "cleanup_old_files L C d t w = ((n1, s1), t1, w1)"
    and "cleanup_by_storage_limit L mx t w = ((n2, s2), t2, w2)"
  shows "(\<exists>ls. log w1 = log w @ ls \<and>
           (if ERROR \<in> set ls
            then statistics (tracking_data t1) = statistics (tracking_data t)
            else statistics (tracking_data t1) =
                   (statistics (tracking_data t))
                     \<lparr>last_cleanup := Some (now_isoformat C),
                      total_downloads := total_downloads (statistics (tracking_data t)) - n1,
                      total_size_mb := total_size_mb (statistics (tracking_data t)) - s1\<rparr>))
       \<and> (\<exists>ls. log w2 = log w @ ls \<and>
           (if ERROR \<in> set ls \<or> stats_total_size_mb (get_storage_stats t w) \<le> mx
            then statistics (tracking_data t2) = statistics (tracking_data t)
            else total_downloads (statistics (tracking_data t2))
                   = total_downloads (statistics (tracking_data t)) - n2
               \<and> total_size_mb (statistics (tracking_data t2))
                   = total_size_mb (statistics (tracking_data t)) - s2))
       \<and> (\<forall>q. (map_of (fs w1) q = None \<or> map_of (fs w1) q = map_of (fs w) q)
              \<and> (map_of (fs w2) q = None \<or> map_of (fs w2) q = map_of (fs w) q))"
  using cleanup_old_files_statistics [OF assms(1)] cleanup_by_storage_limit_statistics [OF assms(2)]
  by blast

theorem retention_statistics_witness:
  "cleanup_old_files ref_lib ref_clock 30 (mk_tracker capacity_example) capacity_world
     = ((1, 6 / 1048576),
        (mk_tracker capacity_example)\<lparr>tracking_data := (tracking_data (mk_tracker capacity_example))
          \<lparr>downloads := [(''B'', mk_record ''B'' ''2024-12-20T00:00:00'' 3 ''dl/B.pdf'' None False),
                         (''C'', mk_record ''C'' ''2024-12-30T00:00:00'' 2 ''dl/C.pdf'' None False)],
           statistics := \<lparr>total_downloads = 2, total_size_mb = - (6 / 1048576),
                          last_cleanup = Some ''2025-01-01T00:00:00'',
                          last_compression = None\<rparr>\<rparr>\<rparr>,
        \<lparr>fs = [(''dl'', Dir 0), (''dl/B.pdf'', File ''BBB'' 0), (''dl/C.pdf'', File ''CC'' 0)],
          log = [INFO, INFO]\<rparr>)
   \<and> cleanup_by_storage_limit ref_lib (4 / 1048576) (mk_tracker capacity_example) capacity_world
     = ((2, 9 / 1048576),
        (mk_tracker capacity_example)\<lparr>tracking_data := (tracking_data (mk_tracker capacity_example))
          \<lparr>downloads := [(''C'', mk_record ''C'' ''2024-12-30T00:00:00'' 2 ''dl/C.pdf'' None False)],
           statistics := \<lparr>total_downloads = 1, total_size_mb = - (9 / 1048576),
                          last_cleanup = None, last_compression = None\<rparr>\<rparr>\<rparr>,
        \<lparr>fs = [(''dl'', Dir 0), (''dl/C.pdf'', File ''CC'' 0)], log = [INFO, INFO, INFO]\<rparr>)
   \<and> statistics (tracking_data (mk_tracker capacity_example))
     = \<lparr>total_downloads = 3, total_size_mb = 0, last_cleanup = None, last_compression = None\<rparr>
   \<and> map_of [(''dl'', Dir 0), (''dl/C.pdf'', File ''CC'' 0)] ''data/tracking.json''
     = map_of (fs capacity_world) ''data/tracking.json''"
proof -
  let ?t = "mk_tracker capacity_example"
  have e1: "cleanup_old_files ref_lib ref_clock 30 ?t capacity_world
     = ((1, 6 / 1048576),
        ?t\<lparr>tracking_data := (tracking_data ?t)
          \<lparr>downloads := [(''B'', mk_record ''B'' ''2024-12-20T00:00:00'' 3 ''dl/B.pdf'' None False),
                         (''C'', mk_record ''C'' ''2024-12-30T00:00:00'' 2 ''dl/C.pdf'' None False)],
           statistics := \<lparr>total_downloads = 2, total_size_mb = - (6 / 1048576),
                          last_cleanup = Some ''2025-01-01T00:00:00'',
                          last_compression = None\<rparr>\<rparr>\<rparr>,
        \<lparr>fs = [(''dl'', Dir 0), (''dl/B.pdf'', File ''BBB'' 0), (''dl/C.pdf'', File ''CC'' 0)],
          log = [INFO, INFO]\<rparr>)"
    by code_simp
  have e2: "cleanup_by_storage_limit ref_lib (4 / 1048576) ?t capacity_world
     = ((2, 9 / 1048576),
        ?t\<lparr>tracking_data := (tracking_data ?t)
          \<lparr>downloads := [(''C'', mk_record ''C'' ''2024-12-30T00:00:00'' 2 ''dl/C.pdf'' None False)],
           statistics := \<lparr>total_downloads = 1, total_size_mb = - (9 / 1048576),
                          last_cleanup = None, last_compression = None\<rparr>\<rparr>\<rparr>,
        \<lparr>fs = [(''dl'', Dir 0), (''dl/C.pdf'', File ''CC'' 0)], log = [INFO, INFO, INFO]\<rparr>)"
    by code_simp
  have e3: "statistics (tracking_data ?t)
     = \<lparr>total_downloads = 3, total_size_mb = 0, last_cleanup = None, last_compression = None\<rparr>"
    by code_simp
  have nx: "map_of (fs capacity_world) ''data/tracking.json'' = None"
    by (simp add: capacity_world_def)
  from retention_statistics [OF e1 e2]
  have "map_of [(''dl'', Dir 0), (''dl/C.pdf'', File ''CC'' 0)] ''data/tracking.json'' = None
        \<or> map_of [(''dl'', Dir 0), (''dl/C.pdf'', File ''CC'' 0)] ''data/tracking.json''
           = map_of (fs capacity_world) ''data/tracking.json''"
    by simp
  then have e4: "map_of [(''dl'', Dir 0), (''dl/C.pdf'', File ''CC'' 0)] ''data/tracking.json''
     = map_of (fs capacity_world) ''data/tracking.json''"
    using nx by auto
  show ?thesis
    using e1 e2 e3 e4 by blast
qed

text \<open>
  C7 as stated fails. A run of the capacity policy within the limit returns before
  it touches the statistics; and a run of the age policy that is abandoned at a
  failing removal returns after one record was removed (returned count 1) with the
  statistics as they were.
\<close>

theorem retention_statistics_counterexample:
  "cleanup_by_storage_limit ref_lib 1 (mk_tracker capacity_example) capacity_world
     = ((0, 0), mk_tracker capacity_example, capacity_world\<lparr>log := [DEBUG]\<rparr>)
   \<and> last_cleanup (statistics (tracking_data (mk_tracker capacity_example))) = None
   \<and> cleanup_old_files ref_lib ref_clock 30
        (mk_tracker [(''B'', mk_record ''B'' ''2024-11-02T00:00:00'' 3 ''dl/B.pdf'' None False),
                     (''A'', mk_record ''A'' ''2024-11-01T00:00:00'' 5 ''dl/A'' None False)])
        \<lparr>fs = [(''dl'', Dir 0), (''dl/A'', Dir 0), (''dl/B.pdf'', File ''BBB'' 0)], log = []\<rparr>
     = ((1, 3 / 1048576),
        \<lparr>tracking_file = ''data/tracking.json'', download_dir = ''dl'',
          backup_dir = ''data/backups'',
          tracking_data =
            \<lparr>version = ''1.0'', created = Some ''2024-01-01T00:00:00'',
             last_updated = ''2024-01-01T00:00:00'',
             downloads = [(''A'', mk_record ''A'' ''2024-11-01T00:00:00'' 5 ''dl/A'' None False)],
             statistics = \<lparr>total_downloads = 2, total_size_mb = 0, last_cleanup = None,
                            last_compression = None\<rparr>\<rparr>\<rparr>,
        \<lparr>fs = [(''dl'', Dir 0), (''dl/A'', Dir 0)], log = [INFO, ERROR]\<rparr>)"
  by code_simp

text \<open>
  Beside the amended claim: an over-limit run of the capacity policy that removes two
  records leaves \<^verbatim>\<open>last_cleanup\<close> unset, where the age policy sets it.
\<close>

lemma cleanup_by_storage_limit_last_cleanup:
  "fst (cleanup_by_storage_limit ref_lib (4 / 1048576) (mk_tracker capacity_example)
          capacity_world) = (2, 9 / 1048576)
   \<and> last_cleanup (statistics (tracking_data (fst (snd
        (cleanup_by_storage_limit ref_lib (4 / 1048576) (mk_tracker capacity_example)
           capacity_world))))) = None"
  by code_simp

section \<open>Compression engine\<close>

lemma map_of_update: "map_of (AList.update k v f) q = (if q = k then Some v else map_of f q)"
  by (simp add: update_conv')

lemma open_w_ok: "can_create f p \<Longrightarrow> open_w tm f p = Inr (AList.update p (File [] tm) f)"
  by (auto simp: can_create_def is_dir_def open_w_def split: option.splits node.splits)

lemma gz_neq: "p @ ''.gz'' \<noteq> p"
  by (metis append_self_conv list.distinct(1))

lemma compress_record_ok:
  assumes "is_file (fs w) (file_path r)" and "can_create (fs w) (file_path r @ ''.gz'')"
  shows "\<exists>w' s'. compress_record L C eid r t w n s =
           (None,
            t\<lparr>tracking_data := (tracking_data t)
               \<lparr>downloads := AList.update eid (compressed_record L (fs w) r)
                                (downloads (tracking_data t))\<rparr>\<rparr>,
            w', n + 1, s')
         \<and> (\<forall>q. map_of (fs w') q =
                 (if q = file_path r then None
                  else if q = file_path r @ ''.gz''
                  then Some (File (gzip_compress L (file_content (fs w) (file_path r))) (now C))
                  else map_of (fs w) q))"
proof -
  let ?p = "file_path r"
  let ?g = "?p @ ''.gz''"
  from assms(1) obtain c m where c: "map_of (fs w) ?p = Some (File c m)"
    by (auto simp: is_file_def split: option.splits node.splits)
  have fc: "file_content (fs w) ?p = c" using c by (simp add: file_content_def)
  have gs: "os_path_getsize (fs w) ?p = Inr (length c)" using c by (simp add: os_path_getsize_def)
  have rd: "read_file (fs w) ?p = Inr c" using c by (simp add: read_file_def)
  note ow = open_w_ok [OF assms(2), of "now C"]
  let ?f2 = "write_content (now C) (AList.update ?g (File [] (now C)) (fs w)) ?g (gzip_compress L c)"
  have m2: "\<And>q. map_of ?f2 q = (if q = ?g then Some (File (gzip_compress L c) (now C))
                                  else map_of (fs w) q)"
    by (simp add: write_content_def map_of_update)
  have ex2: "os_path_exists ?f2 ?g" by (simp add: os_path_exists_def m2)
  have gs2: "os_path_getsize ?f2 ?g = Inr (length (gzip_compress L c))"
    by (simp add: os_path_getsize_def m2)
  have "map_of ?f2 ?p = Some (File c m)" using c gz_neq [of ?p] by (simp add: m2)
  then have rm: "os_remove ?f2 ?p = Inr (AList.delete ?p ?f2)" by (simp add: os_remove_def)
  let ?w' = "logmsg INFO (w\<lparr>fs := AList.delete ?p ?f2\<rparr>)"
  have run: "compress_record L C eid r t w n s =
           (None,
            t\<lparr>tracking_data := (tracking_data t)
               \<lparr>downloads := AList.update eid (compressed_record L (fs w) r)
                                (downloads (tracking_data t))\<rparr>\<rparr>,
            ?w', n + 1,
            s + (of_nat (length c) - of_nat (length (gzip_compress L c))) / 1048576)"
    unfolding compress_record_def Let_def gs rd ow
    using ex2 gs2 rm by (simp add: compressed_record_def fc)
  have fsw: "\<forall>q. map_of (fs ?w') q =
                 (if q = ?p then None
                  else if q = ?g then Some (File (gzip_compress L (file_content (fs w) ?p)) (now C))
                  else map_of (fs w) q)"
    by (simp add: fs_logmsg map_of_delete m2 fc)
  show ?thesis
    using run fsw by blast
qed

lemma is_x_cong:
  assumes "map_of f q = map_of g q"
  shows "is_dir f q = is_dir g q" "is_file f q = is_file g q"
    "os_path_exists f q = os_path_exists g q" "file_content f q = file_content g q"
  using assms by (simp_all add: is_dir_def is_file_def os_path_exists_def file_content_def)

lemma compress_loop_ok:
  assumes "distinct (map fst xs)"
    and "distinct (map (\<lambda>x. file_path (snd x)) xs)"
    and "\<forall>x\<in>set xs. \<forall>y\<in>set xs. file_path (snd y) \<noteq> file_path (snd x) @ ''.gz''"
    and "\<forall>x\<in>set xs. \<not> compressed (snd x) \<longrightarrow> naive_date L (snd x) \<noteq> None"
    and "\<forall>x\<in>set xs. eligible L c (fs w) (snd x)
           \<longrightarrow> is_file (fs w) (file_path (snd x)) \<and> can_create (fs w) (file_path (snd x) @ ''.gz'')"
  shows "\<exists>t' w' n' s'. compress_loop L C (Naive c) xs t w n s = (None, t', w', n', s')
       \<and> (\<forall>x\<in>set xs. eligible L c (fs w) (snd x) \<longrightarrow>
             map_of (downloads (tracking_data t')) (fst x) = Some (compressed_record L (fs w) (snd x))
           \<and> map_of (fs w') (file_path (snd x)) = None
           \<and> map_of (fs w') (file_path (snd x) @ ''.gz'')
               = Some (File (gzip_compress L (file_content (fs w) (file_path (snd x)))) (now C)))
       \<and> (\<forall>q. (\<forall>x\<in>set xs. eligible L c (fs w) (snd x)
                    \<longrightarrow> q \<noteq> file_path (snd x) \<and> q \<noteq> file_path (snd x) @ ''.gz'')
              \<longrightarrow> map_of (fs w') q = map_of (fs w) q)
       \<and> (\<forall>k. (\<forall>x\<in>set xs. eligible L c (fs w) (snd x) \<longrightarrow> k \<noteq> fst x)
              \<longrightarrow> map_of (downloads (tracking_data t')) k = map_of (downloads (tracking_data t)) k)
       \<and> statistics (tracking_data t') = statistics (tracking_data t)
       \<and> (n' = n \<longleftrightarrow> (\<forall>x\<in>set xs. \<not> eligible L c (fs w) (snd x)))
       \<and> n \<le> n'"
  using assms
proof (induction xs arbitrary: t w n s)
  case Nil
  then show ?case by simp
next
  case (Cons x xs)
  obtain eid r where x: "x = (eid, r)" by (cases x)
  let ?p = "file_path r"
  let ?g = "?p @ ''.gz''"
  have d1: "distinct (map fst xs)" and ne: "eid \<notin> fst ` set xs"
    using Cons.prems(1) x by auto
  have d2: "distinct (map (\<lambda>x. file_path (snd x)) xs)"
    and np0: "?p \<notin> (\<lambda>x. file_path (snd x)) ` set xs"
    using Cons.prems(2) x by auto
  have np: "\<forall>y\<in>set xs. file_path (snd y) \<noteq> ?p"
    using np0 by force
  have d3: "\<forall>a\<in>set xs. \<forall>b\<in>set xs. file_path (snd b) \<noteq> file_path (snd a) @ ''.gz''"
    using Cons.prems(3) by simp
  have ng1: "\<forall>y\<in>set xs. file_path (snd y) \<noteq> ?g"
    and ng2: "\<forall>y\<in>set xs. ?p \<noteq> file_path (snd y) @ ''.gz''"
    using Cons.prems(3) x by auto
  have d4: "\<forall>a\<in>set xs. \<not> compressed (snd a) \<longrightarrow> naive_date L (snd a) \<noteq> None"
    using Cons.prems(4) by simp
  show ?case
  proof (cases "eligible L c (fs w) r")
    case False
    have skip: "compress_loop L C (Naive c) (x # xs) t w n s = compress_loop L C (Naive c) xs t w n s"
    proof (cases "compressed r \<or> \<not> os_path_exists (fs w) ?p")
      case True
      then show ?thesis using x by auto
    next
      case ne2: False
      then have "naive_date L r \<noteq> None" using Cons.prems(4) x by simp
      from naive_dateD [OF this] obtain a where a: "parse_date L (download_date r) = Inr (Naive a)"
        by blast
      then have "due L c r = (a < c)" by (simp add: due_def naive_date_def)
      then have "\<not> a < c" using False ne2 by (simp add: eligible_def)
      then show ?thesis using x ne2 a by simp
    qed
    have p5: "\<forall>a\<in>set xs. eligible L c (fs w) (snd a)
           \<longrightarrow> is_file (fs w) (file_path (snd a)) \<and> can_create (fs w) (file_path (snd a) @ ''.gz'')"
      using Cons.prems(5) by simp
    from Cons.IH [OF d1 d2 d3 d4 p5, of t n s] show ?thesis
      unfolding skip using False x by simp
  next
    case True
    then have el: "\<not> compressed r" "os_path_exists (fs w) ?p" "due L c r"
      by (simp_all add: eligible_def)
    then have "naive_date L r \<noteq> None" by (auto simp: due_def split: option.splits)
    from naive_dateD [OF this] obtain a where a: "parse_date L (download_date r) = Inr (Naive a)"
      by blast
    then have ac: "a < c" using el(3) by (simp add: due_def naive_date_def)
    from Cons.prems(5) x True have isf: "is_file (fs w) ?p" and cc: "can_create (fs w) ?g"
      by simp_all
    from compress_record_ok [OF isf cc, of L C eid t n s]
    obtain w1 s1 where
      cr: "compress_record L C eid r t w n s =
           (None,
            t\<lparr>tracking_data := (tracking_data t)
               \<lparr>downloads := AList.update eid (compressed_record L (fs w) r)
                                (downloads (tracking_data t))\<rparr>\<rparr>,
            w1, n + 1, s1)"
      and m1: "\<forall>q. map_of (fs w1) q =
                 (if q = ?p then None
                  else if q = ?g
                  then Some (File (gzip_compress L (file_content (fs w) ?p)) (now C))
                  else map_of (fs w) q)"
      by blast
    let ?t1 = "t\<lparr>tracking_data := (tracking_data t)
               \<lparr>downloads := AList.update eid (compressed_record L (fs w) r)
                                (downloads (tracking_data t))\<rparr>\<rparr>"
    have step: "compress_loop L C (Naive c) (x # xs) t w n s
                = compress_loop L C (Naive c) xs ?t1 w1 (n + 1) s1"
      using x el a ac cr by simp
    have same: "\<And>q. q \<noteq> ?p \<Longrightarrow> q \<noteq> ?g \<Longrightarrow> map_of (fs w1) q = map_of (fs w) q"
      using m1 by simp
    have pf: "\<not> is_dir (fs w) ?p" using isf
      by (auto simp: is_file_def is_dir_def split: option.splits node.splits)
    have gf: "\<not> is_dir (fs w) ?g" using cc by (simp add: can_create_def)
    have dir_same: "is_dir (fs w1) q = is_dir (fs w) q" for q
    proof (cases "q = ?p \<or> q = ?g")
      case True
      then show ?thesis using pf gf m1 gz_neq [of ?p] by (auto simp: is_dir_def)
    next
      case False
      then show ?thesis using same by (simp add: is_dir_def)
    qed
    have cc_same: "can_create (fs w1) q = can_create (fs w) q" for q
      by (simp add: can_create_def dir_same)
    have rest_same: "map_of (fs w1) (file_path (snd y)) = map_of (fs w) (file_path (snd y))"
      if "y \<in> set xs" for y
      using same [of "file_path (snd y)"] np ng1 that by simp
    have el_same: "eligible L c (fs w1) (snd y) = eligible L c (fs w) (snd y)"
      if "y \<in> set xs" for y
      using is_x_cong(3) [OF rest_same [OF that]] by (simp add: eligible_def)
    have cr_same: "compressed_record L (fs w1) (snd y) = compressed_record L (fs w) (snd y)"
      and fc_same: "file_content (fs w1) (file_path (snd y)) = file_content (fs w) (file_path (snd y))"
      if "y \<in> set xs" for y
      using is_x_cong(4) [OF rest_same [OF that]] by (simp_all add: compressed_record_def)
    have p5: "\<forall>y\<in>set xs. eligible L c (fs w1) (snd y)
           \<longrightarrow> is_file (fs w1) (file_path (snd y)) \<and> can_create (fs w1) (file_path (snd y) @ ''.gz'')"
    proof (intro ballI impI)
      fix y assume y: "y \<in> set xs" and "eligible L c (fs w1) (snd y)"
      then have "eligible L c (fs w) (snd y)" using el_same by simp
      then have "is_file (fs w) (file_path (snd y)) \<and> can_create (fs w) (file_path (snd y) @ ''.gz'')"
        using Cons.prems(5) y by simp
      then show "is_file (fs w1) (file_path (snd y)) \<and> can_create (fs w1) (file_path (snd y) @ ''.gz'')"
        using is_x_cong(2) [OF rest_same [OF y]] cc_same by simp
    qed
    from Cons.IH [OF d1 d2 d3 d4 p5, of ?t1 "n + 1" s1]
    obtain t' w' n' s' where
      r: "compress_loop L C (Naive c) xs ?t1 w1 (n + 1) s1 = (None, t', w', n', s')"
      and i1: "\<forall>y\<in>set xs. eligible L c (fs w1) (snd y) \<longrightarrow>
             map_of (downloads (tracking_data t')) (fst y) = Some (compressed_record L (fs w1) (snd y))
           \<and> map_of (fs w') (file_path (snd y)) = None
           \<and> map_of (fs w') (file_path (snd y) @ ''.gz'')
               = Some (File (gzip_compress L (file_content (fs w1) (file_path (snd y)))) (now C))"
      and i2: "\<forall>q. (\<forall>y\<in>set xs. eligible L c (fs w1) (snd y)
                    \<longrightarrow> q \<noteq> file_path (snd y) \<and> q \<noteq> file_path (snd y) @ ''.gz'')
              \<longrightarrow> map_of (fs w') q = map_of (fs w1) q"
      and i3: "\<forall>k. (\<forall>y\<in>set xs. eligible L c (fs w1) (snd y) \<longrightarrow> k \<noteq> fst y)
              \<longrightarrow> map_of (downloads (tracking_data t')) k = map_of (downloads (tracking_data ?t1)) k"
      and i4: "statistics (tracking_data t') = statistics (tracking_data ?t1)"
      and i5: "n + 1 \<le> n'"
      by blast
    have c1: "\<forall>y\<in>set (x # xs). eligible L c (fs w) (snd y) \<longrightarrow>
             map_of (downloads (tracking_data t')) (fst y) = Some (compressed_record L (fs w) (snd y))
           \<and> map_of (fs w') (file_path (snd y)) = None
           \<and> map_of (fs w') (file_path (snd y) @ ''.gz'')
               = Some (File (gzip_compress L (file_content (fs w) (file_path (snd y)))) (now C))"
    proof (intro ballI impI)
      fix y assume y: "y \<in> set (x # xs)" and ey: "eligible L c (fs w) (snd y)"
      show "map_of (downloads (tracking_data t')) (fst y) = Some (compressed_record L (fs w) (snd y))
           \<and> map_of (fs w') (file_path (snd y)) = None
           \<and> map_of (fs w') (file_path (snd y) @ ''.gz'')
               = Some (File (gzip_compress L (file_content (fs w) (file_path (snd y)))) (now C))"
      proof (cases "y = x")
        case True
        have k: "\<forall>z\<in>set xs. eligible L c (fs w1) (snd z) \<longrightarrow> eid \<noteq> fst z"
          using ne by force
        have q1: "\<forall>z\<in>set xs. eligible L c (fs w1) (snd z)
                    \<longrightarrow> ?p \<noteq> file_path (snd z) \<and> ?p \<noteq> file_path (snd z) @ ''.gz''"
          using np ng2 by force
        have q2: "\<forall>z\<in>set xs. eligible L c (fs w1) (snd z)
                    \<longrightarrow> ?g \<noteq> file_path (snd z) \<and> ?g \<noteq> file_path (snd z) @ ''.gz''"
          using np ng1 by force
        have "map_of (downloads (tracking_data t')) eid = map_of (downloads (tracking_data ?t1)) eid"
          using i3 k by blast
        then have a1: "map_of (downloads (tracking_data t')) eid = Some (compressed_record L (fs w) r)"
          by (simp add: map_of_update)
        have "map_of (fs w') ?p = map_of (fs w1) ?p" using i2 q1 by blast
        then have a2: "map_of (fs w') ?p = None" using m1 by simp
        have "map_of (fs w') ?g = map_of (fs w1) ?g" using i2 q2 by blast
        then have a3: "map_of (fs w') ?g
               = Some (File (gzip_compress L (file_content (fs w) ?p)) (now C))"
          using m1 gz_neq [of ?p] by simp
        show ?thesis using True x a1 a2 a3 by simp
      next
        case False
        then have yx: "y \<in> set xs" using y by simp
        then have "eligible L c (fs w1) (snd y)" using ey el_same by simp
        with i1 yx show ?thesis using cr_same [OF yx] fc_same [OF yx] by simp
      qed
    qed
    have c2: "\<forall>q. (\<forall>y\<in>set (x # xs). eligible L c (fs w) (snd y)
                    \<longrightarrow> q \<noteq> file_path (snd y) \<and> q \<noteq> file_path (snd y) @ ''.gz'')
              \<longrightarrow> map_of (fs w') q = map_of (fs w) q"
    proof (intro allI impI)
      fix q assume q: "\<forall>y\<in>set (x # xs). eligible L c (fs w) (snd y)
                    \<longrightarrow> q \<noteq> file_path (snd y) \<and> q \<noteq> file_path (snd y) @ ''.gz''"
      then have qx: "q \<noteq> ?p" "q \<noteq> ?g" using x True by simp_all
      have "\<forall>y\<in>set xs. eligible L c (fs w1) (snd y)
                    \<longrightarrow> q \<noteq> file_path (snd y) \<and> q \<noteq> file_path (snd y) @ ''.gz''"
        using q el_same by simp
      then have "map_of (fs w') q = map_of (fs w1) q" using i2 by blast
      then show "map_of (fs w') q = map_of (fs w) q" using same qx by simp
    qed
    have c3: "\<forall>k. (\<forall>y\<in>set (x # xs). eligible L c (fs w) (snd y) \<longrightarrow> k \<noteq> fst y)
              \<longrightarrow> map_of (downloads (tracking_data t')) k = map_of (downloads (tracking_data t)) k"
    proof (intro allI impI)
      fix k assume k: "\<forall>y\<in>set (x # xs). eligible L c (fs w) (snd y) \<longrightarrow> k \<noteq> fst y"
      then have kx: "k \<noteq> eid" using x True by simp
      have "\<forall>y\<in>set xs. eligible L c (fs w1) (snd y) \<longrightarrow> k \<noteq> fst y"
        using k el_same by simp
      then have "map_of (downloads (tracking_data t')) k = map_of (downloads (tracking_data ?t1)) k"
        using i3 by blast
      then show "map_of (downloads (tracking_data t')) k = map_of (downloads (tracking_data t)) k"
        using kx by (simp add: map_of_update)
    qed
    have c4: "statistics (tracking_data t') = statistics (tracking_data t)"
      using i4 by simp
    have c5: "(n' = n \<longleftrightarrow> (\<forall>y\<in>set (x # xs). \<not> eligible L c (fs w) (snd y))) \<and> n \<le> n'"
      using i5 x True by auto
    show ?thesis
      unfolding step r using c1 c2 c3 c4 c5 by blast
  qed
qed

lemma compress_record_safe:
  assumes "compress_record L C eid r t w n s = (e, t', w', n', s')"
  shows "map_of (fs w') (file_path r) = map_of (fs w) (file_path r)
         \<or> map_of (fs w') (file_path r @ ''.gz'')
              = Some (File (gzip_compress L (file_content (fs w) (file_path r))) (now C))"
proof (cases "os_path_getsize (fs w) (file_path r)")
  case (Inl a)
  then show ?thesis using assms by (simp add: compress_record_def)
next
  case sz: (Inr original_size)
  show ?thesis
  proof (cases "read_file (fs w) (file_path r)")
    case (Inl a)
    then show ?thesis using assms sz by (simp add: compress_record_def)
  next
    case rd: (Inr bytes)
    then have fc: "file_content (fs w) (file_path r) = bytes"
      by (auto simp: read_file_def file_content_def split: option.splits node.splits)
    show ?thesis
    proof (cases "open_w (now C) (fs w) (file_path r @ ''.gz'')")
      case (Inl a)
      then show ?thesis using assms sz rd by (simp add: compress_record_def)
    next
      case ow: (Inr f1)
      let ?g = "file_path r @ ''.gz''"
      let ?f2 = "write_content (now C) f1 ?g (gzip_compress L bytes)"
      have m2: "map_of ?f2 ?g = Some (File (gzip_compress L bytes) (now C))"
        by (simp add: write_content_def map_of_update)
      have ex2: "os_path_exists ?f2 ?g" by (simp add: os_path_exists_def m2)
      have gs2: "os_path_getsize ?f2 ?g = Inr (length (gzip_compress L bytes))"
        by (simp add: os_path_getsize_def m2)
      show ?thesis
      proof (cases "os_remove ?f2 (file_path r)")
        case (Inl a)
        then have "fs w' = ?f2"
          using assms sz rd ow ex2 gs2 by (auto simp: compress_record_def Let_def)
        then show ?thesis using m2 fc by simp
      next
        case (Inr f3)
        then have f3: "f3 = AList.delete (file_path r) ?f2"
          by (auto simp: os_remove_def split: option.splits node.splits)
        have "fs w' = f3"
          using assms sz rd ow ex2 gs2 Inr by (auto simp: compress_record_def Let_def fs_logmsg)
        then show ?thesis
          using m2 fc f3 gz_neq [of "file_path r"] by (simp add: map_of_delete)
      qed
    qed
  qed
qed

text \<open>
  C5, as amended. On a store with distinct ids and distinct paths, in which no
  tracked path is another tracked path followed by \<^verbatim>\<open>.gz\<close>, every uncompressed
  record has a naive download date, and the file of every eligible record is a
  regular file whose \<^verbatim>\<open>.gz\<close> neighbour can be created: after
  \<^verbatim>\<open>compress_old_files\<close> every eligible record is compressed, points at the new
  path and carries the on-disk size of the compressed output; the original path no
  longer exists and the new path holds the compressed bytes. And in every state, the
  step that compresses one record leaves either the original in place or the
  compressed output on disk.
\<close>

theorem compress_old_files_eligible:
  assumes "distinct (map fst (downloads (tracking_data t)))"
    and "distinct (map (\<lambda>x. file_path (snd x)) (downloads (tracking_data t)))"
    and "\<forall>x\<in>set (downloads (tracking_data t)). \<forall>y\<in>set (downloads (tracking_data t)).
           file_path (snd y) \<noteq> file_path (snd x) @ ''.gz''"
    and "\<forall>x\<in>set (downloads (tracking_data t)).
           \<not> compressed (snd x) \<longrightarrow> naive_date L (snd x) \<noteq> None"
    and "\<forall>x\<in>set (downloads (tracking_data t)).
           eligible L (now C - timedelta_days d) (fs w) (snd x)
           \<longrightarrow> is_file (fs w) (file_path (snd x))
               \<and> can_create (fs w) (file_path (snd x) @ ''.gz'')"
    and "compress_old_files L C d t w = ((compressed_count, space_saved_mb), t', w')"
  shows "(\<forall>x\<in>set (downloads (tracking_data t)).
            eligible L (now C - timedelta_days d) (fs w) (snd x) \<longrightarrow>
              map_of (downloads (tracking_data t')) (fst x)
                = Some ((snd x)\<lparr>file_path := file_path (snd x) @ ''.gz'', compressed := True,
                          file_size := int (disk_size (fs w') (file_path (snd x) @ ''.gz''))\<rparr>)
              \<and> \<not> os_path_exists (fs w') (file_path (snd x))
              \<and> map_of (fs w') (file_path (snd x) @ ''.gz'')
                  = Some (File (gzip_compress L (file_content (fs w) (file_path (snd x)))) (now C)))
       \<and> (\<forall>eid r t0 w0 n0 s0 e t1 w1 n1 s1.
             compress_record L C eid r t0 w0 n0 s0 = (e, t1, w1, n1, s1) \<longrightarrow>
               map_of (fs w1) (file_path r) = map_of (fs w0) (file_path r)
               \<or> map_of (fs w1) (file_path r @ ''.gz'')
                    = Some (File (gzip_compress L (file_content (fs w0) (file_path r))) (now C)))"
proof -
  let ?ds = "downloads (tracking_data t)"
  let ?c = "now C - timedelta_days d"
  from compress_loop_ok [OF assms(1-5), of C t 0 0]
  obtain t1 w1 n1 s1 where
    r: "compress_loop L C (Naive ?c) ?ds t w 0 0 = (None, t1, w1, n1, s1)"
    and i1: "\<forall>x\<in>set ?ds. eligible L ?c (fs w) (snd x) \<longrightarrow>
             map_of (downloads (tracking_data t1)) (fst x) = Some (compressed_record L (fs w) (snd x))
           \<and> map_of (fs w1) (file_path (snd x)) = None
           \<and> map_of (fs w1) (file_path (snd x) @ ''.gz'')
               = Some (File (gzip_compress L (file_content (fs w) (file_path (snd x)))) (now C))"
    by blast
  have "downloads (tracking_data t') = downloads (tracking_data t1) \<and> fs w' = fs w1"
    using assms(6) r by (auto simp: compress_old_files_def Let_def fs_logmsg split: if_splits)
  then have dt: "downloads (tracking_data t') = downloads (tracking_data t1)"
    and fw: "fs w' = fs w1" by simp_all
  have a: "\<forall>x\<in>set ?ds. eligible L ?c (fs w) (snd x) \<longrightarrow>
              map_of (downloads (tracking_data t')) (fst x)
                = Some ((snd x)\<lparr>file_path := file_path (snd x) @ ''.gz'', compressed := True,
                          file_size := int (disk_size (fs w') (file_path (snd x) @ ''.gz''))\<rparr>)
              \<and> \<not> os_path_exists (fs w') (file_path (snd x))
              \<and> map_of (fs w') (file_path (snd x) @ ''.gz'')
                  = Some (File (gzip_compress L (file_content (fs w) (file_path (snd x)))) (now C))"
  proof (intro ballI impI)
    fix x assume "x \<in> set ?ds" and "eligible L ?c (fs w) (snd x)"
    with i1 have m: "map_of (downloads (tracking_data t1)) (fst x)
                       = Some (compressed_record L (fs w) (snd x))"
      and p: "map_of (fs w1) (file_path (snd x)) = None"
      and g: "map_of (fs w1) (file_path (snd x) @ ''.gz'')
               = Some (File (gzip_compress L (file_content (fs w) (file_path (snd x)))) (now C))"
      by blast+
    have "disk_size (fs w1) (file_path (snd x) @ ''.gz'')
          = length (gzip_compress L (file_content (fs w) (file_path (snd x))))"
      using g by (simp add: disk_size_def)
    then show "map_of (downloads (tracking_data t')) (fst x)
                = Some ((snd x)\<lparr>file_path := file_path (snd x) @ ''.gz'', compressed := True,
                          file_size := int (disk_size (fs w') (file_path (snd x) @ ''.gz''))\<rparr>)
              \<and> \<not> os_path_exists (fs w') (file_path (snd x))
              \<and> map_of (fs w') (file_path (snd x) @ ''.gz'')
                  = Some (File (gzip_compress L (file_content (fs w) (file_path (snd x)))) (now C))"
      using m p g by (simp add: dt fw compressed_record_def os_path_exists_def)
  qed
  have b: "\<forall>eid r t0 w0 n0 s0 e t1 w1 n1 s1.
             compress_record L C eid r t0 w0 n0 s0 = (e, t1, w1, n1, s1) \<longrightarrow>
               map_of (fs w1) (file_path r) = map_of (fs w0) (file_path r)
               \<or> map_of (fs w1) (file_path r @ ''.gz'')
                    = Some (File (gzip_compress L (file_content (fs w0) (file_path r))) (now C))"
    using compress_record_safe by blast
  show ?thesis
    using a b by blast
qed

theorem compress_old_files_eligible_witness:
  "distinct (map fst compress_example)
   \<and> distinct (map (\<lambda>x. file_path (snd x)) compress_example)
   \<and> eligible ref_lib (now ref_clock - timedelta_days 7) (fs capacity_world) (snd (compress_example ! 0))
   \<and> is_file (fs capacity_world) ''dl/A.pdf''
   \<and> can_create (fs capacity_world) ''dl/A.pdf.gz''
   \<and> fst (compress_old_files ref_lib ref_clock 7 (mk_tracker compress_example) capacity_world)
       = (2, - (6 / 1048576))
   \<and> map_of (downloads (tracking_data (fst (snd
        (compress_old_files ref_lib ref_clock 7 (mk_tracker compress_example) capacity_world)))))
        ''A''
       = Some (mk_record ''A'' ''2024-11-01T00:00:00'' 9 ''dl/A.pdf.gz'' (Some ''sha256:AAAAAA'') True)
   \<and> \<not> os_path_exists
        (fs (snd (snd (compress_old_files ref_lib ref_clock 7 (mk_tracker compress_example)
                         capacity_world))))
        ''dl/A.pdf''
   \<and> map_of
        (fs (snd (snd (compress_old_files ref_lib ref_clock 7 (mk_tracker compress_example)
                         capacity_world))))
        ''dl/A.pdf.gz''
       = Some (File ''gz:AAAAAA'' 1735689600000000)"
proof -
  let ?t = "mk_tracker compress_example"
  let ?w = capacity_world
  let ?ds = "downloads (tracking_data ?t)"
  have h1: "distinct (map fst ?ds)" by code_simp
  have h2: "distinct (map (\<lambda>x. file_path (snd x)) ?ds)" by code_simp
  have h3: "\<forall>x\<in>set ?ds. \<forall>y\<in>set ?ds. file_path (snd y) \<noteq> file_path (snd x) @ ''.gz''"
    by code_simp
  have h4: "\<forall>x\<in>set ?ds. \<not> compressed (snd x) \<longrightarrow> naive_date ref_lib (snd x) \<noteq> None"
    by code_simp
  have h5: "\<forall>x\<in>set ?ds. eligible ref_lib (now ref_clock - timedelta_days 7) (fs ?w) (snd x)
           \<longrightarrow> is_file (fs ?w) (file_path (snd x)) \<and> can_create (fs ?w) (file_path (snd x) @ ''.gz'')"
    by code_simp
  let ?t' = "?t\<lparr>tracking_data := (tracking_data ?t)
          \<lparr>downloads :=
             [(''A'', mk_record ''A'' ''2024-11-01T00:00:00'' 9 ''dl/A.pdf.gz'' (Some ''sha256:AAAAAA'') True),
              (''C'', mk_record ''C'' ''2024-12-30T00:00:00'' 2 ''dl/C.pdf'' None False),
              (''B'', mk_record ''B'' ''2024-12-20T00:00:00'' 6 ''dl/B.pdf.gz'' None True)],
           statistics := \<lparr>total_downloads = 3, total_size_mb = 0, last_cleanup = None,
                          last_compression = Some ''2025-01-01T00:00:00''\<rparr>\<rparr>\<rparr>"
  let ?w' = "\<lparr>fs = [(''dl'', Dir 0), (''dl/C.pdf'', File ''CC'' 0),
                    (''dl/A.pdf.gz'', File ''gz:AAAAAA'' 1735689600000000),
                    (''dl/B.pdf.gz'', File ''gz:BBB'' 1735689600000000)],
               log = [INFO, INFO, INFO]\<rparr>"
  have ev: "compress_old_files ref_lib ref_clock 7 ?t ?w = ((2, - (6 / 1048576)), ?t', ?w')"
    by code_simp
  have xa: "compress_example ! 0 \<in> set ?ds" by code_simp
  have ea: "eligible ref_lib (now ref_clock - timedelta_days 7) (fs ?w) (snd (compress_example ! 0))"
    by code_simp
  from compress_old_files_eligible [OF h1 h2 h3 h4 h5 ev]
  have all: "\<forall>x\<in>set ?ds.
            eligible ref_lib (now ref_clock - timedelta_days 7) (fs ?w) (snd x) \<longrightarrow>
              map_of (downloads (tracking_data ?t')) (fst x)
                = Some ((snd x)\<lparr>file_path := file_path (snd x) @ ''.gz'', compressed := True,
                          file_size := int (disk_size (fs ?w') (file_path (snd x) @ ''.gz''))\<rparr>)
              \<and> \<not> os_path_exists (fs ?w') (file_path (snd x))
              \<and> map_of (fs ?w') (file_path (snd x) @ ''.gz'')
                  = Some (File (gzip_compress ref_lib (file_content (fs ?w) (file_path (snd x))))
                            (now ref_clock))"
    by (rule conjunct1)
  from bspec [OF all xa] ea
  have inst: "\<not> os_path_exists (fs ?w') (file_path (snd (compress_example ! 0)))
              \<and> map_of (fs ?w') (file_path (snd (compress_example ! 0)) @ ''.gz'')
                  = Some (File (gzip_compress ref_lib
                                  (file_content (fs ?w) (file_path (snd (compress_example ! 0)))))
                            (now ref_clock))"
    by blast
  have pa: "file_path (snd (compress_example ! 0)) = ''dl/A.pdf''"
    by (simp add: compress_example_def mk_record_def)
  have fc: "file_content (fs ?w) ''dl/A.pdf'' = ''AAAAAA''"
    by (simp add: file_content_def capacity_world_def)
  have p: "\<not> os_path_exists (fs ?w') ''dl/A.pdf''"
    and g: "map_of (fs ?w') ''dl/A.pdf.gz'' = Some (File ''gz:AAAAAA'' 1735689600000000)"
    using inst unfolding pa fc by (simp_all add: ref_lib_def ref_clock_def)
  have r1: "fst (compress_old_files ref_lib ref_clock 7 ?t ?w) = (2, - (6 / 1048576))"
    using ev by simp
  have r2: "map_of (downloads (tracking_data (fst (snd
        (compress_old_files ref_lib ref_clock 7 ?t ?w))))) ''A''
       = Some (mk_record ''A'' ''2024-11-01T00:00:00'' 9 ''dl/A.pdf.gz'' (Some ''sha256:AAAAAA'') True)"
    using ev by simp
  have r3: "\<not> os_path_exists
        (fs (snd (snd (compress_old_files ref_lib ref_clock 7 ?t ?w)))) ''dl/A.pdf''"
    using ev p by simp
  have r4: "map_of
        (fs (snd (snd (compress_old_files ref_lib ref_clock 7 ?t ?w)))) ''dl/A.pdf.gz''
       = Some (File ''gz:AAAAAA'' 1735689600000000)"
    using ev g by simp
  have b: "distinct (map fst compress_example)"
    "distinct (map (\<lambda>x. file_path (snd x)) compress_example)"
    "is_file (fs ?w) ''dl/A.pdf''" "can_create (fs ?w) ''dl/A.pdf.gz''"
    by code_simp+
  show ?thesis
    using b ea r1 r2 r3 r4 by blast
qed

text \<open>
  C5 as stated fails. In the first run the first eligible record points at a
  directory: reading it raises, the pass is abandoned, and the second eligible record
  is left uncompressed. In the second run nothing fails, but the path of \<^verbatim>\<open>B\<close> is
  the path of \<^verbatim>\<open>A\<close> followed by \<^verbatim>\<open>.gz\<close>: compressing \<^verbatim>\<open>A\<close> overwrites the
  file of \<^verbatim>\<open>B\<close>, compressing \<^verbatim>\<open>B\<close> then removes it, and the record of \<^verbatim>\<open>A\<close>
  ends up pointing at a path that does not exist.
\<close>

theorem compress_old_files_counterexample:
  "compress_old_files ref_lib ref_clock 7
        (mk_tracker [(''A'', mk_record ''A'' ''2024-11-01T00:00:00'' 5 ''dl/A'' None False),
                     (''B'', mk_record ''B'' ''2024-11-02T00:00:00'' 3 ''dl/B.pdf'' None False)])
        \<lparr>fs = [(''dl'', Dir 0), (''dl/A'', Dir 0), (''dl/B.pdf'', File ''BBB'' 0)], log = []\<rparr>
   = ((0, 0),
      mk_tracker [(''A'', mk_record ''A'' ''2024-11-01T00:00:00'' 5 ''dl/A'' None False),
                  (''B'', mk_record ''B'' ''2024-11-02T00:00:00'' 3 ''dl/B.pdf'' None False)],
      \<lparr>fs = [(''dl'', Dir 0), (''dl/A'', Dir 0), (''dl/B.pdf'', File ''BBB'' 0)], log = [ERROR]\<rparr>)
   \<and> eligible ref_lib (now ref_clock - timedelta_days 7)
        [(''dl'', Dir 0), (''dl/A'', Dir 0), (''dl/B.pdf'', File ''BBB'' 0)]
        (mk_record ''B'' ''2024-11-02T00:00:00'' 3 ''dl/B.pdf'' None False)
   \<and> compress_old_files ref_lib ref_clock 7
        (mk_tracker [(''A'', mk_record ''A'' ''2024-11-01T00:00:00'' 3 ''dl/a.pdf'' None False),
                     (''B'', mk_record ''B'' ''2024-11-02T00:00:00'' 3 ''dl/a.pdf.gz'' None False)])
        \<lparr>fs = [(''dl'', Dir 0), (''dl/a.pdf'', File ''AAA'' 0), (''dl/a.pdf.gz'', File ''BBB'' 0)],
          log = []\<rparr>
   = ((2, - (6 / 1048576)),
      \<lparr>tracking_file = ''data/tracking.json'', download_dir = ''dl'',
        backup_dir = ''data/backups'',
        tracking_data =
          \<lparr>version = ''1.0'', created = Some ''2024-01-01T00:00:00'',
           last_updated = ''2024-01-01T00:00:00'',
           downloads =
             [(''A'', mk_record ''A'' ''2024-11-01T00:00:00'' 6 ''dl/a.pdf.gz'' None True),
              (''B'', mk_record ''B'' ''2024-11-02T00:00:00'' 9 ''dl/a.pdf.gz.gz'' None True)],
           statistics = \<lparr>total_downloads = 2, total_size_mb = 0, last_cleanup = None,
                          last_compression = Some ''2025-01-01T00:00:00''\<rparr>\<rparr>\<rparr>,
      \<lparr>fs = [(''dl'', Dir 0), (''dl/a.pdf.gz.gz'', File ''gz:gz:AAA'' 1735689600000000)],
        log = [INFO, INFO, INFO]\<rparr>)
   \<and> \<not> os_path_exists
         [(''dl'', Dir 0), (''dl/a.pdf.gz.gz'', File ''gz:gz:AAA'' 1735689600000000)]
         ''dl/a.pdf.gz''"
  by code_simp

section \<open>A failure at one record\<close>

lemma remove_tracked_file_dir:
  "is_dir (fs w) p \<Longrightarrow> remove_tracked_file p w = Inl IsADirectoryError"
  by (auto simp: is_dir_def remove_tracked_file_def os_path_exists_def os_path_getsize_def
      os_remove_def split: option.splits node.splits)

lemma untrack_downloads:
  "untrack eid t = Inr t' \<Longrightarrow>
   downloads (tracking_data t') = AList.delete eid (downloads (tracking_data t))"
  by (auto simp: untrack_def split: option.splits)

subsection \<open>A loop over a list that continues after a prefix without failure\<close>

lemma remove_loop_append:
  "remove_loop pre t w n s = (None, ta, wa, na, sa) \<Longrightarrow>
   remove_loop (pre @ ys) t w n s = remove_loop ys ta wa na sa"
proof (induction pre arbitrary: t w n s)
  case Nil
  then show ?case by simp
next
  case (Cons x pre)
  obtain eid r where x: "x = (eid, r)" by (cases x)
  show ?case
  proof (cases "remove_tracked_file (file_path r) w")
    case (Inl a)
    then show ?thesis using Cons.prems x by simp
  next
    case (Inr b)
    obtain w1 freed where b: "b = (w1, freed)" by (cases b)
    show ?thesis
    proof (cases "untrack eid t")
      case (Inl a)
      then show ?thesis using Cons.prems x Inr b by simp
    next
      case u: (Inr t1)
      have "remove_loop pre t1 w1 (n + 1) (s + freed) = (None, ta, wa, na, sa)"
        using Cons.prems x Inr b u by simp
      from Cons.IH [OF this] show ?thesis using x Inr b u by simp
    qed
  qed
qed

lemma limit_loop_append:
  "limit_loop mx pre cur t w n s = (None, ta, wa, na, sa) \<Longrightarrow> mx < cur - (sa - s) \<Longrightarrow>
   limit_loop mx (pre @ ys) cur t w n s = limit_loop mx ys (cur - (sa - s)) ta wa na sa
   \<and> na = n + int (length pre)"
proof (induction pre arbitrary: cur t w n s)
  case Nil
  then show ?case by simp
next
  case (Cons x pre)
  obtain dt eid r where x: "x = (dt, eid, r)" by (cases x)
  show ?case
  proof (cases "cur \<le> mx")
    case True
    then have "sa = s" using Cons.prems(1) x by simp
    then show ?thesis using Cons.prems(2) True by simp
  next
    case over: False
    show ?thesis
    proof (cases "remove_tracked_file (file_path r) w")
      case (Inl a)
      then show ?thesis using Cons.prems x over by simp
    next
      case (Inr b)
      obtain w1 freed where b: "b = (w1, freed)" by (cases b)
      show ?thesis
      proof (cases "untrack eid t")
        case (Inl a)
        then show ?thesis using Cons.prems x over Inr b by simp
      next
        case u: (Inr t1)
        have l: "limit_loop mx pre (cur - freed) t1 w1 (n + 1) (s + freed) = (None, ta, wa, na, sa)"
          using Cons.prems x over Inr b u by simp
        have c: "cur - freed - (sa - (s + freed)) = cur - (sa - s)" by simp
        have "mx < cur - freed - (sa - (s + freed))" using Cons.prems(2) c by simp
        from Cons.IH [OF l this] show ?thesis using x over Inr b u c by simp
      qed
    qed
  qed
qed

lemma remove_loop_count:
  "remove_loop xs t w n s = (None, ta, wa, na, sa) \<Longrightarrow> na = n + int (length xs)"
proof (induction xs arbitrary: t w n s)
  case Nil
  then show ?case by simp
next
  case (Cons x xs)
  obtain eid r where x: "x = (eid, r)" by (cases x)
  show ?case
  proof (cases "remove_tracked_file (file_path r) w")
    case (Inl a)
    then show ?thesis using Cons.prems x by simp
  next
    case (Inr b)
    obtain w1 freed where b: "b = (w1, freed)" by (cases b)
    show ?thesis
    proof (cases "untrack eid t")
      case (Inl a)
      then show ?thesis using Cons.prems x Inr b by simp
    next
      case u: (Inr t1)
      have "remove_loop xs t1 w1 (n + 1) (s + freed) = (None, ta, wa, na, sa)"
        using Cons.prems x Inr b u by simp
      from Cons.IH [OF this] show ?thesis by simp
    qed
  qed
qed

lemma compress_loop_append:
  "compress_loop L C c pre t w n s = (None, ta, wa, na, sa) \<Longrightarrow>
   compress_loop L C c (pre @ ys) t w n s = compress_loop L C c ys ta wa na sa"
proof (induction pre arbitrary: t w n s)
  case Nil
  then show ?case by simp
next
  case (Cons x pre)
  obtain eid r where x: "x = (eid, r)" by (cases x)
  show ?case
  proof (cases "compressed r \<or> \<not> os_path_exists (fs w) (file_path r)")
    case True
    then have "compress_loop L C c pre t w n s = (None, ta, wa, na, sa)"
      using Cons.prems x by auto
    from Cons.IH [OF this] show ?thesis using x True by auto
  next
    case ne: False
    show ?thesis
    proof (cases "parse_date L (download_date r)")
      case (Inl a)
      then show ?thesis using Cons.prems x ne by simp
    next
      case pd: (Inr dt)
      show ?thesis
      proof (cases "dt_less dt c")
        case (Inl a)
        then show ?thesis using Cons.prems x ne pd by simp
      next
        case lt: (Inr b)
        show ?thesis
        proof (cases b)
          case False
          then have "compress_loop L C c pre t w n s = (None, ta, wa, na, sa)"
            using Cons.prems x ne pd lt by simp
          from Cons.IH [OF this] show ?thesis using x ne pd lt False by simp
        next
          case True
          obtain e t1 w1 n1 s1 where cr: "compress_record L C eid r t w n s = (e, t1, w1, n1, s1)"
            by (metis surj_pair)
          show ?thesis
          proof (cases e)
            case (Some a)
            then show ?thesis using Cons.prems x ne pd lt True cr by simp
          next
            case None
            then have "compress_loop L C c pre t1 w1 n1 s1 = (None, ta, wa, na, sa)"
              using Cons.prems x ne pd lt True cr by simp
            from Cons.IH [OF this] show ?thesis using x ne pd lt True cr None by simp
          qed
        qed
      qed
    qed
  qed
qed

subsection \<open>What a loop leaves untouched\<close>

lemma remove_loop_untouched:
  "remove_loop xs t w n s = (e, t', w', n', s') \<Longrightarrow>
   (\<forall>y\<in>set (downloads (tracking_data t)).
       fst y \<notin> fst ` set xs \<longrightarrow> y \<in> set (downloads (tracking_data t')))
   \<and> (\<forall>q. q \<notin> (\<lambda>x. file_path (snd x)) ` set xs \<longrightarrow> map_of (fs w') q = map_of (fs w) q)"
proof (induction xs arbitrary: t w n s)
  case Nil
  then show ?case by simp
next
  case (Cons x xs)
  obtain eid r where x: "x = (eid, r)" by (cases x)
  show ?case
  proof (cases "remove_tracked_file (file_path r) w")
    case (Inl a)
    then show ?thesis using Cons.prems x by simp
  next
    case (Inr b)
    obtain w1 freed where b: "b = (w1, freed)" by (cases b)
    from remove_tracked_file_frame [of "file_path r" w w1 freed] Inr b
    have f1: "fs w1 = AList.delete (file_path r) (fs w)" by simp
    show ?thesis
    proof (cases "untrack eid t")
      case (Inl a)
      then show ?thesis using Cons.prems x Inr b f1 by (simp add: map_of_delete)
    next
      case u: (Inr t1)
      note d1 = untrack_downloads [OF u]
      have "remove_loop xs t1 w1 (n + 1) (s + freed) = (e, t', w', n', s')"
        using Cons.prems x Inr b u by simp
      from Cons.IH [OF this]
      have i1: "\<forall>y\<in>set (downloads (tracking_data t1)).
                  fst y \<notin> fst ` set xs \<longrightarrow> y \<in> set (downloads (tracking_data t'))"
        and i2: "\<forall>q. q \<notin> (\<lambda>x. file_path (snd x)) ` set xs \<longrightarrow> map_of (fs w') q = map_of (fs w1) q"
        by simp_all
      have c1: "\<forall>y\<in>set (downloads (tracking_data t)).
                  fst y \<notin> fst ` set (x # xs) \<longrightarrow> y \<in> set (downloads (tracking_data t'))"
        using i1 x by (auto simp: d1 delete_as_filter)
      have c2: "\<forall>q. q \<notin> (\<lambda>x. file_path (snd x)) ` set (x # xs) \<longrightarrow> map_of (fs w') q = map_of (fs w) q"
        using i2 x by (simp add: f1 map_of_delete)
      show ?thesis using c1 c2 by blast
    qed
  qed
qed

lemma limit_loop_untouched:
  "limit_loop mx xs cur t w n s = (e, t', w', n', s') \<Longrightarrow>
   (\<forall>y\<in>set (downloads (tracking_data t)).
       fst y \<notin> (\<lambda>x. fst (snd x)) ` set xs \<longrightarrow> y \<in> set (downloads (tracking_data t')))
   \<and> (\<forall>q. q \<notin> (\<lambda>x. file_path (snd (snd x))) ` set xs \<longrightarrow> map_of (fs w') q = map_of (fs w) q)"
proof (induction xs arbitrary: cur t w n s)
  case Nil
  then show ?case by simp
next
  case (Cons x xs)
  obtain dt eid r where x: "x = (dt, eid, r)" by (cases x)
  show ?case
  proof (cases "cur \<le> mx")
    case True
    then show ?thesis using Cons.prems x by simp
  next
    case over: False
    show ?thesis
    proof (cases "remove_tracked_file (file_path r) w")
      case (Inl a)
      then show ?thesis using Cons.prems x over by simp
    next
      case (Inr b)
      obtain w1 freed where b: "b = (w1, freed)" by (cases b)
      from remove_tracked_file_frame [of "file_path r" w w1 freed] Inr b
      have f1: "fs w1 = AList.delete (file_path r) (fs w)" by simp
      show ?thesis
      proof (cases "untrack eid t")
        case (Inl a)
        then show ?thesis using Cons.prems x over Inr b f1 by (simp add: map_of_delete)
      next
        case u: (Inr t1)
        note d1 = untrack_downloads [OF u]
        have "limit_loop mx xs (cur - freed) t1 w1 (n + 1) (s + freed) = (e, t', w', n', s')"
          using Cons.prems x over Inr b u by simp
        from Cons.IH [OF this]
        have i1: "\<forall>y\<in>set (downloads (tracking_data t1)).
                    fst y \<notin> (\<lambda>x. fst (snd x)) ` set xs \<longrightarrow> y \<in> set (downloads (tracking_data t'))"
          and i2: "\<forall>q. q \<notin> (\<lambda>x. file_path (snd (snd x))) ` set xs
                        \<longrightarrow> map_of (fs w') q = map_of (fs w1) q"
          by simp_all
        have c1: "\<forall>y\<in>set (downloads (tracking_data t)).
                    fst y \<notin> (\<lambda>x. fst (snd x)) ` set (x # xs)
                    \<longrightarrow> y \<in> set (downloads (tracking_data t'))"
          using i1 x by (auto simp: d1 delete_as_filter)
        have c2: "\<forall>q. q \<notin> (\<lambda>x. file_path (snd (snd x))) ` set (x # xs)
                        \<longrightarrow> map_of (fs w') q = map_of (fs w) q"
          using i2 x by (simp add: f1 map_of_delete)
        show ?thesis using c1 c2 by blast
      qed
    qed
  qed
qed

lemma open_w_frame: "open_w tm f p = Inr f1 \<Longrightarrow> f1 = AList.update p (File [] tm) f"
  by (auto simp: open_w_def split: option.splits node.splits if_splits)

lemma compress_record_untouched:
  assumes "compress_record L C eid r t w n s = (e, t', w', n', s')"
  shows "(\<forall>k. k \<noteq> eid \<longrightarrow> map_of (downloads (tracking_data t')) k
                              = map_of (downloads (tracking_data t)) k)
       \<and> (\<forall>q. q \<noteq> file_path r \<and> q \<noteq> file_path r @ ''.gz''
              \<longrightarrow> map_of (fs w') q = map_of (fs w) q)
       \<and> statistics (tracking_data t') = statistics (tracking_data t)"
proof (cases "os_path_getsize (fs w) (file_path r)")
  case (Inl a)
  then show ?thesis using assms by (auto simp: compress_record_def)
next
  case sz: (Inr original_size)
  show ?thesis
  proof (cases "read_file (fs w) (file_path r)")
    case (Inl a)
    then show ?thesis using assms sz by (auto simp: compress_record_def)
  next
    case rd: (Inr bytes)
    show ?thesis
    proof (cases "open_w (now C) (fs w) (file_path r @ ''.gz'')")
      case (Inl a)
      then show ?thesis using assms sz rd by (auto simp: compress_record_def)
    next
      case ow: (Inr f1)
      let ?g = "file_path r @ ''.gz''"
      let ?f2 = "write_content (now C) f1 ?g (gzip_compress L bytes)"
      note f1 = open_w_frame [OF ow]
      have m2: "\<And>q. q \<noteq> ?g \<Longrightarrow> map_of ?f2 q = map_of (fs w) q"
        by (simp add: write_content_def map_of_update f1)
      have mg: "map_of ?f2 ?g = Some (File (gzip_compress L bytes) (now C))"
        by (simp add: write_content_def map_of_update)
      have ex2: "os_path_exists ?f2 ?g" by (simp add: os_path_exists_def mg)
      have gs2: "os_path_getsize ?f2 ?g = Inr (length (gzip_compress L bytes))"
        by (simp add: os_path_getsize_def mg)
      show ?thesis
      proof (cases "os_remove ?f2 (file_path r)")
        case (Inl a)
        then have "fs w' = ?f2 \<and> t' = t"
          using assms sz rd ow ex2 gs2 by (auto simp: compress_record_def Let_def)
        then show ?thesis using m2 by simp
      next
        case (Inr f3)
        then have f3: "f3 = AList.delete (file_path r) ?f2"
          by (auto simp: os_remove_def split: option.splits node.splits)
        have "fs w' = f3
              \<and> t' = t\<lparr>tracking_data := (tracking_data t)
                      \<lparr>downloads :=
                         AList.update eid
                           (r\<lparr>file_path := ?g, compressed := True,
                              file_size := int (length (gzip_compress L bytes))\<rparr>)
                           (downloads (tracking_data t))\<rparr>\<rparr>"
          using assms sz rd ow ex2 gs2 Inr by (auto simp: compress_record_def Let_def fs_logmsg)
        then show ?thesis
          using m2 f3 by (simp add: map_of_delete map_of_update)
      qed
    qed
  qed
qed

lemma compress_loop_untouched:
  "compress_loop L C c xs t w n s = (e, t', w', n', s') \<Longrightarrow>
   (\<forall>k. k \<notin> fst ` set xs \<longrightarrow> map_of (downloads (tracking_data t')) k
                                  = map_of (downloads (tracking_data t)) k)
   \<and> (\<forall>q. q \<notin> (\<lambda>x. file_path (snd x)) ` set xs
          \<and> q \<notin> (\<lambda>x. file_path (snd x) @ ''.gz'') ` set xs
          \<longrightarrow> map_of (fs w') q = map_of (fs w) q)
   \<and> statistics (tracking_data t') = statistics (tracking_data t)"
proof (induction xs arbitrary: t w n s)
  case Nil
  then show ?case by simp
next
  case (Cons x xs)
  obtain eid r where x: "x = (eid, r)" by (cases x)
  have weaken: "?case"
    if l: "compress_loop L C c xs t1 w1 n1 s1 = (e, t', w', n', s')"
      and k1: "\<forall>k. k \<noteq> eid \<longrightarrow> map_of (downloads (tracking_data t1)) k
                                  = map_of (downloads (tracking_data t)) k"
      and q1: "\<forall>q. q \<noteq> file_path r \<and> q \<noteq> file_path r @ ''.gz''
                  \<longrightarrow> map_of (fs w1) q = map_of (fs w) q"
      and s1: "statistics (tracking_data t1) = statistics (tracking_data t)"
    for t1 w1 n1 s1
  proof -
    from Cons.IH [OF l]
    have i1: "\<forall>k. k \<notin> fst ` set xs \<longrightarrow> map_of (downloads (tracking_data t')) k
                                  = map_of (downloads (tracking_data t1)) k"
      and i2: "\<forall>q. q \<notin> (\<lambda>x. file_path (snd x)) ` set xs
          \<and> q \<notin> (\<lambda>x. file_path (snd x) @ ''.gz'') ` set xs
          \<longrightarrow> map_of (fs w') q = map_of (fs w1) q"
      and i3: "statistics (tracking_data t') = statistics (tracking_data t1)"
      by simp_all
    have c1: "\<forall>k. k \<notin> fst ` set (x # xs) \<longrightarrow> map_of (downloads (tracking_data t')) k
                                  = map_of (downloads (tracking_data t)) k"
      using i1 k1 x by simp
    have c2: "\<forall>q. q \<notin> (\<lambda>x. file_path (snd x)) ` set (x # xs)
          \<and> q \<notin> (\<lambda>x. file_path (snd x) @ ''.gz'') ` set (x # xs)
          \<longrightarrow> map_of (fs w') q = map_of (fs w) q"
      using i2 q1 x by simp
    show ?thesis using c1 c2 i3 s1 by simp
  qed
  show ?case
  proof (cases "compressed r \<or> \<not> os_path_exists (fs w) (file_path r)")
    case True
    then have "compress_loop L C c xs t w n s = (e, t', w', n', s')"
      using Cons.prems x by auto
    then show ?thesis by (rule weaken) simp_all
  next
    case ne: False
    show ?thesis
    proof (cases "parse_date L (download_date r)")
      case (Inl a)
      then show ?thesis using Cons.prems x ne by simp
    next
      case pd: (Inr dt)
      show ?thesis
      proof (cases "dt_less dt c")
        case (Inl a)
        then show ?thesis using Cons.prems x ne pd by simp
      next
        case lt: (Inr b)
        show ?thesis
        proof (cases b)
          case False
          then have "compress_loop L C c xs t w n s = (e, t', w', n', s')"
            using Cons.prems x ne pd lt by simp
          then show ?thesis by (rule weaken) simp_all
        next
          case True
          obtain e1 t1 w1 n1 s1 where cr: "compress_record L C eid r t w n s = (e1, t1, w1, n1, s1)"
            by (metis surj_pair)
          note u = compress_record_untouched [OF cr]
          show ?thesis
          proof (cases e1)
            case (Some a)
            then have "t' = t1" "w' = w1"
              using Cons.prems x ne pd lt True cr by simp_all
            then show ?thesis using u x by simp
          next
            case None
            then have l: "compress_loop L C c xs t1 w1 n1 s1 = (e, t', w', n', s')"
              using Cons.prems x ne pd lt True cr by simp
            show ?thesis by (rule weaken [OF l]) (use u in simp_all)
          qed
        qed
      qed
    qed
  qed
qed

subsection \<open>The pass that meets a failure\<close>

lemma age_pass_failure:
  assumes "collect_old L (Naive (now C - timedelta_days d)) (downloads (tracking_data t)) []
             = Inr (pre @ (eid, r) # post)"
    and "remove_loop pre t w 0 0 = (None, ta, wa, na, sa)"
    and "is_dir (fs wa) (file_path r)"
  shows "cleanup_old_files L C d t w = ((int (length pre), sa), ta, logmsg ERROR wa)
       \<and> statistics (tracking_data ta) = statistics (tracking_data t)
       \<and> (\<forall>y\<in>set (downloads (tracking_data t)).
             fst y \<notin> fst ` set pre \<longrightarrow> y \<in> set (downloads (tracking_data ta)))
       \<and> (\<forall>q. q \<notin> (\<lambda>x. file_path (snd x)) ` set pre \<longrightarrow> map_of (fs wa) q = map_of (fs w) q)"
proof -
  have n: "na = int (length pre)" using remove_loop_count [OF assms(2)] by simp
  have "remove_loop ((eid, r) # post) ta wa na sa = (Some IsADirectoryError, ta, wa, na, sa)"
    using remove_tracked_file_dir [OF assms(3)] by simp
  then have "remove_loop (pre @ (eid, r) # post) t w 0 0 = (Some IsADirectoryError, ta, wa, na, sa)"
    using remove_loop_append [OF assms(2)] by simp
  then have run: "cleanup_old_files L C d t w = ((int (length pre), sa), ta, logmsg ERROR wa)"
    using assms(1) n by (simp add: cleanup_old_files_def)
  show ?thesis
    using run remove_loop_frame [OF assms(2)] remove_loop_untouched [OF assms(2)] by blast
qed

lemma capacity_pass_failure:
  assumes "\<not> stats_total_size_mb (get_storage_stats t w) \<le> mx"
    and "collect_existing L (fs w) (downloads (tracking_data t)) [] = Inr rs"
    and "sort_by_date rs = Inr (pre @ (dt, eid, r) # post)"
    and "limit_loop mx pre (stats_total_size_mb (get_storage_stats t w)) t w 0 0
           = (None, ta, wa, na, sa)"
    and "mx < stats_total_size_mb (get_storage_stats t w) - sa"
    and "is_dir (fs wa) (file_path r)"
  shows "cleanup_by_storage_limit L mx t w = ((int (length pre), sa), ta, logmsg ERROR wa)
       \<and> statistics (tracking_data ta) = statistics (tracking_data t)
       \<and> (\<forall>y\<in>set (downloads (tracking_data t)).
             fst y \<notin> (\<lambda>x. fst (snd x)) ` set pre \<longrightarrow> y \<in> set (downloads (tracking_data ta)))
       \<and> (\<forall>q. q \<notin> (\<lambda>x. file_path (snd (snd x))) ` set pre
              \<longrightarrow> map_of (fs wa) q = map_of (fs w) q)"
proof -
  let ?cur = "stats_total_size_mb (get_storage_stats t w)"
  have over: "mx < ?cur - (sa - 0)" using assms(5) by simp
  note both = limit_loop_append [OF assms(4) over, of "(dt, eid, r) # post"]
  have ap: "limit_loop mx (pre @ (dt, eid, r) # post) ?cur t w 0 0
            = limit_loop mx ((dt, eid, r) # post) (?cur - sa) ta wa na sa"
    using both by (simp del: limit_loop.simps)
  have n: "na = int (length pre)" using both by (simp del: limit_loop.simps)
  have "limit_loop mx ((dt, eid, r) # post) (?cur - sa) ta wa na sa
        = (Some IsADirectoryError, ta, wa, na, sa)"
    using remove_tracked_file_dir [OF assms(6)] assms(5) by simp
  then have run: "cleanup_by_storage_limit L mx t w = ((int (length pre), sa), ta, logmsg ERROR wa)"
    using assms(1-3) ap n by (simp add: cleanup_by_storage_limit_def)
  show ?thesis
    using run limit_loop_frame [OF assms(4)] limit_loop_untouched [OF assms(4)] by blast
qed

lemma open_w_fail: "\<not> can_create f p \<Longrightarrow> \<exists>e. open_w tm f p = Inl e"
  by (auto simp: can_create_def is_dir_def open_w_def split: option.splits node.splits)

lemma compress_record_fail:
  assumes "os_path_exists (fs w) (file_path r)"
    and "is_dir (fs w) (file_path r) \<or> \<not> can_create (fs w) (file_path r @ ''.gz'')"
  shows "\<exists>e. compress_record L C eid r t w n s = (Some e, t, w, n, s)"
proof (cases "is_dir (fs w) (file_path r)")
  case True
  then show ?thesis
    by (auto simp: compress_record_def is_dir_def os_path_getsize_def read_file_def
        split: option.splits node.splits)
next
  case False
  then have nc: "\<not> can_create (fs w) (file_path r @ ''.gz'')" using assms(2) by simp
  from False assms(1) obtain c m where "map_of (fs w) (file_path r) = Some (File c m)"
    by (auto simp: os_path_exists_def is_dir_def split: option.splits node.splits)
  then have "os_path_getsize (fs w) (file_path r) = Inr (length c)"
    and "read_file (fs w) (file_path r) = Inr c"
    by (simp_all add: os_path_getsize_def read_file_def)
  then show ?thesis
    using open_w_fail [OF nc, of "now C"] by (auto simp: compress_record_def)
qed

lemma compression_pass_failure:
  assumes "downloads (tracking_data t) = pre @ (eid, r) # post"
    and "compress_loop L C (Naive (now C - timedelta_days d)) pre t w 0 0 = (None, ta, wa, na, sa)"
    and "eligible L (now C - timedelta_days d) (fs wa) r"
    and "is_dir (fs wa) (file_path r) \<or> \<not> can_create (fs wa) (file_path r @ ''.gz'')"
  shows "compress_old_files L C d t w = ((na, sa), ta, logmsg ERROR wa)
       \<and> statistics (tracking_data ta) = statistics (tracking_data t)
       \<and> (\<forall>k. k \<notin> fst ` set pre \<longrightarrow> map_of (downloads (tracking_data ta)) k
                                       = map_of (downloads (tracking_data t)) k)
       \<and> (\<forall>q. q \<notin> (\<lambda>x. file_path (snd x)) ` set pre
              \<and> q \<notin> (\<lambda>x. file_path (snd x) @ ''.gz'') ` set pre
              \<longrightarrow> map_of (fs wa) q = map_of (fs w) q)"
proof -
  let ?c = "now C - timedelta_days d"
  from assms(3) have el: "\<not> compressed r" "os_path_exists (fs wa) (file_path r)" "due L ?c r"
    by (simp_all add: eligible_def)
  then have "naive_date L r \<noteq> None" by (auto simp: due_def split: option.splits)
  from naive_dateD [OF this] obtain a where a: "parse_date L (download_date r) = Inr (Naive a)"
    by blast
  then have ac: "a < ?c" using el(3) by (simp add: due_def naive_date_def)
  from compress_record_fail [OF el(2) assms(4), of L C eid ta na sa]
  obtain e where "compress_record L C eid r ta wa na sa = (Some e, ta, wa, na, sa)" by blast
  then have "compress_loop L C (Naive ?c) ((eid, r) # post) ta wa na sa = (Some e, ta, wa, na, sa)"
    using el a ac by simp
  then have "compress_loop L C (Naive ?c) (pre @ (eid, r) # post) t w 0 0
             = (Some e, ta, wa, na, sa)"
    using compress_loop_append [OF assms(2)] by simp
  then have run: "compress_old_files L C d t w = ((na, sa), ta, logmsg ERROR wa)"
    using assms(1) by (simp add: compress_old_files_def)
  show ?thesis
    using run compress_loop_untouched [OF assms(2)] by blast
qed

lemma verification_read_failure:
  assumes "x \<in> set (downloads (tracking_data t))"
    and "is_dir (fs w) (file_path (snd x))"
    and "truthy (checksum (snd x))"
    and "\<not> (compressed (snd x) \<and> endswith (file_path (snd x)) ''.gz'')"
  shows "fst x \<in> set (snd (fst (verify_files L t w)))"
proof -
  from assms(2) have ex: "os_path_exists (fs w) (file_path (snd x))"
    and rd: "read_file (fs w) (file_path (snd x)) = Inl IsADirectoryError"
    by (auto simp: is_dir_def os_path_exists_def read_file_def split: option.splits node.splits)
  have "fst (calculate_checksum L (file_path (snd x)) w) = []"
    using rd by (simp add: calculate_checksum_def)
  moreover have "checksum (snd x) \<noteq> Some []"
    using assms(3) by (auto simp: truthy_def)
  ultimately have "mismatch L w (snd x)" by (auto simp: mismatch_def)
  moreover have "checked w (snd x)" using ex assms(3,4) by (simp add: checked_def)
  ultimately show ?thesis
    using assms(1) by (force simp: verify_files_lists)
qed

text \<open>
  C9, as amended. When the processing of one record fails inside a retention or
  compression pass (the path to delete or to compress is a directory, or the
  compressed file cannot be created), the pass ends at that record and returns: the
  error is logged and goes no further, the store and the files are as the records
  processed before the failing one left them, and the returned count and size are
  theirs alone. The statistics are not updated, records other than those processed
  before the failure stay tracked, and the files of the failing record and of all later
  records are untouched. In a verification pass a file that cannot be read is
  reported as corrupted and every record is still classified.
\<close>

theorem pass_ends_at_failure:
  "(collect_old L (Naive (now C - timedelta_days d)) (downloads (tracking_data t)) []
      = Inr (pre @ (eid, r) # post)
    \<and> remove_loop pre t w 0 0 = (None, ta, wa, na, sa)
    \<and> is_dir (fs wa) (file_path r)
    \<longrightarrow> cleanup_old_files L C d t w = ((int (length pre), sa), ta, logmsg ERROR wa)
       \<and> statistics (tracking_data ta) = statistics (tracking_data t)
       \<and> (\<forall>y\<in>set (downloads (tracking_data t)).
             fst y \<notin> fst ` set pre \<longrightarrow> y \<in> set (downloads (tracking_data ta)))
       \<and> (\<forall>q. q \<notin> (\<lambda>x. file_path (snd x)) ` set pre \<longrightarrow> map_of (fs wa) q = map_of (fs w) q))
   \<and> (\<not> stats_total_size_mb (get_storage_stats t w) \<le> mx
    \<and> collect_existing L (fs w) (downloads (tracking_data t)) [] = Inr rs
    \<and> sort_by_date rs = Inr (pre2 @ (dt2, eid2, r2) # post2)
    \<and> limit_loop mx pre2 (stats_total_size_mb (get_storage_stats t w)) t w 0 0
        = (None, tb, wb, nb, sb)
    \<and> mx < stats_total_size_mb (get_storage_stats t w) - sb
    \<and> is_dir (fs wb) (file_path r2)
    \<longrightarrow> cleanup_by_storage_limit L mx t w = ((int (length pre2), sb), tb, logmsg ERROR wb)
       \<and> statistics (tracking_data tb) = statistics (tracking_data t)
       \<and> (\<forall>y\<in>set (downloads (tracking_data t)).
             fst y \<notin> (\<lambda>x. fst (snd x)) ` set pre2 \<longrightarrow> y \<in> set (downloads (tracking_data tb)))
       \<and> (\<forall>q. q \<notin> (\<lambda>x. file_path (snd (snd x))) ` set pre2
              \<longrightarrow> map_of (fs wb) q = map_of (fs w) q))
   \<and> (downloads (tracking_data t) = pre3 @ (eid3, r3) # post3
    \<and> compress_loop L C (Naive (now C - timedelta_days d3)) pre3 t w 0 0 = (None, tc, wc, nc, sc)
    \<and> eligible L (now C - timedelta_days d3) (fs wc) r3
    \<and> (is_dir (fs wc) (file_path r3) \<or> \<not> can_create (fs wc) (file_path r3 @ ''.gz''))
    \<longrightarrow> compress_old_files L C d3 t w = ((nc, sc), tc, logmsg ERROR wc)
       \<and> statistics (tracking_data tc) = statistics (tracking_data t)
       \<and> (\<forall>k. k \<notin> fst ` set pre3 \<longrightarrow> map_of (downloads (tracking_data tc)) k
                                       = map_of (downloads (tracking_data t)) k)
       \<and> (\<forall>q. q \<notin> (\<lambda>x. file_path (snd x)) ` set pre3
              \<and> q \<notin> (\<lambda>x. file_path (snd x) @ ''.gz'') ` set pre3
              \<longrightarrow> map_of (fs wc) q = map_of (fs w) q))
   \<and> (x \<in> set (downloads (tracking_data t))
    \<and> is_dir (fs w) (file_path (snd x))
    \<and> truthy (checksum (snd x))
    \<and> \<not> (compressed (snd x) \<and> endswith (file_path (snd x)) ''.gz'')
    \<longrightarrow> fst x \<in> set (snd (fst (verify_files L t w)))
       \<and> fst (fst (verify_files L t w))
           = map fst (filter (\<lambda>y. \<not> os_path_exists (fs w) (file_path (snd y)))
                        (downloads (tracking_data t))))"
proof -
  note a = age_pass_failure [of L C d t pre eid r post w ta wa na sa]
  note b = capacity_pass_failure [of t w mx L rs pre2 dt2 eid2 r2 post2 tb wb nb sb]
  note c = compression_pass_failure [of t pre3 eid3 r3 post3 L C d3 w tc wc nc sc]
  note v = verification_read_failure [of x t w L]
  have m: "fst (fst (verify_files L t w))
           = map fst (filter (\<lambda>y. \<not> os_path_exists (fs w) (file_path (snd y)))
                        (downloads (tracking_data t)))"
    by (simp add: verify_files_lists)
  show ?thesis
    using a b c v m by blast
qed

theorem pass_ends_at_failure_witness:
  "is_dir (fs failure_world) ''dl/A''
   \<and> cleanup_old_files ref_lib ref_clock 30 (mk_tracker failure_example) failure_world
       = ((1, 4 / 1048576),
          (mk_tracker failure_example)
          \<lparr>tracking_data := (tracking_data (mk_tracker failure_example))
             \<lparr>downloads := tl failure_example\<rparr>\<rparr>,
          \<lparr>fs = [(''dl'', Dir 0), (''dl/A'', Dir 0), (''dl/B.pdf'', File ''BBB'' 0)], log = [INFO, ERROR]\<rparr>)
   \<and> cleanup_by_storage_limit ref_lib 0 (mk_tracker failure_example) failure_world
       = ((1, 4 / 1048576),
          (mk_tracker failure_example)
          \<lparr>tracking_data := (tracking_data (mk_tracker failure_example))
             \<lparr>downloads := tl failure_example\<rparr>\<rparr>,
          \<lparr>fs = [(''dl'', Dir 0), (''dl/A'', Dir 0), (''dl/B.pdf'', File ''BBB'' 0)], log = [INFO, ERROR]\<rparr>)
   \<and> compress_old_files ref_lib ref_clock 7 (mk_tracker failure_example) failure_world
       = ((1, - (3 / 1048576)),
          (mk_tracker failure_example)
          \<lparr>tracking_data := (tracking_data (mk_tracker failure_example))
             \<lparr>downloads :=
                (''P'', mk_record ''P'' ''2024-10-01T00:00:00'' 7 ''dl/P.pdf.gz'' None True)
                # tl failure_example\<rparr>\<rparr>,
          \<lparr>fs = [(''dl'', Dir 0), (''dl/A'', Dir 0), (''dl/B.pdf'', File ''BBB'' 0),
                (''dl/P.pdf.gz'', File ''gz:PPPP'' 1735689600000000)], log = [INFO, ERROR]\<rparr>)
   \<and> ''A'' \<in> set (snd (fst (verify_files ref_lib (mk_tracker failure_example) failure_world)))"
proof -
  let ?T = "mk_tracker failure_example"
  let ?Ta = "(mk_tracker failure_example)
          \<lparr>tracking_data := (tracking_data (mk_tracker failure_example))
             \<lparr>downloads := tl failure_example\<rparr>\<rparr>"
  let ?Tc = "(mk_tracker failure_example)
          \<lparr>tracking_data := (tracking_data (mk_tracker failure_example))
             \<lparr>downloads :=
                (''P'', mk_record ''P'' ''2024-10-01T00:00:00'' 7 ''dl/P.pdf.gz'' None True)
                # tl failure_example\<rparr>\<rparr>"
  let ?Wa = "\<lparr>fs = [(''dl'', Dir 0), (''dl/A'', Dir 0), (''dl/B.pdf'', File ''BBB'' 0)], log = [INFO]\<rparr>"
  let ?Wc = "\<lparr>fs = [(''dl'', Dir 0), (''dl/A'', Dir 0), (''dl/B.pdf'', File ''BBB'' 0),
                (''dl/P.pdf.gz'', File ''gz:PPPP'' 1735689600000000)], log = [INFO]\<rparr>"
  let ?p = "(Naive 1727740800000000, failure_example ! 0)"
  let ?a = "(Naive 1730419200000000, ''A'', snd (failure_example ! 1))"
  let ?b = "(Naive 1730505600000000, failure_example ! 2)"
  have d: "is_dir (fs failure_world) ''dl/A''"
    by code_simp
  have h1: "collect_old ref_lib (Naive (now ref_clock - timedelta_days 30))
              (downloads (tracking_data ?T)) []
            = Inr ([failure_example ! 0] @ (''A'', snd (failure_example ! 1))
                   # [failure_example ! 2])"
    by code_simp
  have h2: "remove_loop [failure_example ! 0] ?T failure_world 0 0
            = (None, ?Ta, ?Wa, 1, 4 / 1048576)"
    by code_simp
  have h3: "is_dir (fs ?Wa) (file_path (snd (failure_example ! 1)))"
    by code_simp
  have g1: "\<not> stats_total_size_mb (get_storage_stats ?T failure_world) \<le> 0"
    by code_simp
  have g2: "collect_existing ref_lib (fs failure_world) (downloads (tracking_data ?T)) []
            = Inr [?p, ?a, ?b]"
    by code_simp
  have g3: "sort_by_date [?p, ?a, ?b] = Inr ([?p] @ ?a # [?b])"
    by code_simp
  have g4: "limit_loop 0 [?p] (stats_total_size_mb (get_storage_stats ?T failure_world))
              ?T failure_world 0 0
            = (None, ?Ta, ?Wa, 1, 4 / 1048576)"
    by code_simp
  have g5: "0 < stats_total_size_mb (get_storage_stats ?T failure_world) - 4 / 1048576"
    by code_simp
  have k1: "downloads (tracking_data ?T)
            = [failure_example ! 0] @ (''A'', snd (failure_example ! 1)) # [failure_example ! 2]"
    by code_simp
  have k2: "compress_loop ref_lib ref_clock (Naive (now ref_clock - timedelta_days 7))
              [failure_example ! 0] ?T failure_world 0 0
            = (None, ?Tc, ?Wc, 1, - (3 / 1048576))"
    by code_simp
  have k3: "eligible ref_lib (now ref_clock - timedelta_days 7) (fs ?Wc)
              (snd (failure_example ! 1))"
    by code_simp
  have k4: "is_dir (fs ?Wc) (file_path (snd (failure_example ! 1)))
            \<or> \<not> can_create (fs ?Wc) (file_path (snd (failure_example ! 1)) @ ''.gz'')"
    by code_simp
  have v1: "failure_example ! 1 \<in> set (downloads (tracking_data ?T))"
    by code_simp
  have v2: "is_dir (fs failure_world) (file_path (snd (failure_example ! 1)))"
    by code_simp
  have v3: "truthy (checksum (snd (failure_example ! 1)))"
    by code_simp
  have v4: "\<not> (compressed (snd (failure_example ! 1))
               \<and> endswith (file_path (snd (failure_example ! 1))) ''.gz'')"
    by code_simp
  have v5: "fst (failure_example ! 1) = ''A''"
    by code_simp
  note age = pass_ends_at_failure [THEN conjunct1, THEN mp,
      OF conjI [OF h1 conjI [OF h2 h3]], THEN conjunct1]
  note capacity = pass_ends_at_failure [THEN conjunct2, THEN conjunct1, THEN mp,
      OF conjI [OF g1 conjI [OF g2 conjI [OF g3 conjI [OF g4 conjI [OF g5 h3]]]]],
      THEN conjunct1]
  note compression = pass_ends_at_failure [THEN conjunct2, THEN conjunct2, THEN conjunct1,
      THEN mp, OF conjI [OF k1 conjI [OF k2 conjI [OF k3 k4]]], THEN conjunct1]
  note verification = pass_ends_at_failure [THEN conjunct2, THEN conjunct2, THEN conjunct2,
      THEN mp, OF conjI [OF v1 conjI [OF v2 conjI [OF v3 v4]]], THEN conjunct1]
  have r1: "cleanup_old_files ref_lib ref_clock 30 ?T failure_world
            = ((1, 4 / 1048576), ?Ta, \<lparr>fs = [(''dl'', Dir 0), (''dl/A'', Dir 0), (''dl/B.pdf'', File ''BBB'' 0)], log = [INFO, ERROR]\<rparr>)"
    using age by (simp add: logmsg_def)
  have r2: "cleanup_by_storage_limit ref_lib 0 ?T failure_world
            = ((1, 4 / 1048576), ?Ta, \<lparr>fs = [(''dl'', Dir 0), (''dl/A'', Dir 0), (''dl/B.pdf'', File ''BBB'' 0)], log = [INFO, ERROR]\<rparr>)"
    using capacity by (simp add: logmsg_def)
  have r3: "compress_old_files ref_lib ref_clock 7 ?T failure_world
            = ((1, - (3 / 1048576)), ?Tc, \<lparr>fs = [(''dl'', Dir 0), (''dl/A'', Dir 0), (''dl/B.pdf'', File ''BBB'' 0),
                (''dl/P.pdf.gz'', File ''gz:PPPP'' 1735689600000000)], log = [INFO, ERROR]\<rparr>)"
    using compression by (simp add: logmsg_def)
  have r4: "''A'' \<in> set (snd (fst (verify_files ref_lib ?T failure_world)))"
    using verification v5 by simp
  show ?thesis
    using d r1 r2 r3 r4 by blast
qed

text \<open>
  C9 as stated fails. In a store of two records 61 and 60 days old where the path of
  the first is a directory, each of the three passes is abandoned at the first record:
  the second record, whose file is a regular file, is neither removed nor compressed,
  and the returned pair counts no failure.
\<close>

theorem pass_ends_at_failure_counterexample:
  "due ref_lib (now ref_clock - timedelta_days 30)
     (mk_record ''B'' ''2024-11-02T00:00:00'' 3 ''dl/B.pdf'' None False)
   \<and> is_file [(''dl'', Dir 0), (''dl/A'', Dir 0), (''dl/B.pdf'', File ''BBB'' 0)] ''dl/B.pdf''
   \<and> can_create [(''dl'', Dir 0), (''dl/A'', Dir 0), (''dl/B.pdf'', File ''BBB'' 0)] ''dl/B.pdf.gz''
   \<and> cleanup_old_files ref_lib ref_clock 30 (mk_tracker
          [(''A'', mk_record ''A'' ''2024-11-01T00:00:00'' 5 ''dl/A'' None False),
           (''B'', mk_record ''B'' ''2024-11-02T00:00:00'' 3 ''dl/B.pdf'' None False)])
        \<lparr>fs = [(''dl'', Dir 0), (''dl/A'', Dir 0), (''dl/B.pdf'', File ''BBB'' 0)], log = []\<rparr>
       = ((0, 0), (mk_tracker
          [(''A'', mk_record ''A'' ''2024-11-01T00:00:00'' 5 ''dl/A'' None False),
           (''B'', mk_record ''B'' ''2024-11-02T00:00:00'' 3 ''dl/B.pdf'' None False)]),
          \<lparr>fs = [(''dl'', Dir 0), (''dl/A'', Dir 0), (''dl/B.pdf'', File ''BBB'' 0)], log = [ERROR]\<rparr>)
   \<and> cleanup_by_storage_limit ref_lib 0 (mk_tracker
          [(''A'', mk_record ''A'' ''2024-11-01T00:00:00'' 5 ''dl/A'' None False),
           (''B'', mk_record ''B'' ''2024-11-02T00:00:00'' 3 ''dl/B.pdf'' None False)])
        \<lparr>fs = [(''dl'', Dir 0), (''dl/A'', Dir 0), (''dl/B.pdf'', File ''BBB'' 0)], log = []\<rparr>
       = ((0, 0), (mk_tracker
          [(''A'', mk_record ''A'' ''2024-11-01T00:00:00'' 5 ''dl/A'' None False),
           (''B'', mk_record ''B'' ''2024-11-02T00:00:00'' 3 ''dl/B.pdf'' None False)]),
          \<lparr>fs = [(''dl'', Dir 0), (''dl/A'', Dir 0), (''dl/B.pdf'', File ''BBB'' 0)], log = [ERROR]\<rparr>)
   \<and> compress_old_files ref_lib ref_clock 7 (mk_tracker
          [(''A'', mk_record ''A'' ''2024-11-01T00:00:00'' 5 ''dl/A'' None False),
           (''B'', mk_record ''B'' ''2024-11-02T00:00:00'' 3 ''dl/B.pdf'' None False)])
        \<lparr>fs = [(''dl'', Dir 0), (''dl/A'', Dir 0), (''dl/B.pdf'', File ''BBB'' 0)], log = []\<rparr>
       = ((0, 0), (mk_tracker
          [(''A'', mk_record ''A'' ''2024-11-01T00:00:00'' 5 ''dl/A'' None False),
           (''B'', mk_record ''B'' ''2024-11-02T00:00:00'' 3 ''dl/B.pdf'' None False)]),
          \<lparr>fs = [(''dl'', Dir 0), (''dl/A'', Dir 0), (''dl/B.pdf'', File ''BBB'' 0)], log = [ERROR]\<rparr>)"
  by code_simp

section \<open>Saving and loading\<close>

lemma tmp_neq: "p @ ''.tmp'' \<noteq> p"
  by (metis append_self_conv list.distinct(1))

lemma write_and_replace_ok:
  assumes "write_and_replace L C t w = (None, w')"
  shows "\<exists>js. json_dumps L (tracking_data t) = Some js
               \<and> map_of (fs w') (tracking_file t) = Some (File js (now C))"
proof -
  let ?tmp = "tracking_file t @ ''.tmp''"
  from assms obtain f1 where f1: "open_w (now C) (fs w) ?tmp = Inr f1"
    by (auto simp: write_and_replace_def Let_def split: sum.splits)
  from assms f1 obtain js where tx: "json_dumps L (tracking_data t) = Some js"
    by (auto simp: write_and_replace_def Let_def split: option.splits)
  let ?f2 = "write_content (now C) f1 ?tmp js"
  from assms f1 tx obtain f3 where f3: "os_rename ?f2 ?tmp (tracking_file t) = Inr f3"
    and w': "w' = logmsg DEBUG (w\<lparr>fs := f3\<rparr>)"
    by (auto simp: write_and_replace_def Let_def split: sum.splits)
  have src: "map_of ?f2 ?tmp = Some (File js (now C))"
    by (simp add: write_content_def map_of_update)
  from f3 src have "f3 = AList.update (tracking_file t) (File js (now C)) (AList.delete ?tmp ?f2)"
    using tmp_neq [of "tracking_file t"]
    by (auto simp: os_rename_def split: option.splits node.splits if_splits)
  then have "map_of f3 (tracking_file t) = Some (File js (now C))"
    by (simp add: map_of_update)
  then show ?thesis using tx w' by (simp add: fs_logmsg)
qed

lemma save_tracking_data_ok:
  assumes "save_tracking_data L C t w = (None, t', w')"
  shows "t' = stamped C t
       \<and> (\<exists>js. json_dumps L (tracking_data (stamped C t)) = Some js
               \<and> map_of (fs w') (tracking_file t) = Some (File js (now C)))"
proof -
  let ?t1 = "stamped C t"
  obtain r w2 where wr: "write_and_replace L C ?t1 (create_backup C ?t1 w) = (r, w2)"
    by (metis surj_pair)
  from assms wr have r: "r = None" and t': "t' = ?t1" and w': "w' = w2"
    by (auto simp: save_tracking_data_def stamped_def Let_def split: option.splits sum.splits if_splits)
  from write_and_replace_ok [OF wr [unfolded r]] t' w' show ?thesis
    by (simp add: stamped_def)
qed

lemma validate_and_migrate_doc_of:
  "downloads (validate_and_migrate_data C dd (doc_of d)) = downloads d"
  by (simp add: validate_and_migrate_data_def doc_of_def Let_def)

text \<open>
  C1. When \<^verbatim>\<open>save_tracking_data\<close> returns normally and the JSON library loads what
  it dumped, \<^verbatim>\<open>load_tracking_data\<close> on the files it left, at any later time, returns
  a store with the downloads of the saved one: the same ids in the same order, each
  with the same record.
\<close>

theorem save_load_round_trip:
  assumes "save_tracking_data L C t w = (None, t', w')"
    and "json_round_trip L (tracking_data t')"
  shows "\<exists>data. load_tracking_data L C' (tracking_file t') (download_dir t') (backup_dir t') w'
                 = (Inr data, logmsg INFO w')
              \<and> downloads data = downloads (tracking_data t)
              \<and> downloads (tracking_data t') = downloads (tracking_data t)"
proof -
  from save_tracking_data_ok [OF assms(1)] obtain js
    where t': "t' = stamped C t"
      and tx: "json_dumps L (tracking_data t') = Some js"
      and f: "map_of (fs w') (tracking_file t) = Some (File js (now C))"
    by auto
  have tf: "tracking_file t' = tracking_file t" and ds: "downloads (tracking_data t') = downloads (tracking_data t)"
    by (simp_all add: t' stamped_def)
  from assms(2) tx have ld: "json_loads L js = Some (doc_of (tracking_data t'))"
    by (simp add: json_round_trip_def)
  have "read_and_parse L C' (tracking_file t') (download_dir t') w'
        = Inr (validate_and_migrate_data C' (download_dir t') (doc_of (tracking_data t')))"
    using f ld by (simp add: read_and_parse_def read_file_def tf)
  then have "load_tracking_data L C' (tracking_file t') (download_dir t') (backup_dir t') w'
        = (Inr (validate_and_migrate_data C' (download_dir t') (doc_of (tracking_data t'))),
           logmsg INFO w')"
    using f by (simp add: load_tracking_data_def os_path_exists_def tf)
  then show ?thesis
    using ds by (simp add: validate_and_migrate_doc_of)
qed

theorem save_load_round_trip_witness:
  "save_tracking_data (table_lib (tracking_data (stamped ref_clock (mk_tracker age_example))) ''json:A,B'')
     ref_clock (mk_tracker age_example)
     \<lparr>fs = [(''data'', Dir 0), (''data/backups'', Dir 0),
             (''data/tracking.json'', File ''json:old'' 0)], log = []\<rparr>
   = (None, stamped ref_clock (mk_tracker age_example),
      \<lparr>fs = [(''data'', Dir 0), (''data/backups'', Dir 0),
             (''data/tracking.json'', File ''json:A,B'' 1735689600000000),
             (''data/backups/tracking_backup_20250101_000000.json'', File ''json:old'' 0)],
        log = [DEBUG, DEBUG]\<rparr>)
   \<and> json_round_trip (table_lib (tracking_data (stamped ref_clock (mk_tracker age_example))) ''json:A,B'')
        (tracking_data (stamped ref_clock (mk_tracker age_example)))
   \<and> (\<exists>data.
        load_tracking_data (table_lib (tracking_data (stamped ref_clock (mk_tracker age_example))) ''json:A,B'')
          ref_clock ''data/tracking.json'' ''dl'' ''data/backups''
          \<lparr>fs = [(''data'', Dir 0), (''data/backups'', Dir 0),
             (''data/tracking.json'', File ''json:A,B'' 1735689600000000),
             (''data/backups/tracking_backup_20250101_000000.json'', File ''json:old'' 0)],
        log = [DEBUG, DEBUG]\<rparr>
        = (Inr data,
           logmsg INFO
             \<lparr>fs = [(''data'', Dir 0), (''data/backups'', Dir 0),
             (''data/tracking.json'', File ''json:A,B'' 1735689600000000),
             (''data/backups/tracking_backup_20250101_000000.json'', File ''json:old'' 0)],
        log = [DEBUG, DEBUG]\<rparr>)
        \<and> downloads data = age_example)"
proof -
  let ?L = "(table_lib (tracking_data (stamped ref_clock (mk_tracker age_example))) ''json:A,B'')"
  let ?W1 = "\<lparr>fs = [(''data'', Dir 0), (''data/backups'', Dir 0),
             (''data/tracking.json'', File ''json:A,B'' 1735689600000000),
             (''data/backups/tracking_backup_20250101_000000.json'', File ''json:old'' 0)],
        log = [DEBUG, DEBUG]\<rparr>"
  have ev: "save_tracking_data ?L ref_clock (mk_tracker age_example)
              \<lparr>fs = [(''data'', Dir 0), (''data/backups'', Dir 0),
             (''data/tracking.json'', File ''json:old'' 0)], log = []\<rparr>
            = (None, stamped ref_clock (mk_tracker age_example), ?W1)"
    by code_simp
  have rt: "json_round_trip ?L (tracking_data (stamped ref_clock (mk_tracker age_example)))"
    by code_simp
  from save_load_round_trip [OF ev rt, of ref_clock]
  have "\<exists>data.
        load_tracking_data ?L ref_clock ''data/tracking.json'' ''dl'' ''data/backups'' ?W1
        = (Inr data, logmsg INFO ?W1)
        \<and> downloads data = age_example"
    by (simp add: stamped_def mk_tracker_def)
  then show ?thesis
    using ev rt by blast
qed

end
